theory Spec2Isabelle
  imports
    Complex_Main
    "HOL-Library.Char_ord"
    "HOL-Library.List_Lexorder"
    "HOL-Library.Option_ord"
    "HOL-Library.AList"
begin

section \<open>Data model (models.py)\<close>

text \<open>
  Python strings are modelled as \<open>string\<close>, read as the UTF-8 bytes of the text. The
  order of \<^theory_text>\<open>List_Lexorder\<close> over \<^theory_text>\<open>Char_ord\<close> is the
  lexicographic order with a proper prefix smaller, which on UTF-8 bytes coincides with
  Python's code point order of \<open>str\<close>. An \<open>Optional[str]\<close> is a \<open>string option\<close>, ordered
  by \<^theory_text>\<open>Option_ord\<close> with \<open>None\<close> below every string.

  A \<open>datetime\<close> is an instant, counted in microseconds of UTC. The audit columns
  \<open>created_at\<close> and \<open>updated_at\<close> that Django stamps on every row are not part of the
  model.
\<close>

type_synonym datetime = int

datatype SyncStatus = PENDING | IN_PROGRESS | SUCCESS | FAILED

datatype ObjectType = CUSTOMER | INVOICE

text \<open>
  The exceptions of sdk/exceptions.py and sync\_engine.py, with those of Django and of
  the requests library that the code can meet. Each carries what \<open>str(e)\<close> gives.
  \<open>InvalidGrantError\<close> is a subclass of \<open>AuthenticationError\<close>, which is a subclass of
  \<open>QBOSDKError\<close>; the handlers below spell the subclass tests out.
\<close>

datatype exn =
    QBOSDKError string
  | AuthenticationError string
  | InvalidGrantError string
  | NotFoundError string
  | ValidationError string
  | RateLimitError string
  | ServerError string
  | RequestException string
  | SyncError string
  | AccountNotFoundError string
  | RevokedRefreshTokenError string
  | IntegrityError string
  | DoesNotExist string
  | MultipleObjectsReturned string
  | KeyError string
  | ValueError string

fun str :: "exn \<Rightarrow> string" where
  "str (QBOSDKError m) = m"
| "str (AuthenticationError m) = m"
| "str (InvalidGrantError m) = m"
| "str (NotFoundError m) = m"
| "str (ValidationError m) = m"
| "str (RateLimitError m) = m"
| "str (ServerError m) = m"
| "str (RequestException m) = m"
| "str (SyncError m) = m"
| "str (AccountNotFoundError m) = m"
| "str (RevokedRefreshTokenError m) = m"
| "str (IntegrityError m) = m"
| "str (DoesNotExist m) = m"
| "str (MultipleObjectsReturned m) = m"
| "str (KeyError m) = m"
| "str (ValueError m) = m"

record QBOAccount =
  pk :: nat
  realm_id :: string
  company_name :: "string option"
  access_token :: "string option"
  refresh_token :: string
  access_token_expires_at :: "datetime option"
  is_token_expired :: bool

text \<open>
  One entity of a query response (a customer or an invoice), as far as the engine reads
  it: \<open>Id\<close>, \<open>SyncToken\<close>, \<open>MetaData\<close> (absent, or present with its
  \<open>LastUpdatedTime\<close> member, which may be absent in turn), \<open>CustomerRef\<close> (absent, or
  present with its \<open>value\<close> member) and the rest of the payload, which is opaque.
\<close>

record entity =
  ent_Id :: "string option"
  ent_SyncToken :: "string option"
  ent_MetaData :: "string option option"
  ent_CustomerRef :: "string option option"
  ent_rest :: string

record Customer =
  customer_account :: nat
  customer_qbo_id :: string
  customer_raw_data :: entity
  customer_sync_token :: "string option"
  customer_last_updated_time :: "datetime option"

record Invoice =
  invoice_account :: nat
  invoice_qbo_id :: string
  invoice_customer_ref :: "string option"
  invoice_raw_data :: entity
  invoice_sync_token :: "string option"
  invoice_last_updated_time :: "datetime option"

text \<open>
  A row of the sync states table, without the two columns \<open>account\<close> and \<open>object_type\<close>:
  \<open>unique_together\<close> makes that pair the key of the table, and the table below is
  indexed by it.
\<close>

record SyncState =
  last_attempt_time :: "datetime option"
  last_successful_sync_time :: "datetime option"
  status :: SyncStatus
  checkpoint :: "string option"
  error_message :: "string option"
  consecutive_failures :: int

text \<open>Python's truth value of an \<open>Optional[str]\<close>: \<open>None\<close> and the empty string are false.\<close>

fun truthy :: "string option \<Rightarrow> bool" where
  "truthy None = False"
| "truthy (Some s) = (s \<noteq> [])"

subsection \<open>QBOAccount.get\_active\_accounts\<close>

text \<open>
  The column \<open>refresh_token\<close> is declared without \<open>null=True\<close>, so the filter
  \<open>refresh_token__isnull=False\<close> holds of every row; what remains is the revoked flag and
  the exclusion of the empty string.
\<close>

definition get_active_accounts :: "QBOAccount list \<Rightarrow> QBOAccount list" where
  "get_active_accounts rows =
     filter (\<lambda>a. refresh_token a \<noteq> [])
       (filter (\<lambda>a. is_token_expired a = False) rows)"

subsection \<open>Customer.upsert and Invoice.upsert\<close>

text \<open>
  Django's \<open>update_or_create(account=, qbo_id=, defaults=)\<close> on a table held as the list
  of its rows: the rows matching the lookup are selected; none means a row is created,
  one means its \<open>defaults\<close> columns are overwritten, more than one raises
  \<open>MultipleObjectsReturned\<close>. A lookup with \<open>qbo_id=None\<close> matches no row, and creating a
  row without \<open>qbo_id\<close> violates the column's NOT NULL constraint.
\<close>

definition customer_matches :: "nat \<Rightarrow> string option \<Rightarrow> Customer \<Rightarrow> bool" where
  "customer_matches acct qbo_id row =
     (customer_account row = acct \<and> Some (customer_qbo_id row) = qbo_id)"

definition Customer_upsert ::
  "QBOAccount \<Rightarrow> string option \<Rightarrow> entity \<Rightarrow> string option \<Rightarrow> datetime option
     \<Rightarrow> Customer list \<Rightarrow> exn + Customer list" where
  "Customer_upsert acct qbo_id raw_data sync_token last_updated_time rows =
     (case filter (customer_matches (pk acct) qbo_id) rows of
        [] \<Rightarrow>
          (case qbo_id of
             None \<Rightarrow> Inl (IntegrityError ''NOT NULL constraint failed: customers.qbo_id'')
           | Some i \<Rightarrow>
               Inr (rows @ [\<lparr>customer_account = pk acct, customer_qbo_id = i,
                             customer_raw_data = raw_data, customer_sync_token = sync_token,
                             customer_last_updated_time = last_updated_time\<rparr>]))
      | [found] \<Rightarrow>
          Inr (map (\<lambda>row. if customer_matches (pk acct) qbo_id row
                           then row\<lparr>customer_raw_data := raw_data,
                                    customer_sync_token := sync_token,
                                    customer_last_updated_time := last_updated_time\<rparr>
                           else row) rows)
      | _ \<Rightarrow> Inl (MultipleObjectsReturned ''get() returned more than one Customer''))"

definition invoice_matches :: "nat \<Rightarrow> string option \<Rightarrow> Invoice \<Rightarrow> bool" where
  "invoice_matches acct qbo_id row =
     (invoice_account row = acct \<and> Some (invoice_qbo_id row) = qbo_id)"

text \<open>
  The first statement of \<open>Invoice.upsert\<close>: a reference that was not passed is read from
  the payload when the payload has one.
\<close>

definition resolve_customer_ref :: "string option \<Rightarrow> entity \<Rightarrow> string option" where
  "resolve_customer_ref customer_ref raw_data =
     (if customer_ref = None \<and> ent_CustomerRef raw_data \<noteq> None
      then the (ent_CustomerRef raw_data) else customer_ref)"

definition Invoice_upsert ::
  "QBOAccount \<Rightarrow> string option \<Rightarrow> entity \<Rightarrow> string option \<Rightarrow> string option
     \<Rightarrow> datetime option \<Rightarrow> Invoice list \<Rightarrow> exn + Invoice list" where
  "Invoice_upsert acct qbo_id raw_data customer_ref sync_token last_updated_time rows =
     (let customer_ref' = resolve_customer_ref customer_ref raw_data
      in case filter (invoice_matches (pk acct) qbo_id) rows of
        [] \<Rightarrow>
          (case qbo_id of
             None \<Rightarrow> Inl (IntegrityError ''NOT NULL constraint failed: invoices.qbo_id'')
           | Some i \<Rightarrow>
               Inr (rows @ [\<lparr>invoice_account = pk acct, invoice_qbo_id = i,
                             invoice_customer_ref = customer_ref',
                             invoice_raw_data = raw_data, invoice_sync_token = sync_token,
                             invoice_last_updated_time = last_updated_time\<rparr>]))
      | [found] \<Rightarrow>
          Inr (map (\<lambda>row. if invoice_matches (pk acct) qbo_id row
                           then row\<lparr>invoice_raw_data := raw_data,
                                    invoice_customer_ref := customer_ref',
                                    invoice_sync_token := sync_token,
                                    invoice_last_updated_time := last_updated_time\<rparr>
                           else row) rows)
      | _ \<Rightarrow> Inl (MultipleObjectsReturned ''get() returned more than one Invoice''))"

subsection \<open>SyncState.mark\_started, mark\_success, mark\_failed\<close>

text \<open>
  Each method assigns fields of the object it is called on and then saves exactly the
  listed columns; \<open>now\<close> is what \<open>datetime.utcnow()\<close> returns at the call.
\<close>

definition mark_started :: "datetime \<Rightarrow> SyncState \<Rightarrow> SyncState" where
  "mark_started now s =
     s\<lparr>status := IN_PROGRESS, last_attempt_time := Some now, error_message := None\<rparr>"

definition mark_success :: "datetime \<Rightarrow> string option \<Rightarrow> SyncState \<Rightarrow> SyncState" where
  "mark_success now ckpt s =
     (let s1 = s\<lparr>status := SUCCESS, last_successful_sync_time := Some now,
                  consecutive_failures := 0, error_message := None\<rparr>
      in if truthy ckpt then s1\<lparr>checkpoint := ckpt\<rparr> else s1)"

definition mark_failed :: "string \<Rightarrow> SyncState \<Rightarrow> SyncState" where
  "mark_failed msg s =
     s\<lparr>status := FAILED, error_message := Some msg,
       consecutive_failures := consecutive_failures s + 1\<rparr>"

section \<open>The engine's helpers (sync\_engine.py)\<close>

subsection \<open>\_update\_checkpoint\<close>

definition update_checkpoint :: "string option \<Rightarrow> string option \<Rightarrow> string option" where
  "update_checkpoint current new_value =
     (if truthy new_value \<and> (\<not> truthy current \<or> the new_value > the current)
      then new_value else current)"

section \<open>The environment\<close>

text \<open>
  What the identity provider answers to a refresh exchange: a response with its status
  code, its body parsed as JSON (\<open>None\<close> when the body is not JSON, so that
  \<open>response.json()\<close> raises \<open>ValueError\<close>) and its text; or no response at all, when
  \<open>requests.post\<close> raises.
\<close>

record token_json =
  tj_error :: "string option"
  tj_error_description :: "string option"
  tj_access_token :: "string option"
  tj_refresh_token :: "string option"
  tj_expires_in :: "int option"

record token_response =
  tr_status_code :: int
  tr_json :: "token_json option"
  tr_text :: string

datatype token_reply = TokenResponse token_response | TokenTransportError string

text \<open>
  What the accounting API answers to a request: a response with its status code, the
  detail text that \<open>_handle_response\<close> extracts from the body of an error, and the
  \<open>QueryResponse\<close> member of the body (absent, or the lists of entities by entity
  name); or no response at all, when \<open>requests.request\<close> raises a \<open>RequestException\<close>.
\<close>

record Response =
  status_code :: int
  error_detail :: string
  QueryResponse :: "(string \<times> entity list) list option"

datatype http_reply = HttpResponse Response | TransportError string

type_synonym request = "string \<times> (string \<times> string) list"

text \<open>
  The world the engine runs in: the tables of the database, the clock, the two remote
  endpoints and the record of what was sent to them. The answer of an endpoint may
  depend on the request and on how many requests came before it; the \<open>n\<close>-th reading
  of the clock gives \<open>clock n\<close>. Two things the code takes from outside the
  repository are held here too: \<open>datetime.fromisoformat\<close> of the Python library, with
  \<open>None\<close> where it raises \<open>ValueError\<close>, and the setting \<open>QBO_ENVIRONMENT\<close>.
\<close>

record world =
  accounts :: "QBOAccount list"
  sync_states :: "nat \<times> ObjectType \<Rightarrow> SyncState option"
  customers :: "Customer list"
  invoices :: "Invoice list"
  clock :: "nat \<Rightarrow> datetime"
  clock_reads :: nat
  token_endpoint :: "nat \<Rightarrow> string \<Rightarrow> token_reply"
  token_requests :: "string list"
  api_endpoint :: "nat \<Rightarrow> request \<Rightarrow> http_reply"
  api_requests :: "request list"
  sleeps :: "rat list"
  fromisoformat :: "string \<Rightarrow> datetime option"
  QBO_ENVIRONMENT :: string

definition now :: "world \<Rightarrow> datetime \<times> world" where
  "now w = (clock w (clock_reads w), w\<lparr>clock_reads := Suc (clock_reads w)\<rparr>)"

definition sleep :: "rat \<Rightarrow> world \<Rightarrow> world" where
  "sleep delay w = w\<lparr>sleeps := sleeps w @ [delay]\<rparr>"

definition timedelta_seconds :: "int \<Rightarrow> int" where
  "timedelta_seconds n = n * 1000000"

definition timedelta_minutes :: "int \<Rightarrow> int" where
  "timedelta_minutes n = n * 60 * 1000000"

section \<open>The paginated API client (sdk/apis)\<close>

definition DEFAULT_PAGE_SIZE :: nat where
  "DEFAULT_PAGE_SIZE = 100"

record ApiBase =
  api_access_token :: "string option"
  api_server_url :: "string option"
  api_minor_version :: string
  api_max_retries :: nat
  api_retry_delay :: rat

definition ApiBase_init :: ApiBase where
  "ApiBase_init =
     \<lparr>api_access_token = None, api_server_url = None, api_minor_version = ''65'',
      api_max_retries = 3, api_retry_delay = 1\<rparr>"

definition rstrip_slash :: "string \<Rightarrow> string" where
  "rstrip_slash url = rev (dropWhile (\<lambda>c. c = CHR ''/'') (rev url))"

definition set_access_token :: "string option \<Rightarrow> ApiBase \<Rightarrow> ApiBase" where
  "set_access_token token api = api\<lparr>api_access_token := token\<rparr>"

definition set_server_url :: "string \<Rightarrow> ApiBase \<Rightarrow> ApiBase" where
  "set_server_url url api = api\<lparr>api_server_url := Some (rstrip_slash url)\<rparr>"

definition set_minor_version :: "string \<Rightarrow> ApiBase \<Rightarrow> ApiBase" where
  "set_minor_version version api = api\<lparr>api_minor_version := version\<rparr>"

definition get_headers :: "ApiBase \<Rightarrow> exn + (string \<times> string) list" where
  "get_headers api =
     (if \<not> truthy (api_access_token api)
      then Inl (AuthenticationError ''Access token not set'')
      else Inr [(''Authorization'', ''Bearer '' @ the (api_access_token api)),
                (''Accept'', ''application/json''),
                (''Content-Type'', ''application/json'')])"

definition build_url :: "ApiBase \<Rightarrow> string \<Rightarrow> exn + string" where
  "build_url api endpoint =
     (if \<not> truthy (api_server_url api)
      then Inl (QBOSDKError ''Server URL not configured'')
      else let url = the (api_server_url api) @ ''/'' @ endpoint;
               separator = (if CHR ''?'' \<in> set url then ''&'' else ''?'')
           in Inr (url @ separator @ ''minorversion='' @ api_minor_version api))"

text \<open>Python's \<open>str\<close> of a natural number, as the f-strings interpolate it.\<close>

fun str_nat :: "nat \<Rightarrow> string" where
  "str_nat n =
     (if n < 10 then [''0123456789'' ! n]
      else str_nat (n div 10) @ [''0123456789'' ! (n mod 10)])"

text \<open>
  \<open>urllib.parse.quote\<close> with its default \<open>safe='/'\<close>: letters, digits and the characters
  \<open>_.-~/\<close> stay, every other byte becomes \<open>%XX\<close>.
\<close>

definition quote_safe :: "char \<Rightarrow> bool" where
  "quote_safe c =
     (c \<in> set ''ABCDEFGHIJKLMNOPQRSTUVWXYZabcdefghijklmnopqrstuvwxyz0123456789_.-~/'')"

definition quote_char :: "char \<Rightarrow> string" where
  "quote_char c =
     (if quote_safe c then [c]
      else [CHR ''%'', ''0123456789ABCDEF'' ! (of_char c div 16),
            ''0123456789ABCDEF'' ! (of_char c mod 16)])"

definition quote :: "string \<Rightarrow> string" where
  "quote s = concat (map quote_char s)"

subsection \<open>\_handle\_response\<close>

definition handle_response :: "Response \<Rightarrow> exn + (string \<times> entity list) list option" where
  "handle_response response =
     (if status_code response = 200 then Inr (QueryResponse response)
      else if status_code response = 401
        then Inl (AuthenticationError (''Authentication failed: '' @ error_detail response))
      else if status_code response = 403
        then Inl (AuthenticationError (''Access forbidden: '' @ error_detail response))
      else if status_code response = 404
        then Inl (NotFoundError (''Resource not found: '' @ error_detail response))
      else if status_code response = 400
        then Inl (ValidationError (''Validation error: '' @ error_detail response))
      else if status_code response = 429
        then Inl (RateLimitError ''Rate limit exceeded'')
      else if status_code response \<ge> 500
        then Inl (ServerError (''Server error ('' @ str_nat (nat (status_code response))
                                @ ''): '' @ error_detail response))
      else Inl (QBOSDKError (''API error ('' @ str_nat (nat (status_code response))
                               @ ''): '' @ error_detail response)))"

subsection \<open>\_request\_with\_retry\<close>

text \<open>One call of \<open>requests.request\<close>: the endpoint answers and the request is recorded.\<close>

definition requests_request :: "request \<Rightarrow> world \<Rightarrow> http_reply \<times> world" where
  "requests_request req w =
     (api_endpoint w (length (api_requests w)) req,
      w\<lparr>api_requests := api_requests w @ [req]\<rparr>)"

text \<open>
  The body of the loop \<open>for attempt in range(self._max_retries)\<close>, over the attempts
  that remain, with the value of \<open>last_exception\<close>. The headers are computed before the
  request is sent, inside the \<open>try\<close>. The handlers are tried in the source's order:
  \<open>RateLimitError\<close>, \<open>ServerError\<close>, then the three kinds raised again at once, then
  \<open>RequestException\<close>; any other exception is not caught and leaves the loop.
\<close>

fun request_attempts ::
  "ApiBase \<Rightarrow> string \<Rightarrow> nat list \<Rightarrow> exn option \<Rightarrow> world
     \<Rightarrow> (exn + (string \<times> entity list) list option) \<times> world" where
  "request_attempts api url [] last_exception w =
     (case last_exception of
        Some e \<Rightarrow> (Inl e, w)
      | None \<Rightarrow> (Inl (QBOSDKError ''Request failed after retries''), w))"
| "request_attempts api url (attempt # rest) last_exception w =
     (case get_headers api of
        Inl e \<Rightarrow> (Inl e, w)
      | Inr headers \<Rightarrow>
          (case requests_request (url, headers) w of
             (TransportError m, w1) \<Rightarrow>
               request_attempts api url rest (Some (QBOSDKError (''Network error: '' @ m)))
                 (if int attempt < int (api_max_retries api) - 1
                  then sleep (api_retry_delay api * (of_nat attempt + 1)) w1 else w1)
           | (HttpResponse response, w1) \<Rightarrow>
               (case handle_response response of
                  Inr body \<Rightarrow> (Inr body, w1)
                | Inl (RateLimitError m) \<Rightarrow>
                    request_attempts api url rest
                      (Some (RateLimitError ''Rate limit exceeded after retries''))
                      (sleep (api_retry_delay api * 2 ^ attempt) w1)
                | Inl (ServerError m) \<Rightarrow>
                    request_attempts api url rest (Some (ServerError m))
                      (if int attempt < int (api_max_retries api) - 1
                       then sleep (api_retry_delay api * (of_nat attempt + 1)) w1 else w1)
                | Inl e \<Rightarrow> (Inl e, w1))))"

definition request_with_retry ::
  "ApiBase \<Rightarrow> string \<Rightarrow> world \<Rightarrow> (exn + (string \<times> entity list) list option) \<times> world" where
  "request_with_retry api url w =
     request_attempts api url [0..<api_max_retries api] None w"

subsection \<open>\_query and \_query\_generator\<close>

definition query ::
  "ApiBase \<Rightarrow> string \<Rightarrow> world \<Rightarrow> (exn + (string \<times> entity list) list option) \<times> world" where
  "query api q w =
     (case build_url api (''query?query='' @ quote q) of
        Inl e \<Rightarrow> (Inl e, w)
      | Inr url \<Rightarrow> request_with_retry api url w)"

text \<open>
  A generator is a coroutine: each \<open>next()\<close> runs its body up to the next \<open>yield\<close>, to
  its end or to an exception. Its state is where it stands: at the head of the
  \<open>while True\<close> loop with a start position, suspended at the \<open>yield\<close> with the start
  position and the length of the page it has just handed out, or finished.
\<close>

datatype gen_state = LoopHead nat | Yielded nat nat | Exhausted

datatype gen_event = Yield "entity list" | StopIteration | Raise exn

record generator =
  gen_api :: ApiBase
  gen_base_query :: string
  gen_entity_name :: string
  gen_page_size :: nat
  gen_state :: gen_state

definition paginated_query :: "generator \<Rightarrow> nat \<Rightarrow> string" where
  "paginated_query g start_position =
     gen_base_query g @ '' STARTPOSITION '' @ str_nat start_position
       @ '' MAXRESULTS '' @ str_nat (gen_page_size g)"

definition response_entities :: "string \<Rightarrow> (string \<times> entity list) list option \<Rightarrow> entity list" where
  "response_entities entity_name response =
     (case response of
        None \<Rightarrow> []
      | Some query_response \<Rightarrow>
          (case map_of query_response entity_name of None \<Rightarrow> [] | Some entities \<Rightarrow> entities))"

text \<open>One turn of the \<open>while True\<close> loop, from its head to the \<open>yield\<close> or out of it.\<close>

definition loop_turn :: "generator \<Rightarrow> nat \<Rightarrow> world \<Rightarrow> gen_event \<times> generator \<times> world" where
  "loop_turn g start_position w =
     (case query (gen_api g) (paginated_query g start_position) w of
        (Inl e, w1) \<Rightarrow> (Raise e, g\<lparr>gen_state := Exhausted\<rparr>, w1)
      | (Inr response, w1) \<Rightarrow>
          (let entities = response_entities (gen_entity_name g) response
           in if entities = [] then (StopIteration, g\<lparr>gen_state := Exhausted\<rparr>, w1)
              else (Yield entities,
                    g\<lparr>gen_state := Yielded start_position (length entities)\<rparr>, w1)))"

definition next_batch :: "generator \<Rightarrow> world \<Rightarrow> gen_event \<times> generator \<times> world" where
  "next_batch g w =
     (case gen_state g of
        Exhausted \<Rightarrow> (StopIteration, g, w)
      | LoopHead start_position \<Rightarrow> loop_turn g start_position w
      | Yielded start_position n \<Rightarrow>
          if n < gen_page_size g then (StopIteration, g\<lparr>gen_state := Exhausted\<rparr>, w)
          else loop_turn g (start_position + gen_page_size g) w)"

definition query_generator :: "ApiBase \<Rightarrow> string \<Rightarrow> string \<Rightarrow> nat \<Rightarrow> generator" where
  "query_generator api base_query entity_name page_size =
     \<lparr>gen_api = api, gen_base_query = base_query, gen_entity_name = entity_name,
      gen_page_size = page_size, gen_state = LoopHead 1\<rparr>"

subsection \<open>Customers.get\_all\_generator and Invoices.get\_all\_generator\<close>

definition Customers_get_all_generator :: "ApiBase \<Rightarrow> string option \<Rightarrow> generator" where
  "Customers_get_all_generator api last_updated_time =
     (let q = (if truthy last_updated_time
               then ''SELECT * FROM Customer ''
                      @ ''WHERE MetaData.LastUpdatedTime > '' @ [CHR 0x27]
                      @ the last_updated_time @ [CHR 0x27] @ '' ''
                      @ ''ORDER BY MetaData.LastUpdatedTime ASC''
               else ''SELECT * FROM Customer ORDER BY MetaData.LastUpdatedTime ASC'')
      in query_generator api q ''Customer'' DEFAULT_PAGE_SIZE)"

definition Invoices_get_all_generator :: "ApiBase \<Rightarrow> string option \<Rightarrow> generator" where
  "Invoices_get_all_generator api last_updated_time =
     (let q = (if truthy last_updated_time
               then ''SELECT * FROM Invoice ''
                      @ ''WHERE MetaData.LastUpdatedTime > '' @ [CHR 0x27]
                      @ the last_updated_time @ [CHR 0x27] @ '' ''
                      @ ''ORDER BY MetaData.LastUpdatedTime ASC''
               else ''SELECT * FROM Invoice ORDER BY MetaData.LastUpdatedTime ASC'')
      in query_generator api q ''Invoice'' DEFAULT_PAGE_SIZE)"

text \<open>
  The consumer \<open>for batch in generator\<close> that only collects: the batches handed out,
  the exception that ended the iteration if one did, and the world afterwards. The loop
  runs as long as the remote keeps answering with full pages, so it is bounded by
  \<open>fuel\<close>; \<open>None\<close> means the bound was reached before the generator ended.
\<close>

fun drain ::
  "nat \<Rightarrow> generator \<Rightarrow> world \<Rightarrow> (entity list list \<times> exn option \<times> world) option" where
  "drain 0 g w = None"
| "drain (Suc fuel) g w =
     (case next_batch g w of
        (StopIteration, g1, w1) \<Rightarrow> Some ([], None, w1)
      | (Raise e, g1, w1) \<Rightarrow> Some ([], Some e, w1)
      | (Yield batch, g1, w1) \<Rightarrow>
          (case drain fuel g1 w1 of
             None \<Rightarrow> None
           | Some (batches, e, w2) \<Rightarrow> Some (batch # batches, e, w2)))"

section \<open>The token manager (sdk/\_\_init\_\_.py)\<close>

definition API_BASE_SANDBOX :: string where
  "API_BASE_SANDBOX = ''https://sandbox-quickbooks.api.intuit.com/v3/company''"

definition API_BASE_PRODUCTION :: string where
  "API_BASE_PRODUCTION = ''https://quickbooks.api.intuit.com/v3/company''"

definition QBO_MINOR_VERSION :: string where
  "QBO_MINOR_VERSION = ''75''"

record QuickBooksOnlineSDK =
  sdk_refresh_token :: string
  sdk_access_token :: "string option"
  sdk_token_expires_at :: "datetime option"
  sdk_on_token_refresh :: "(string \<Rightarrow> string \<Rightarrow> datetime \<Rightarrow> world \<Rightarrow> exn + world) option"
  sdk_customers :: ApiBase
  sdk_invoices :: ApiBase

definition update_api_tokens :: "QuickBooksOnlineSDK \<Rightarrow> QuickBooksOnlineSDK" where
  "update_api_tokens sdk =
     sdk\<lparr>sdk_customers := set_access_token (sdk_access_token sdk) (sdk_customers sdk),
         sdk_invoices := set_access_token (sdk_access_token sdk) (sdk_invoices sdk)\<rparr>"

definition configure_api :: "string \<Rightarrow> string \<Rightarrow> ApiBase \<Rightarrow> ApiBase" where
  "configure_api base_url minor_version api =
     set_minor_version minor_version (set_server_url base_url api)"

definition QuickBooksOnlineSDK_init ::
  "string \<Rightarrow> string \<Rightarrow> string \<Rightarrow> string
     \<Rightarrow> (string \<Rightarrow> string \<Rightarrow> datetime \<Rightarrow> world \<Rightarrow> exn + world) option
     \<Rightarrow> string option \<Rightarrow> datetime option \<Rightarrow> QuickBooksOnlineSDK" where
  "QuickBooksOnlineSDK_init refresh_tok realm environment minor_version on_refresh
       access_tok expires_at =
     (let base_url = (if environment = ''production'' then API_BASE_PRODUCTION
                      else API_BASE_SANDBOX) @ ''/'' @ realm;
          sdk = \<lparr>sdk_refresh_token = refresh_tok, sdk_access_token = access_tok,
                 sdk_token_expires_at = expires_at, sdk_on_token_refresh = on_refresh,
                 sdk_customers = configure_api base_url minor_version ApiBase_init,
                 sdk_invoices = configure_api base_url minor_version ApiBase_init\<rparr>
      in if truthy access_tok then update_api_tokens sdk else sdk)"

subsection \<open>\_refresh\_tokens\<close>

text \<open>One call of \<open>requests.post\<close> to the token endpoint with the current refresh token.\<close>

definition requests_post :: "string \<Rightarrow> world \<Rightarrow> token_reply \<times> world" where
  "requests_post refresh_tok w =
     (token_endpoint w (length (token_requests w)) refresh_tok,
      w\<lparr>token_requests := token_requests w @ [refresh_tok]\<rparr>)"

text \<open>
  The part of \<open>_refresh_tokens\<close> after a response with status 200: the assignments are
  made in the source's order, so a body without \<open>refresh_token\<close> raises \<open>KeyError\<close> after
  the access token has been replaced.
\<close>

definition store_tokens ::
  "token_response \<Rightarrow> QuickBooksOnlineSDK \<Rightarrow> world
     \<Rightarrow> (exn + unit) \<times> QuickBooksOnlineSDK \<times> world" where
  "store_tokens response sdk w =
     (case tr_json response of
        None \<Rightarrow> (Inl (ValueError ''Expecting value''), sdk, w)
      | Some token_data \<Rightarrow>
          (case tj_access_token token_data of
             None \<Rightarrow> (Inl (KeyError ''access_token''), sdk, w)
           | Some access_tok \<Rightarrow>
               (let sdk1 = sdk\<lparr>sdk_access_token := Some access_tok\<rparr>
                in case tj_refresh_token token_data of
                     None \<Rightarrow> (Inl (KeyError ''refresh_token''), sdk1, w)
                   | Some refresh_tok \<Rightarrow>
                       (let sdk2 = sdk1\<lparr>sdk_refresh_token := refresh_tok\<rparr>;
                            expires_in = (case tj_expires_in token_data of
                                            None \<Rightarrow> 3600 | Some n \<Rightarrow> n);
                            (t, w1) = now w;
                            expires_at = t + timedelta_seconds expires_in;
                            sdk3 = update_api_tokens
                                     (sdk2\<lparr>sdk_token_expires_at := Some expires_at\<rparr>)
                        in case sdk_on_token_refresh sdk3 of
                             None \<Rightarrow> (Inr (), sdk3, w1)
                           | Some callback \<Rightarrow>
                               (case callback access_tok refresh_tok expires_at w1 of
                                  Inl e \<Rightarrow> (Inl e, sdk3, w1)
                                | Inr w2 \<Rightarrow> (Inr (), sdk3, w2))))))"

definition refresh_tokens ::
  "QuickBooksOnlineSDK \<Rightarrow> world \<Rightarrow> (exn + unit) \<times> QuickBooksOnlineSDK \<times> world" where
  "refresh_tokens sdk w =
     (case requests_post (sdk_refresh_token sdk) w of
        (TokenTransportError m, w1) \<Rightarrow> (Inl (RequestException m), sdk, w1)
      | (TokenResponse response, w1) \<Rightarrow>
          if tr_status_code response \<noteq> 200 then
            (case tr_json response of
               None \<Rightarrow>
                 (Inl (AuthenticationError (''Token refresh failed: '' @ tr_text response)),
                  sdk, w1)
             | Some error_data \<Rightarrow>
                 (let error = (case tj_error error_data of None \<Rightarrow> [] | Some e \<Rightarrow> e);
                      error_desc = (case tj_error_description error_data of
                                      None \<Rightarrow> tr_text response | Some d \<Rightarrow> d)
                  in if error = ''invalid_grant''
                     then (Inl (InvalidGrantError (''Refresh token invalid: '' @ error_desc)),
                           sdk, w1)
                     else (Inl (AuthenticationError
                                  (''Token refresh failed: '' @ tr_text response)),
                           sdk, w1)))
          else store_tokens response sdk w1)"

subsection \<open>ensure\_token\_valid\<close>

definition ensure_token_valid ::
  "QuickBooksOnlineSDK \<Rightarrow> world \<Rightarrow> (exn + unit) \<times> QuickBooksOnlineSDK \<times> world" where
  "ensure_token_valid sdk w =
     (if sdk_access_token sdk = None then refresh_tokens sdk w
      else case sdk_token_expires_at sdk of
             None \<Rightarrow> (Inr (), sdk, w)
           | Some expires_at \<Rightarrow>
               (let (t, w1) = now w
                in if t \<ge> expires_at - timedelta_minutes 5 then refresh_tokens sdk w1
                   else (Inr (), sdk, w1)))"

section \<open>The client factory (qbo\_client.py)\<close>

text \<open>
  The callback that \<open>create_client_for_account\<close> installs: it reads the account's row
  again by primary key and overwrites the three credential columns and the revoked flag.
\<close>

definition on_token_refresh ::
  "QBOAccount \<Rightarrow> string \<Rightarrow> string \<Rightarrow> datetime \<Rightarrow> world \<Rightarrow> exn + world" where
  "on_token_refresh acct access_tok refresh_tok expires_at w =
     (case filter (\<lambda>a. pk a = pk acct) (accounts w) of
        [] \<Rightarrow> Inl (DoesNotExist ''QBOAccount matching query does not exist.'')
      | [acc] \<Rightarrow>
          Inr (w\<lparr>accounts :=
                   map (\<lambda>a. if pk a = pk acct
                            then a\<lparr>access_token := Some access_tok,
                                   refresh_token := refresh_tok,
                                   access_token_expires_at := Some expires_at,
                                   is_token_expired := False\<rparr>
                            else a) (accounts w)\<rparr>)
      | _ \<Rightarrow> Inl (MultipleObjectsReturned ''get() returned more than one QBOAccount''))"

definition create_client_for_account :: "QBOAccount \<Rightarrow> world \<Rightarrow> QuickBooksOnlineSDK" where
  "create_client_for_account acct w =
     QuickBooksOnlineSDK_init (refresh_token acct) (realm_id acct) (QBO_ENVIRONMENT w)
       QBO_MINOR_VERSION (Some (on_token_refresh acct)) (access_token acct)
       (access_token_expires_at acct)"

section \<open>The sync engine (sync\_engine.py)\<close>

subsection \<open>\_parse\_last\_updated\_time\<close>

definition parse_last_updated_time ::
  "(string \<Rightarrow> datetime option) \<Rightarrow> string option \<Rightarrow> datetime option" where
  "parse_last_updated_time from_iso iso_string =
     (if \<not> truthy iso_string then None
      else let s = the iso_string
           in from_iso (if last s = CHR ''Z'' then butlast s @ ''+00:00'' else s))"

subsection \<open>The sync state store\<close>

text \<open>
  \<open>SyncState.objects.get_or_create(account=, object_type=, defaults={'status': PENDING})\<close>;
  the table is keyed by the pair that \<open>unique_together\<close> declares.
\<close>

definition get_or_create :: "nat \<Rightarrow> ObjectType \<Rightarrow> world \<Rightarrow> SyncState \<times> world" where
  "get_or_create acct ty w =
     (case sync_states w (acct, ty) of
        Some row \<Rightarrow> (row, w)
      | None \<Rightarrow>
          (let row = \<lparr>last_attempt_time = None,
                      last_successful_sync_time = None, status = PENDING, checkpoint = None,
                      error_message = None, consecutive_failures = 0\<rparr>
           in (row, w\<lparr>sync_states := (sync_states w)((acct, ty) \<mapsto> row)\<rparr>)))"

text \<open>
  \<open>self.save(update_fields=[...])\<close>: the listed columns of the object's row, found by
  the object's key, take the object's values. The row is there whenever the engine saves, since \<open>get_or_create\<close>
  has read or created it and nothing deletes sync states.
\<close>

definition save_fields ::
  "(SyncState \<Rightarrow> SyncState \<Rightarrow> SyncState) \<Rightarrow> nat \<times> ObjectType \<Rightarrow> SyncState \<Rightarrow> world
     \<Rightarrow> world" where
  "save_fields copy key obj w =
     (case sync_states w key of
        None \<Rightarrow> w
      | Some row \<Rightarrow> w\<lparr>sync_states := (sync_states w)(key \<mapsto> copy obj row)\<rparr>)"

definition started_fields :: "SyncState \<Rightarrow> SyncState \<Rightarrow> SyncState" where
  "started_fields obj row =
     row\<lparr>status := status obj, last_attempt_time := last_attempt_time obj,
         error_message := error_message obj\<rparr>"

definition success_fields :: "SyncState \<Rightarrow> SyncState \<Rightarrow> SyncState" where
  "success_fields obj row =
     row\<lparr>status := status obj, last_successful_sync_time := last_successful_sync_time obj,
         consecutive_failures := consecutive_failures obj,
         error_message := error_message obj, checkpoint := checkpoint obj\<rparr>"

definition failed_fields :: "SyncState \<Rightarrow> SyncState \<Rightarrow> SyncState" where
  "failed_fields obj row =
     row\<lparr>status := status obj, error_message := error_message obj,
         consecutive_failures := consecutive_failures obj\<rparr>"

definition call_mark_started ::
  "nat \<times> ObjectType \<Rightarrow> SyncState \<Rightarrow> world \<Rightarrow> SyncState \<times> world" where
  "call_mark_started key obj w =
     (let (t, w1) = now w; obj1 = mark_started t obj
      in (obj1, save_fields started_fields key obj1 w1))"

definition call_mark_success ::
  "nat \<times> ObjectType \<Rightarrow> string option \<Rightarrow> SyncState \<Rightarrow> world \<Rightarrow> SyncState \<times> world" where
  "call_mark_success key ckpt obj w =
     (let (t, w1) = now w; obj1 = mark_success t ckpt obj
      in (obj1, save_fields success_fields key obj1 w1))"

definition call_mark_failed ::
  "nat \<times> ObjectType \<Rightarrow> string \<Rightarrow> SyncState \<Rightarrow> world \<Rightarrow> SyncState \<times> world" where
  "call_mark_failed key msg obj w =
     (let obj1 = mark_failed msg obj in (obj1, save_fields failed_fields key obj1 w))"

subsection \<open>sync\_customers\<close>

text \<open>
  \<open>data.get('MetaData', {}).get('LastUpdatedTime')\<close>: none when either key is absent.
\<close>

definition last_updated_str :: "entity \<Rightarrow> string option" where
  "last_updated_str data = (case ent_MetaData data of None \<Rightarrow> None | Some metadata \<Rightarrow> metadata)"

text \<open>
  The inner loop \<open>for customer_data in customer_batch\<close>, on the customers table, with the
  running \<open>(total_processed, max_checkpoint)\<close>.
\<close>

fun customer_records ::
  "QBOAccount \<Rightarrow> (string \<Rightarrow> datetime option) \<Rightarrow> entity list \<Rightarrow> nat \<times> string option
     \<Rightarrow> Customer list \<Rightarrow> exn + (nat \<times> string option) \<times> Customer list" where
  "customer_records acct from_iso [] (total_processed, max_checkpoint) rows =
     Inr ((total_processed, max_checkpoint), rows)"
| "customer_records acct from_iso (customer_data # rest) (total_processed, max_checkpoint) rows =
     (let qbo_id = ent_Id customer_data;
          sync_token = ent_SyncToken customer_data;
          last_updated = parse_last_updated_time from_iso (last_updated_str customer_data);
          max_checkpoint1 = update_checkpoint max_checkpoint (last_updated_str customer_data)
      in case Customer_upsert acct qbo_id customer_data sync_token last_updated rows of
           Inl e \<Rightarrow> Inl e
         | Inr rows1 \<Rightarrow>
             customer_records acct from_iso rest (total_processed + 1, max_checkpoint1) rows1)"

text \<open>
  One batch inside \<open>transaction.atomic()\<close>: an exception rolls the table back to what it
  was when the batch began.
\<close>

definition customer_batch ::
  "QBOAccount \<Rightarrow> entity list \<Rightarrow> nat \<times> string option \<Rightarrow> world
     \<Rightarrow> (exn + nat \<times> string option) \<times> world" where
  "customer_batch acct batch acc w =
     (case customer_records acct (fromisoformat w) batch acc (customers w) of
        Inl e \<Rightarrow> (Inl e, w)
      | Inr (acc1, rows1) \<Rightarrow> (Inr acc1, w\<lparr>customers := rows1\<rparr>))"

text \<open>
  The outer loop \<open>for customer_batch in client.customers.get_all_generator(...)\<close>. It
  runs as long as the generator yields, so it is bounded by \<open>fuel\<close>; \<open>None\<close> means the
  bound was reached.
\<close>

fun customer_batches ::
  "nat \<Rightarrow> QBOAccount \<Rightarrow> generator \<Rightarrow> nat \<times> string option \<Rightarrow> world
     \<Rightarrow> ((exn + nat \<times> string option) \<times> world) option" where
  "customer_batches 0 acct g acc w = None"
| "customer_batches (Suc fuel) acct g acc w =
     (case next_batch g w of
        (StopIteration, g1, w1) \<Rightarrow> Some (Inr acc, w1)
      | (Raise e, g1, w1) \<Rightarrow> Some (Inl e, w1)
      | (Yield batch, g1, w1) \<Rightarrow>
          (case customer_batch acct batch acc w1 of
             (Inl e, w2) \<Rightarrow> Some (Inl e, w2)
           | (Inr acc1, w2) \<Rightarrow> customer_batches fuel acct g1 acc1 w2))"

definition sync_customers ::
  "nat \<Rightarrow> QBOAccount \<Rightarrow> QuickBooksOnlineSDK \<Rightarrow> world
     \<Rightarrow> ((exn + nat \<times> string option) \<times> QuickBooksOnlineSDK \<times> world) option" where
  "sync_customers fuel acct client w =
     (case ensure_token_valid client w of
        (Inl e, client1, w1) \<Rightarrow> Some (Inl e, client1, w1)
      | (Inr u, client1, w1) \<Rightarrow>
          (let (sync_state, w2) = get_or_create (pk acct) CUSTOMER w1;
               last_sync_time = checkpoint sync_state;
               (sync_state1, w3) = call_mark_started (pk acct, CUSTOMER) sync_state w2
           in case customer_batches fuel acct
                     (Customers_get_all_generator (sdk_customers client1) last_sync_time)
                     (0, last_sync_time) w3 of
                None \<Rightarrow> None
              | Some (Inr (total_processed, max_checkpoint), w4) \<Rightarrow>
                  Some (Inr (total_processed, max_checkpoint), client1,
                        snd (call_mark_success (pk acct, CUSTOMER) max_checkpoint sync_state1 w4))
              | Some (Inl e, w4) \<Rightarrow>
                  Some (Inl e, client1, snd (call_mark_failed (pk acct, CUSTOMER) (str e) sync_state1 w4))))"

subsection \<open>sync\_invoices\<close>

fun invoice_records ::
  "QBOAccount \<Rightarrow> (string \<Rightarrow> datetime option) \<Rightarrow> entity list \<Rightarrow> nat \<times> string option
     \<Rightarrow> Invoice list \<Rightarrow> exn + (nat \<times> string option) \<times> Invoice list" where
  "invoice_records acct from_iso [] (total_processed, max_checkpoint) rows =
     Inr ((total_processed, max_checkpoint), rows)"
| "invoice_records acct from_iso (invoice_data # rest) (total_processed, max_checkpoint) rows =
     (let qbo_id = ent_Id invoice_data;
          sync_token = ent_SyncToken invoice_data;
          customer_ref = (case ent_CustomerRef invoice_data of
                            None \<Rightarrow> None | Some ref \<Rightarrow> ref);
          last_updated = parse_last_updated_time from_iso (last_updated_str invoice_data);
          max_checkpoint1 = update_checkpoint max_checkpoint (last_updated_str invoice_data)
      in case Invoice_upsert acct qbo_id invoice_data customer_ref sync_token last_updated
                rows of
           Inl e \<Rightarrow> Inl e
         | Inr rows1 \<Rightarrow>
             invoice_records acct from_iso rest (total_processed + 1, max_checkpoint1) rows1)"

definition invoice_batch ::
  "QBOAccount \<Rightarrow> entity list \<Rightarrow> nat \<times> string option \<Rightarrow> world
     \<Rightarrow> (exn + nat \<times> string option) \<times> world" where
  "invoice_batch acct batch acc w =
     (case invoice_records acct (fromisoformat w) batch acc (invoices w) of
        Inl e \<Rightarrow> (Inl e, w)
      | Inr (acc1, rows1) \<Rightarrow> (Inr acc1, w\<lparr>invoices := rows1\<rparr>))"

fun invoice_batches ::
  "nat \<Rightarrow> QBOAccount \<Rightarrow> generator \<Rightarrow> nat \<times> string option \<Rightarrow> world
     \<Rightarrow> ((exn + nat \<times> string option) \<times> world) option" where
  "invoice_batches 0 acct g acc w = None"
| "invoice_batches (Suc fuel) acct g acc w =
     (case next_batch g w of
        (StopIteration, g1, w1) \<Rightarrow> Some (Inr acc, w1)
      | (Raise e, g1, w1) \<Rightarrow> Some (Inl e, w1)
      | (Yield batch, g1, w1) \<Rightarrow>
          (case invoice_batch acct batch acc w1 of
             (Inl e, w2) \<Rightarrow> Some (Inl e, w2)
           | (Inr acc1, w2) \<Rightarrow> invoice_batches fuel acct g1 acc1 w2))"

definition sync_invoices ::
  "nat \<Rightarrow> QBOAccount \<Rightarrow> QuickBooksOnlineSDK \<Rightarrow> world
     \<Rightarrow> ((exn + nat \<times> string option) \<times> QuickBooksOnlineSDK \<times> world) option" where
  "sync_invoices fuel acct client w =
     (case ensure_token_valid client w of
        (Inl e, client1, w1) \<Rightarrow> Some (Inl e, client1, w1)
      | (Inr u, client1, w1) \<Rightarrow>
          (let (sync_state, w2) = get_or_create (pk acct) INVOICE w1;
               last_sync_time = checkpoint sync_state;
               (sync_state1, w3) = call_mark_started (pk acct, INVOICE) sync_state w2
           in case invoice_batches fuel acct
                     (Invoices_get_all_generator (sdk_invoices client1) last_sync_time)
                     (0, last_sync_time) w3 of
                None \<Rightarrow> None
              | Some (Inr (total_processed, max_checkpoint), w4) \<Rightarrow>
                  Some (Inr (total_processed, max_checkpoint), client1,
                        snd (call_mark_success (pk acct, INVOICE) max_checkpoint sync_state1 w4))
              | Some (Inl e, w4) \<Rightarrow>
                  Some (Inl e, client1, snd (call_mark_failed (pk acct, INVOICE) (str e) sync_state1 w4))))"

subsection \<open>\_sync\_object\_type\<close>

text \<open>
  The dictionaries that report an outcome. A key that a dictionary does not have is
  \<open>None\<close> at the outer option; the value Python's \<open>None\<close> is \<open>Some None\<close>.
\<close>

record type_result =
  res_status :: string
  res_count :: "nat option"
  res_checkpoint :: "string option option"
  res_error :: "string option option"

record account_result =
  acc_realm_id :: string
  acc_success :: bool
  acc_error :: "string option"
  acc_types :: "(string \<times> type_result) list"

record config =
  cfg_name :: string
  cfg_method :: string

definition SYNC_CONFIG :: "config list" where
  "SYNC_CONFIG =
     [\<lparr>cfg_name = ''customers'', cfg_method = ''sync_customers''\<rparr>,
      \<lparr>cfg_name = ''invoices'', cfg_method = ''sync_invoices''\<rparr>]"

text \<open>\<open>getattr(self, config['method'])\<close> for the two method names of \<open>SYNC_CONFIG\<close>.\<close>

definition getattr_method ::
  "string \<Rightarrow> nat \<Rightarrow> QBOAccount \<Rightarrow> QuickBooksOnlineSDK \<Rightarrow> world
     \<Rightarrow> ((exn + nat \<times> string option) \<times> QuickBooksOnlineSDK \<times> world) option" where
  "getattr_method name =
     (if name = ''sync_customers'' then sync_customers else sync_invoices)"

text \<open>\<open>account.save(update_fields=['is_token_expired', 'updated_at'])\<close> with the flag set.\<close>

definition save_is_token_expired :: "QBOAccount \<Rightarrow> world \<Rightarrow> world" where
  "save_is_token_expired acct w =
     w\<lparr>accounts := map (\<lambda>a. if pk a = pk acct then a\<lparr>is_token_expired := True\<rparr> else a)
                       (accounts w)\<rparr>"

definition sync_object_type ::
  "nat \<Rightarrow> QBOAccount \<Rightarrow> QuickBooksOnlineSDK \<Rightarrow> config \<Rightarrow> world
     \<Rightarrow> ((exn + type_result) \<times> QuickBooksOnlineSDK \<times> world) option" where
  "sync_object_type fuel acct client cfg w =
     (case getattr_method (cfg_method cfg) fuel acct client w of
        None \<Rightarrow> None
      | Some (Inr (count, ckpt), client1, w1) \<Rightarrow>
          Some (Inr \<lparr>res_status = ''success'', res_count = Some count,
                     res_checkpoint = Some ckpt, res_error = Some None\<rparr>, client1, w1)
      | Some (Inl (InvalidGrantError m), client1, w1) \<Rightarrow>
          Some (Inl (RevokedRefreshTokenError ''Refresh token is invalid or revoked''),
                client1, save_is_token_expired acct w1)
      | Some (Inl e, client1, w1) \<Rightarrow>
          Some (Inr \<lparr>res_status = ''failed'', res_count = Some 0,
                     res_checkpoint = None, res_error = Some (Some (str e))\<rparr>, client1, w1))"

subsection \<open>sync\_account\<close>

text \<open>The loop \<open>for config in self.SYNC_CONFIG\<close> that fills \<open>results\<close>.\<close>

fun sync_configs ::
  "nat \<Rightarrow> QBOAccount \<Rightarrow> QuickBooksOnlineSDK \<Rightarrow> config list \<Rightarrow> (string \<times> type_result) list
     \<Rightarrow> world \<Rightarrow> ((exn + (string \<times> type_result) list) \<times> world) option" where
  "sync_configs fuel acct client [] results w = Some (Inr results, w)"
| "sync_configs fuel acct client (cfg # rest) results w =
     (case sync_object_type fuel acct client cfg w of
        None \<Rightarrow> None
      | Some (Inl e, client1, w1) \<Rightarrow> Some (Inl e, w1)
      | Some (Inr r, client1, w1) \<Rightarrow>
          sync_configs fuel acct client1 rest (AList.update (cfg_name cfg) r results) w1)"

definition pending_result :: type_result where
  "pending_result =
     \<lparr>res_status = ''pending'', res_count = Some 0, res_checkpoint = None,
      res_error = Some None\<rparr>"

text \<open>
  The handlers that close \<open>sync_account\<close>: the two account-level errors pass, anything
  else becomes a \<open>SyncError\<close>.
\<close>

fun reraise :: "exn \<Rightarrow> exn" where
  "reraise (AccountNotFoundError m) = AccountNotFoundError m"
| "reraise (RevokedRefreshTokenError m) = RevokedRefreshTokenError m"
| "reraise e = SyncError (''Sync failed: '' @ str e)"

text \<open>
  \<open>realm_id\<close> is declared unique, so \<open>filter(realm_id=realm_id).first()\<close> is the one row
  with that realm if there is one. The client factory sends nothing and raises nothing,
  so the handler for \<open>InvalidGrantError\<close> around it has no case here.
\<close>

definition sync_account ::
  "nat \<Rightarrow> string \<Rightarrow> world \<Rightarrow> ((exn + account_result) \<times> world) option" where
  "sync_account fuel realm w =
     (let results = map (\<lambda>cfg. (cfg_name cfg, pending_result)) SYNC_CONFIG
      in case find (\<lambda>a. realm_id a = realm) (accounts w) of
           None \<Rightarrow>
             Some (Inl (reraise (AccountNotFoundError
                                   (''Account with realm_id='' @ realm @ '' not found''))), w)
         | Some acct \<Rightarrow>
             if is_token_expired acct
             then Some (Inl (reraise (RevokedRefreshTokenError
                                        ''Token has been marked as expired'')), w)
             else (case sync_configs fuel acct (create_client_for_account acct w)
                          SYNC_CONFIG results w of
                     None \<Rightarrow> None
                   | Some (Inl e, w1) \<Rightarrow> Some (Inl (reraise e), w1)
                   | Some (Inr results1, w1) \<Rightarrow>
                       Some (Inr \<lparr>acc_realm_id = realm,
                                  acc_success =
                                    list_all (\<lambda>cfg. map_option res_status
                                                       (map_of results1 (cfg_name cfg))
                                                     = Some ''success'') SYNC_CONFIG,
                                  acc_error = None, acc_types = results1\<rparr>, w1)))"

subsection \<open>sync\_all\_accounts\<close>

definition skipped_result :: "string \<Rightarrow> account_result" where
  "skipped_result realm =
     \<lparr>acc_realm_id = realm, acc_success = False,
      acc_error = Some ''Re-authorization required'',
      acc_types =
        [(''customers'', \<lparr>res_status = ''skipped'', res_count = None,
                           res_checkpoint = None, res_error = None\<rparr>),
         (''invoices'', \<lparr>res_status = ''skipped'', res_count = None,
                          res_checkpoint = None, res_error = None\<rparr>)]\<rparr>"

definition failed_result :: "string \<Rightarrow> string \<Rightarrow> account_result" where
  "failed_result realm msg =
     \<lparr>acc_realm_id = realm, acc_success = False, acc_error = Some msg,
      acc_types =
        [(''customers'', \<lparr>res_status = ''failed'', res_count = None,
                           res_checkpoint = None, res_error = None\<rparr>),
         (''invoices'', \<lparr>res_status = ''failed'', res_count = None,
                          res_checkpoint = None, res_error = None\<rparr>)]\<rparr>"

text \<open>
  The loop \<open>for account in accounts\<close> over the rows that the query returned, with its
  two handlers in the source's order.
\<close>

fun sync_each ::
  "nat \<Rightarrow> QBOAccount list \<Rightarrow> account_result list \<Rightarrow> world
     \<Rightarrow> (account_result list \<times> world) option" where
  "sync_each fuel [] results w = Some (results, w)"
| "sync_each fuel (acct # rest) results w =
     (case sync_account fuel (realm_id acct) w of
        None \<Rightarrow> None
      | Some (Inr result, w1) \<Rightarrow> sync_each fuel rest (results @ [result]) w1
      | Some (Inl (RevokedRefreshTokenError m), w1) \<Rightarrow>
          sync_each fuel rest (results @ [skipped_result (realm_id acct)]) w1
      | Some (Inl e, w1) \<Rightarrow>
          sync_each fuel rest (results @ [failed_result (realm_id acct) (str e)]) w1)"

definition sync_all_accounts ::
  "nat \<Rightarrow> world \<Rightarrow> ((exn + account_result list) \<times> world) option" where
  "sync_all_accounts fuel w =
     (case sync_each fuel (get_active_accounts (accounts w)) [] w of
        None \<Rightarrow> None
      | Some (results, w1) \<Rightarrow> Some (Inr results, w1))"

section \<open>Sequences of sync cycles\<close>

text \<open>
  What starts a cycle: the control surface (views.py) calls \<open>sync_account\<close> when a realm
  is given and \<open>sync_all_accounts\<close> otherwise, and the run loop (qbo\_run\_sync.py) calls
  \<open>sync_all_accounts\<close> once per cycle.
\<close>

datatype trigger = SyncAccount string | SyncAll

definition cycle :: "nat \<Rightarrow> trigger \<Rightarrow> world \<Rightarrow> world option" where
  "cycle fuel t w =
     (case t of
        SyncAccount realm \<Rightarrow> map_option snd (sync_account fuel realm w)
      | SyncAll \<Rightarrow> map_option snd (sync_all_accounts fuel w))"

fun cycles :: "nat \<Rightarrow> trigger list \<Rightarrow> world \<Rightarrow> world option" where
  "cycles fuel [] w = Some w"
| "cycles fuel (t # ts) w =
     (case cycle fuel t w of None \<Rightarrow> None | Some w1 \<Rightarrow> cycles fuel ts w1)"

text \<open>The stored watermark of an (account, object type) pair; none while there is no row.\<close>

definition watermark :: "world \<Rightarrow> nat \<times> ObjectType \<Rightarrow> string option" where
  "watermark w key = (case sync_states w key of None \<Rightarrow> None | Some row \<Rightarrow> checkpoint row)"

text \<open>The primary key and the realm of every account row, in the order of the table.\<close>

definition account_keys :: "world \<Rightarrow> (nat \<times> string) list" where
  "account_keys w = map (\<lambda>a. (pk a, realm_id a)) (accounts w)"

section \<open>When the remote stops serving full pages\<close>

text \<open>
  A reply that makes \<open>_query_generator\<close> ask for another page: a response 200 with at
  least a page size of customers or of invoices. \<open>pages_end_by n\<close> says that from the
  \<open>n\<close>-th request on the remote serves no such reply. It is the assumption under which
  the pagination loops are shown to end; the remote of the code has no such obligation.
\<close>

definition full_page :: "http_reply \<Rightarrow> bool" where
  "full_page reply =
     (case reply of
        TransportError m \<Rightarrow> False
      | HttpResponse response \<Rightarrow>
          status_code response = 200
          \<and> (DEFAULT_PAGE_SIZE \<le> length (response_entities ''Customer'' (QueryResponse response))
               \<or> DEFAULT_PAGE_SIZE
                    \<le> length (response_entities ''Invoice'' (QueryResponse response))))"

definition pages_end_by :: "nat \<Rightarrow> world \<Rightarrow> bool" where
  "pages_end_by n w = (\<forall>k\<ge>n. \<forall>req. \<not> full_page (api_endpoint w k req))"

text \<open>
  The bound that suffices for a loop over a generator: more than the requests that may
  still be answered with a full page, plus one; or any positive bound once the generator
  has handed out a short page.
\<close>

definition fuel_suffices :: "nat \<Rightarrow> nat \<Rightarrow> generator \<Rightarrow> world \<Rightarrow> bool" where
  "fuel_suffices n fuel g w =
     (n - length (api_requests w) + 1 < fuel
      \<or> (0 < fuel
          \<and> (case gen_state g of Yielded sp m \<Rightarrow> m < gen_page_size g | _ \<Rightarrow> False)))"

section \<open>A scenario\<close>

text \<open>
  A small world for evaluating the definitions: four accounts, of which the first holds
  a valid access token and is served one short page of customers and of invoices, the
  second holds no access token and a refresh token that the identity provider rejects
  with \<open>invalid_grant\<close>, the third is flagged revoked, and the fourth is answered
  404 by the API. The ISO parser is given by its values on the timestamps that occur.
\<close>

definition customer_1 :: entity where
  "customer_1 = \<lparr>ent_Id = Some ''1'', ent_SyncToken = Some ''0'',
     ent_MetaData = Some (Some ''2024-01-02T00:00:00Z''), ent_CustomerRef = None,
     ent_rest = ''Amy''\<rparr>"

definition customer_2 :: entity where
  "customer_2 = \<lparr>ent_Id = Some ''2'', ent_SyncToken = Some ''3'',
     ent_MetaData = Some (Some ''2024-01-05T10:30:00Z''), ent_CustomerRef = None,
     ent_rest = ''Bob''\<rparr>"

definition invoice_1 :: entity where
  "invoice_1 = \<lparr>ent_Id = Some ''130'', ent_SyncToken = Some ''1'',
     ent_MetaData = Some (Some ''2024-01-03T08:00:00Z''), ent_CustomerRef = Some (Some ''1''),
     ent_rest = ''INV-130''\<rparr>"

definition customer_3 :: entity where
  "customer_3 = \<lparr>ent_Id = Some ''9'', ent_SyncToken = Some ''0'',
     ent_MetaData = Some (Some ''not-a-date''), ent_CustomerRef = None,
     ent_rest = ''Zed''\<rparr>"

definition customer_4 :: entity where
  "customer_4 = \<lparr>ent_Id = Some ''10'', ent_SyncToken = None,
     ent_MetaData = None, ent_CustomerRef = None, ent_rest = ''Yan''\<rparr>"

definition demo_accounts :: "QBOAccount list" where
  "demo_accounts =
     [\<lparr>pk = 1, realm_id = ''r1'', company_name = None, access_token = Some ''tok1'',
       refresh_token = ''rt1'', access_token_expires_at = None, is_token_expired = False\<rparr>,
      \<lparr>pk = 2, realm_id = ''r2'', company_name = None, access_token = None,
       refresh_token = ''bad'', access_token_expires_at = None, is_token_expired = False\<rparr>,
      \<lparr>pk = 3, realm_id = ''r3'', company_name = None, access_token = Some ''tok3'',
       refresh_token = ''rt3'', access_token_expires_at = None, is_token_expired = True\<rparr>,
      \<lparr>pk = 4, realm_id = ''r4'', company_name = None, access_token = Some ''tok4'',
       refresh_token = ''rt4'', access_token_expires_at = None, is_token_expired = False\<rparr>]"

definition demo_api :: "nat \<Rightarrow> request \<Rightarrow> http_reply" where
  "demo_api n req =
     (if map_of (snd req) ''Authorization'' = Some ''Bearer tok1''
      then HttpResponse \<lparr>status_code = 200, error_detail = [],
             QueryResponse = Some [(''Customer'', [customer_1, customer_2]),
                                   (''Invoice'', [invoice_1])]\<rparr>
      else HttpResponse \<lparr>status_code = 404, error_detail = ''no such company'',
             QueryResponse = None\<rparr>)"

definition demo_idp :: "nat \<Rightarrow> string \<Rightarrow> token_reply" where
  "demo_idp n refresh_tok =
     (if refresh_tok = ''bad''
      then TokenResponse \<lparr>tr_status_code = 400,
             tr_json = Some \<lparr>tj_error = Some ''invalid_grant'',
                              tj_error_description = Some ''Token revoked'',
                              tj_access_token = None, tj_refresh_token = None,
                              tj_expires_in = None\<rparr>,
             tr_text = ''invalid_grant''\<rparr>
      else TokenResponse \<lparr>tr_status_code = 200,
             tr_json = Some \<lparr>tj_error = None, tj_error_description = None,
                              tj_access_token = Some ''tok-new'',
                              tj_refresh_token = Some ''rt-new'',
                              tj_expires_in = Some 3600\<rparr>,
             tr_text = []\<rparr>)"

definition demo_world :: world where
  "demo_world =
     \<lparr>accounts = demo_accounts, sync_states = Map.empty, customers = [], invoices = [],
      clock = (\<lambda>n. 1704200000000000 + int n * 1000000), clock_reads = 0,
      token_endpoint = demo_idp, token_requests = [],
      api_endpoint = demo_api, api_requests = [], sleeps = [],
      fromisoformat = map_of [(''2024-01-02T00:00:00+00:00'', 1704153600000000),
                              (''2024-01-05T10:30:00+00:00'', 1704450600000000),
                              (''2024-01-03T08:00:00+00:00'', 1704268800000000)],
      QBO_ENVIRONMENT = ''sandbox''\<rparr>"

section \<open>The refresh condition of the specification\<close>

text \<open>
  Section 4.2 of the specification, in its words: a refresh is due when no access token
  is held, or when the expiry instant is known and is within the safety margin of five
  minutes of now, or already passed.
\<close>

definition refresh_due :: "string option \<Rightarrow> datetime option \<Rightarrow> datetime \<Rightarrow> bool" where
  "refresh_due held_token expiry t =
     (held_token = None
      \<or> (case expiry of None \<Rightarrow> False | Some e \<Rightarrow> e - timedelta_minutes 5 \<le> t))"

definition invalid_grant :: "token_response \<Rightarrow> bool" where
  "invalid_grant response =
     (case tr_json response of
        None \<Rightarrow> False
      | Some error_data \<Rightarrow> tj_error error_data = Some ''invalid_grant'')"

section \<open>The error taxonomy and the backoff of the specification\<close>

text \<open>
  Section 4.1 of the specification, in its words: the kinds of outcome of one HTTP call.
  A server error is a status 5xx; HTTP has no status above 599, and the test is written
  as the lower bound.
\<close>

datatype outcome =
    Success
  | AuthenticationFailure
  | NotFound
  | Validation
  | RateLimited
  | ServerFailure
  | NetworkError
  | Unclassified

definition outcome_of :: "http_reply \<Rightarrow> outcome" where
  "outcome_of reply =
     (case reply of
        TransportError m \<Rightarrow> NetworkError
      | HttpResponse response \<Rightarrow>
          (let s = status_code response
           in if s = 200 then Success
              else if s = 401 \<or> s = 403 then AuthenticationFailure
              else if s = 404 then NotFound
              else if s = 400 then Validation
              else if s = 429 then RateLimited
              else if 500 \<le> s then ServerFailure
              else Unclassified))"

definition retryable :: "outcome \<Rightarrow> bool" where
  "retryable kind = (kind = RateLimited \<or> kind = ServerFailure \<or> kind = NetworkError)"

text \<open>
  Section 4.4: the delays slept after an attempt (counted from zero) of the given kind,
  with the base delay and the retry ceiling: base times two to the attempt on a rate
  limit; base times the attempt number, counted from one, on a server or network
  error, as long as another attempt follows; nothing otherwise.
\<close>

definition backoff :: "rat \<Rightarrow> nat \<Rightarrow> nat \<Rightarrow> outcome \<Rightarrow> rat list" where
  "backoff base limit attempt kind =
     (if kind = RateLimited then [base * 2 ^ attempt]
      else if (kind = ServerFailure \<or> kind = NetworkError) \<and> attempt + 1 < limit
        then [base * (of_nat attempt + 1)]
      else [])"

text \<open>
  What \<open>_request_with_retry\<close> keeps in \<open>last_exception\<close> for a reply that it retries, and
  what it returns or raises for a reply that ends the call.
\<close>

definition last_seen :: "http_reply \<Rightarrow> exn" where
  "last_seen reply =
     (case reply of
        TransportError m \<Rightarrow> QBOSDKError (''Network error: '' @ m)
      | HttpResponse response \<Rightarrow>
          (if status_code response = 429
           then RateLimitError ''Rate limit exceeded after retries''
           else (case handle_response response of
                   Inl e \<Rightarrow> e
                 | Inr body \<Rightarrow> QBOSDKError ''Request failed after retries'')))"

definition final_result :: "http_reply \<Rightarrow> exn + (string \<times> entity list) list option" where
  "final_result reply =
     (case reply of
        TransportError m \<Rightarrow> Inl (QBOSDKError (''Network error: '' @ m))
      | HttpResponse response \<Rightarrow> handle_response response)"

definition synced_row :: SyncState where
  "synced_row =
     \<lparr>last_attempt_time = Some 1704100000000000,
      last_successful_sync_time = Some 1704100000000000, status = SUCCESS,
      checkpoint = Some ''2023-12-31T00:00:00Z'', error_message = None,
      consecutive_failures = 0\<rparr>"

definition status_reply :: "int \<Rightarrow> http_reply" where
  "status_reply code =
     HttpResponse \<lparr>status_code = code, error_detail = ''detail'', QueryResponse = None\<rparr>"

definition answering :: "(nat \<Rightarrow> http_reply) \<Rightarrow> world" where
  "answering replies = demo_world\<lparr>api_endpoint := (\<lambda>n req. replies n)\<rparr>"

text \<open>
  The scenario after earlier cycles: the first account's customers have been synced up to
  a watermark that lies between the two customers the remote serves, and the fourth
  account's invoices up to the watermark of \<open>synced_row\<close>.
\<close>

definition resumed_world :: world where
  "resumed_world =
     demo_world\<lparr>sync_states :=
       [(1, CUSTOMER) \<mapsto> synced_row\<lparr>checkpoint := Some ''2024-01-03T00:00:00Z''\<rparr>,
        (4, INVOICE) \<mapsto> synced_row]\<rparr>"

section \<open>Properties\<close>

subsection \<open>The checkpoint comparison\<close>

lemma Nil_less_string: "s \<noteq> [] \<Longrightarrow> [] < (s :: string)"
  by (cases s) simp_all

lemma update_checkpoint_cases:
  "update_checkpoint current new_value = current
   \<or> (update_checkpoint current new_value = new_value \<and> truthy new_value \<and> current < new_value)"
  by (cases current; cases new_value) (auto simp: update_checkpoint_def less_option_def Nil_less_string)

lemma update_checkpoint_ge: "current \<le> update_checkpoint current new_value"
  using update_checkpoint_cases [of current new_value] by (auto simp: less_le)

subsection \<open>What the network operations leave alone\<close>

lemma request_attempts_frame:
  "request_attempts api url atts le w = (r, w1)
   \<Longrightarrow> w1\<lparr>api_requests := a, sleeps := s\<rparr> = w\<lparr>api_requests := a, sleeps := s\<rparr>"
proof (induction atts arbitrary: le w)
  case Nil
  then show ?case by (auto split: option.splits)
next
  case (Cons attempt rest)
  show ?case
  proof (cases "get_headers api")
    case (Inl e)
    with Cons.prems show ?thesis by auto
  next
    case (Inr headers)
    obtain reply w0 where rr: "requests_request (url, headers) w = (reply, w0)"
      by (cases "requests_request (url, headers) w")
    then have w0: "w0 = w\<lparr>api_requests := api_requests w @ [(url, headers)]\<rparr>"
      by (auto simp: requests_request_def)
    show ?thesis
    proof (cases reply)
      case (TransportError m)
      with Cons.prems Inr rr have
        "request_attempts api url rest (Some (QBOSDKError (''Network error: '' @ m)))
           (if int attempt < int (api_max_retries api) - 1
            then sleep (api_retry_delay api * (of_nat attempt + 1)) w0 else w0) = (r, w1)"
        by simp
      from Cons.IH [OF this] show ?thesis
        by (simp add: w0 sleep_def split: if_splits)
    next
      case (HttpResponse response)
      show ?thesis
      proof (cases "handle_response response")
        case (Inr body)
        with Cons.prems \<open>get_headers api = Inr headers\<close> rr HttpResponse show ?thesis
          by (auto simp: w0)
      next
        case (Inl e)
        show ?thesis
        proof (cases e)
          case (RateLimitError m)
          with Cons.prems \<open>get_headers api = Inr headers\<close> rr HttpResponse Inl have
            "request_attempts api url rest (Some (RateLimitError ''Rate limit exceeded after retries''))
               (sleep (api_retry_delay api * 2 ^ attempt) w0) = (r, w1)"
            by simp
          from Cons.IH [OF this] show ?thesis by (simp add: w0 sleep_def)
        next
          case (ServerError m)
          with Cons.prems \<open>get_headers api = Inr headers\<close> rr HttpResponse Inl have
            "request_attempts api url rest (Some (ServerError m))
               (if int attempt < int (api_max_retries api) - 1
                then sleep (api_retry_delay api * (of_nat attempt + 1)) w0 else w0) = (r, w1)"
            by simp
          from Cons.IH [OF this] show ?thesis by (simp add: w0 sleep_def split: if_splits)
        qed (use Cons.prems \<open>get_headers api = Inr headers\<close> rr HttpResponse Inl in \<open>auto simp: w0\<close>)
      qed
    qed
  qed
qed

lemma query_frame:
  "query api q w = (r, w1)
   \<Longrightarrow> w1\<lparr>api_requests := a, sleeps := s\<rparr> = w\<lparr>api_requests := a, sleeps := s\<rparr>"
  by (auto simp: query_def request_with_retry_def split: sum.splits dest: request_attempts_frame)

lemma loop_turn_frame:
  "loop_turn g sp w = (ev, g1, w1)
   \<Longrightarrow> w1\<lparr>api_requests := a, sleeps := s\<rparr> = w\<lparr>api_requests := a, sleeps := s\<rparr>"
  by (auto simp: loop_turn_def Let_def split: prod.splits sum.splits if_splits dest: query_frame)

lemma next_batch_frame:
  "next_batch g w = (ev, g1, w1)
   \<Longrightarrow> w1\<lparr>api_requests := a, sleeps := s\<rparr> = w\<lparr>api_requests := a, sleeps := s\<rparr>"
  by (auto simp: next_batch_def split: gen_state.splits if_splits dest: loop_turn_frame)

subsection \<open>What a batch of records changes\<close>

lemma customer_records_acc:
  "customer_records acct f batch (n, c) rows = Inr ((n1, c1), rows1)
   \<Longrightarrow> c \<le> c1 \<and> n1 = n + length batch"
proof (induction batch arbitrary: n c rows)
  case Nil
  then show ?case by simp
next
  case (Cons x xs)
  from Cons.prems obtain rows0 where
    "customer_records acct f xs (n + 1, update_checkpoint c (last_updated_str x)) rows0
       = Inr ((n1, c1), rows1)"
    by (auto simp: Let_def split: sum.splits)
  from Cons.IH [OF this] show ?case
    using update_checkpoint_ge order_trans by fastforce
qed

lemma invoice_records_acc:
  "invoice_records acct f batch (n, c) rows = Inr ((n1, c1), rows1)
   \<Longrightarrow> c \<le> c1 \<and> n1 = n + length batch"
proof (induction batch arbitrary: n c rows)
  case Nil
  then show ?case by simp
next
  case (Cons x xs)
  from Cons.prems obtain rows0 where
    "invoice_records acct f xs (n + 1, update_checkpoint c (last_updated_str x)) rows0
       = Inr ((n1, c1), rows1)"
    by (auto simp: Let_def split: sum.splits)
  from Cons.IH [OF this] show ?case
    using update_checkpoint_ge order_trans by fastforce
qed

lemma customer_batch_frame:
  "customer_batch acct batch acc w = (r, w1) \<Longrightarrow> w1\<lparr>customers := c\<rparr> = w\<lparr>customers := c\<rparr>"
  by (auto simp: customer_batch_def split: sum.splits)

lemma invoice_batch_frame:
  "invoice_batch acct batch acc w = (r, w1) \<Longrightarrow> w1\<lparr>invoices := c\<rparr> = w\<lparr>invoices := c\<rparr>"
  by (auto simp: invoice_batch_def split: sum.splits)

lemma customer_batch_acc:
  "customer_batch acct batch acc w = (Inr acc1, w1) \<Longrightarrow> snd acc \<le> snd acc1"
  by (cases acc; cases acc1) (auto simp: customer_batch_def split: sum.splits dest: customer_records_acc)

lemma invoice_batch_acc:
  "invoice_batch acct batch acc w = (Inr acc1, w1) \<Longrightarrow> snd acc \<le> snd acc1"
  by (cases acc; cases acc1) (auto simp: invoice_batch_def split: sum.splits dest: invoice_records_acc)

lemma customer_batches_frame:
  "customer_batches fuel acct g acc w = Some (r, w1)
   \<Longrightarrow> w1\<lparr>customers := c, api_requests := a, sleeps := s\<rparr>
       = w\<lparr>customers := c, api_requests := a, sleeps := s\<rparr>"
proof (induction fuel arbitrary: g acc w)
  case 0
  then show ?case by simp
next
  case (Suc fuel)
  obtain ev g0 w0 where nb: "next_batch g w = (ev, g0, w0)"
    by (cases "next_batch g w")
  have w0: "w0\<lparr>customers := c, api_requests := a, sleeps := s\<rparr>
              = w\<lparr>customers := c, api_requests := a, sleeps := s\<rparr>"
    using next_batch_frame [OF nb, where a=a and s=s] by (cases w; cases w0) simp
  show ?case
  proof (cases ev)
    case (Yield batch)
    obtain rb wb where cb: "customer_batch acct batch acc w0 = (rb, wb)"
      by (cases "customer_batch acct batch acc w0")
    have wb: "wb\<lparr>customers := c, api_requests := a, sleeps := s\<rparr>
              = w0\<lparr>customers := c, api_requests := a, sleeps := s\<rparr>"
      using customer_batch_frame [OF cb, where c=c] by (cases wb; cases w0) simp
    show ?thesis
    proof (cases rb)
      case (Inl e)
      with Suc.prems nb Yield cb wb w0 show ?thesis by auto
    next
      case (Inr acc1)
      with Suc.prems nb Yield cb have "customer_batches fuel acct g0 acc1 wb = Some (r, w1)"
        by simp
      from Suc.IH [OF this] wb w0 show ?thesis by simp
    qed
  qed (use Suc.prems nb w0 in auto)
qed

lemma customer_batches_acc:
  "customer_batches fuel acct g acc w = Some (Inr acc1, w1) \<Longrightarrow> snd acc \<le> snd acc1"
proof (induction fuel arbitrary: g acc w)
  case 0
  then show ?case by simp
next
  case (Suc fuel)
  obtain ev g0 w0 where nb: "next_batch g w = (ev, g0, w0)"
    by (cases "next_batch g w")
  show ?case
  proof (cases ev)
    case (Yield batch)
    obtain rb wb where cb: "customer_batch acct batch acc w0 = (rb, wb)"
      by (cases "customer_batch acct batch acc w0")
    show ?thesis
    proof (cases rb)
      case (Inl e)
      with Suc.prems nb Yield cb show ?thesis by auto
    next
      case (Inr acc0)
      with Suc.prems nb Yield cb have "customer_batches fuel acct g0 acc0 wb = Some (Inr acc1, w1)"
        by simp
      from customer_batch_acc [OF cb [unfolded Inr]] Suc.IH [OF this] show ?thesis
        by (rule order_trans)
    qed
  qed (use Suc.prems nb in auto)
qed

lemma invoice_batches_frame:
  "invoice_batches fuel acct g acc w = Some (r, w1)
   \<Longrightarrow> w1\<lparr>invoices := c, api_requests := a, sleeps := s\<rparr>
       = w\<lparr>invoices := c, api_requests := a, sleeps := s\<rparr>"
proof (induction fuel arbitrary: g acc w)
  case 0
  then show ?case by simp
next
  case (Suc fuel)
  obtain ev g0 w0 where nb: "next_batch g w = (ev, g0, w0)"
    by (cases "next_batch g w")
  have w0: "w0\<lparr>invoices := c, api_requests := a, sleeps := s\<rparr>
              = w\<lparr>invoices := c, api_requests := a, sleeps := s\<rparr>"
    using next_batch_frame [OF nb, where a=a and s=s] by (cases w; cases w0) simp
  show ?case
  proof (cases ev)
    case (Yield batch)
    obtain rb wb where cb: "invoice_batch acct batch acc w0 = (rb, wb)"
      by (cases "invoice_batch acct batch acc w0")
    have wb: "wb\<lparr>invoices := c, api_requests := a, sleeps := s\<rparr>
              = w0\<lparr>invoices := c, api_requests := a, sleeps := s\<rparr>"
      using invoice_batch_frame [OF cb, where c=c] by (cases wb; cases w0) simp
    show ?thesis
    proof (cases rb)
      case (Inl e)
      with Suc.prems nb Yield cb wb w0 show ?thesis by auto
    next
      case (Inr acc1)
      with Suc.prems nb Yield cb have "invoice_batches fuel acct g0 acc1 wb = Some (r, w1)"
        by simp
      from Suc.IH [OF this] wb w0 show ?thesis by simp
    qed
  qed (use Suc.prems nb w0 in auto)
qed

lemma invoice_batches_acc:
  "invoice_batches fuel acct g acc w = Some (Inr acc1, w1) \<Longrightarrow> snd acc \<le> snd acc1"
proof (induction fuel arbitrary: g acc w)
  case 0
  then show ?case by simp
next
  case (Suc fuel)
  obtain ev g0 w0 where nb: "next_batch g w = (ev, g0, w0)"
    by (cases "next_batch g w")
  show ?case
  proof (cases ev)
    case (Yield batch)
    obtain rb wb where cb: "invoice_batch acct batch acc w0 = (rb, wb)"
      by (cases "invoice_batch acct batch acc w0")
    show ?thesis
    proof (cases rb)
      case (Inl e)
      with Suc.prems nb Yield cb show ?thesis by auto
    next
      case (Inr acc0)
      with Suc.prems nb Yield cb have "invoice_batches fuel acct g0 acc0 wb = Some (Inr acc1, w1)"
        by simp
      from invoice_batch_acc [OF cb [unfolded Inr]] Suc.IH [OF this] show ?thesis
        by (rule order_trans)
    qed
  qed (use Suc.prems nb in auto)
qed

subsection \<open>What the token manager changes\<close>

lemma on_token_refresh_frame:
  "on_token_refresh acct atok rtok ex w = Inr w1 \<Longrightarrow> w1\<lparr>accounts := A\<rparr> = w\<lparr>accounts := A\<rparr>"
  by (auto simp: on_token_refresh_def split: list.splits)

lemma store_tokens_frame:
  assumes "store_tokens response sdk w = (r, sdk1, w1)"
    and "sdk_on_token_refresh sdk = Some (on_token_refresh acct)"
  shows "w1\<lparr>accounts := A, clock_reads := n\<rparr> = w\<lparr>accounts := A, clock_reads := n\<rparr>
         \<and> sdk_on_token_refresh sdk1 = sdk_on_token_refresh sdk"
  using assms
  by (auto simp: store_tokens_def Let_def now_def update_api_tokens_def
      split: option.splits sum.splits dest!: on_token_refresh_frame [where A=A])

lemma refresh_tokens_frame:
  assumes "refresh_tokens sdk w = (r, sdk1, w1)"
    and "sdk_on_token_refresh sdk = Some (on_token_refresh acct)"
  shows "w1\<lparr>accounts := A, clock_reads := n, token_requests := t\<rparr>
           = w\<lparr>accounts := A, clock_reads := n, token_requests := t\<rparr>
         \<and> sdk_on_token_refresh sdk1 = sdk_on_token_refresh sdk"
proof -
  obtain reply w0 where rp: "requests_post (sdk_refresh_token sdk) w = (reply, w0)"
    by (cases "requests_post (sdk_refresh_token sdk) w")
  then have w0: "w0 = w\<lparr>token_requests := token_requests w @ [sdk_refresh_token sdk]\<rparr>"
    by (auto simp: requests_post_def)
  show ?thesis
  proof (cases reply)
    case (TokenTransportError m)
    with assms rp w0 show ?thesis by (auto simp: refresh_tokens_def)
  next
    case (TokenResponse response)
    show ?thesis
    proof (cases "tr_status_code response = 200")
      case True
      with assms(1) rp TokenResponse have "store_tokens response sdk w0 = (r, sdk1, w1)"
        by (simp add: refresh_tokens_def)
      from store_tokens_frame [OF this assms(2), where A=A and n=n] w0 show ?thesis
        by (cases w; cases w1) auto
    next
      case False
      with assms rp w0 TokenResponse show ?thesis
        by (auto simp: refresh_tokens_def Let_def split: option.splits if_splits)
    qed
  qed
qed

lemma ensure_token_valid_frame:
  assumes "ensure_token_valid sdk w = (r, sdk1, w1)"
    and "sdk_on_token_refresh sdk = Some (on_token_refresh acct)"
  shows "w1\<lparr>accounts := A, clock_reads := n, token_requests := t\<rparr>
           = w\<lparr>accounts := A, clock_reads := n, token_requests := t\<rparr>
         \<and> sdk_on_token_refresh sdk1 = sdk_on_token_refresh sdk"
proof (cases "sdk_access_token sdk = None")
  case True
  with assms show ?thesis by (simp add: ensure_token_valid_def refresh_tokens_frame)
next
  case False
  show ?thesis
  proof (cases "sdk_token_expires_at sdk")
    case None
    with assms False show ?thesis by (auto simp: ensure_token_valid_def)
  next
    case (Some expires_at)
    let ?w0 = "w\<lparr>clock_reads := Suc (clock_reads w)\<rparr>"
    show ?thesis
    proof (cases "clock w (clock_reads w) \<ge> expires_at - timedelta_minutes 5")
      case True
      with assms(1) False Some have "refresh_tokens sdk ?w0 = (r, sdk1, w1)"
        by (simp add: ensure_token_valid_def now_def)
      from refresh_tokens_frame [OF this assms(2), where A=A and n=n and t=t] show ?thesis
        by (cases w; cases w1) auto
    next
      case False
      with assms \<open>sdk_access_token sdk \<noteq> None\<close> Some show ?thesis
        by (auto simp: ensure_token_valid_def now_def)
    qed
  qed
qed

subsection \<open>The sync state store\<close>

lemma get_or_create_row:
  assumes "get_or_create a ty w = (row, w2)"
  shows "sync_states w2 (a, ty) = Some row"
    and "watermark w2 = watermark w"
    and "checkpoint row = watermark w (a, ty)"
    and "w2\<lparr>sync_states := S\<rparr> = w\<lparr>sync_states := S\<rparr>"
    and "sync_states w (a, ty) = Some row0 \<Longrightarrow> w2 = w \<and> row = row0"
    and "k \<noteq> (a, ty) \<Longrightarrow> sync_states w2 k = sync_states w k"
  using assms
  by (auto simp: get_or_create_def watermark_def Let_def fun_eq_iff
      split: option.splits if_splits)

lemma call_mark_started_row:
  assumes "call_mark_started key obj w = (obj1, w3)" and "sync_states w key = Some row"
  shows "sync_states w3 = (sync_states w)(key \<mapsto> started_fields obj1 row)"
    and "obj1 = mark_started (clock w (clock_reads w)) obj"
    and "w3\<lparr>sync_states := S, clock_reads := n\<rparr> = w\<lparr>sync_states := S, clock_reads := n\<rparr>"
  using assms
  by (auto simp: call_mark_started_def now_def save_fields_def Let_def split: option.splits)

lemma call_mark_success_row:
  assumes "call_mark_success key ckpt obj w = (obj1, w5)" and "sync_states w key = Some row"
  shows "sync_states w5 = (sync_states w)(key \<mapsto> success_fields obj1 row)"
    and "obj1 = mark_success (clock w (clock_reads w)) ckpt obj"
    and "w5\<lparr>sync_states := S, clock_reads := n\<rparr> = w\<lparr>sync_states := S, clock_reads := n\<rparr>"
  using assms
  by (auto simp: call_mark_success_def now_def save_fields_def Let_def split: option.splits)

lemma call_mark_failed_row:
  assumes "call_mark_failed key msg obj w = (obj1, w5)" and "sync_states w key = Some row"
  shows "sync_states w5 = (sync_states w)(key \<mapsto> failed_fields obj1 row)"
    and "obj1 = mark_failed msg obj"
    and "w5\<lparr>sync_states := S\<rparr> = w\<lparr>sync_states := S\<rparr>"
  using assms
  by (auto simp: call_mark_failed_def save_fields_def Let_def split: option.splits)

subsection \<open>The course of one object type's sync\<close>

lemma sync_customers_cases:
  assumes "sync_customers fuel acct client w = Some (res, client1, w')"
  obtains
    (token) e where
      "ensure_token_valid client w = (Inl e, client1, w')" "res = Inl e"
  | (success) w1 row w2 row1 w3 acc w4 where
      "ensure_token_valid client w = (Inr (), client1, w1)"
      "get_or_create (pk acct) CUSTOMER w1 = (row, w2)"
      "call_mark_started (pk acct, CUSTOMER) row w2 = (row1, w3)"
      "customer_batches fuel acct
         (Customers_get_all_generator (sdk_customers client1) (checkpoint row))
         (0, checkpoint row) w3 = Some (Inr acc, w4)"
      "res = Inr acc"
      "w' = snd (call_mark_success (pk acct, CUSTOMER) (snd acc) row1 w4)"
  | (failed) w1 row w2 row1 w3 e w4 where
      "ensure_token_valid client w = (Inr (), client1, w1)"
      "get_or_create (pk acct) CUSTOMER w1 = (row, w2)"
      "call_mark_started (pk acct, CUSTOMER) row w2 = (row1, w3)"
      "customer_batches fuel acct
         (Customers_get_all_generator (sdk_customers client1) (checkpoint row))
         (0, checkpoint row) w3 = Some (Inl e, w4)"
      "res = Inl e"
      "w' = snd (call_mark_failed (pk acct, CUSTOMER) (str e) row1 w4)"
  using assms
  by (auto simp: sync_customers_def Let_def split: prod.splits sum.splits option.splits)

lemma sync_invoices_cases:
  assumes "sync_invoices fuel acct client w = Some (res, client1, w')"
  obtains
    (token) e where
      "ensure_token_valid client w = (Inl e, client1, w')" "res = Inl e"
  | (success) w1 row w2 row1 w3 acc w4 where
      "ensure_token_valid client w = (Inr (), client1, w1)"
      "get_or_create (pk acct) INVOICE w1 = (row, w2)"
      "call_mark_started (pk acct, INVOICE) row w2 = (row1, w3)"
      "invoice_batches fuel acct
         (Invoices_get_all_generator (sdk_invoices client1) (checkpoint row))
         (0, checkpoint row) w3 = Some (Inr acc, w4)"
      "res = Inr acc"
      "w' = snd (call_mark_success (pk acct, INVOICE) (snd acc) row1 w4)"
  | (failed) w1 row w2 row1 w3 e w4 where
      "ensure_token_valid client w = (Inr (), client1, w1)"
      "get_or_create (pk acct) INVOICE w1 = (row, w2)"
      "call_mark_started (pk acct, INVOICE) row w2 = (row1, w3)"
      "invoice_batches fuel acct
         (Invoices_get_all_generator (sdk_invoices client1) (checkpoint row))
         (0, checkpoint row) w3 = Some (Inl e, w4)"
      "res = Inl e"
      "w' = snd (call_mark_failed (pk acct, INVOICE) (str e) row1 w4)"
  using assms
  by (auto simp: sync_invoices_def Let_def split: prod.splits sum.splits option.splits)

subsection \<open>The watermark over one object type's sync\<close>

lemma watermark_upd:
  "watermark (w\<lparr>sync_states := (sync_states w0)(key \<mapsto> row)\<rparr>) k
     = (if k = key then checkpoint row else watermark w0 k)"
  by (simp add: watermark_def)

lemma ensure_token_valid_sync_states:
  assumes "ensure_token_valid sdk w = (r, sdk1, w1)"
    and "sdk_on_token_refresh sdk = Some (on_token_refresh acct)"
  shows "sync_states w1 = sync_states w"
  using ensure_token_valid_frame [OF assms, where A="[]" and n=0 and t="[]"]
  by (cases w; cases w1) simp

lemma customer_batches_sync_states:
  assumes "customer_batches fuel acct g acc w = Some (r, w1)"
  shows "sync_states w1 = sync_states w"
  using customer_batches_frame [OF assms, where c="[]" and a="[]" and s="[]"]
  by (cases w; cases w1) simp

lemma invoice_batches_sync_states:
  assumes "invoice_batches fuel acct g acc w = Some (r, w1)"
  shows "sync_states w1 = sync_states w"
  using invoice_batches_frame [OF assms, where c="[]" and a="[]" and s="[]"]
  by (cases w; cases w1) simp

lemma sync_customers_watermark:
  assumes run: "sync_customers fuel acct client w = Some (res, client1, w')"
    and cb: "sdk_on_token_refresh client = Some (on_token_refresh acct0)"
  shows "watermark w k \<le> watermark w' k"
  using run
proof (cases rule: sync_customers_cases)
  case (token e)
  from ensure_token_valid_sync_states [OF token(1) cb] show ?thesis
    by (simp add: watermark_def)
next
  case (success w1 row w2 row1 w3 acc w4)
  let ?key = "(pk acct, CUSTOMER)"
  have s1: "sync_states w1 = sync_states w"
    by (rule ensure_token_valid_sync_states [OF success(1) cb])
  note goc = get_or_create_row [OF success(2)]
  note ms = call_mark_started_row [OF success(3) goc(1)]
  have s4: "sync_states w4 = sync_states w3"
    by (rule customer_batches_sync_states [OF success(4)])
  have le: "checkpoint row \<le> snd acc"
    using customer_batches_acc [OF success(4)] by simp
  obtain obj5 w5 where c5: "call_mark_success ?key (snd acc) row1 w4 = (obj5, w5)"
    by (cases "call_mark_success ?key (snd acc) row1 w4")
  have r4: "sync_states w4 ?key = Some (started_fields row1 row)"
    by (simp add: s4 ms(1))
  note fin = call_mark_success_row [OF c5 r4]
  have w': "w' = w5" using success(6) c5 by simp
  have base: "watermark w k = watermark w2 k"
    using goc(2) s1 by (simp add: watermark_def)
  show ?thesis
  proof (cases "k = ?key")
    case True
    have "watermark w' k = checkpoint obj5"
      by (simp add: w' watermark_def fin(1) True success_fields_def)
    also have "\<dots> = (if truthy (snd acc) then snd acc else checkpoint row)"
      by (simp add: fin(2) ms(2) mark_success_def mark_started_def Let_def)
    finally have "watermark w' k = (if truthy (snd acc) then snd acc else checkpoint row)" .
    moreover have "watermark w k = checkpoint row"
      using goc(3) s1 True by (simp add: watermark_def)
    ultimately show ?thesis using le by simp
  next
    case False
    then have "watermark w' k = watermark w2 k"
      by (simp add: w' watermark_def fin(1) s4 ms(1))
    with base show ?thesis by simp
  qed
next
  case (failed w1 row w2 row1 w3 e w4)
  let ?key = "(pk acct, CUSTOMER)"
  have s1: "sync_states w1 = sync_states w"
    by (rule ensure_token_valid_sync_states [OF failed(1) cb])
  note goc = get_or_create_row [OF failed(2)]
  note ms = call_mark_started_row [OF failed(3) goc(1)]
  have s4: "sync_states w4 = sync_states w3"
    by (rule customer_batches_sync_states [OF failed(4)])
  obtain obj5 w5 where c5: "call_mark_failed ?key (str e) row1 w4 = (obj5, w5)"
    by (cases "call_mark_failed ?key (str e) row1 w4")
  have r4: "sync_states w4 ?key = Some (started_fields row1 row)"
    by (simp add: s4 ms(1))
  note fin = call_mark_failed_row [OF c5 r4]
  have w': "w' = w5" using failed(6) c5 by simp
  have "watermark w' k = watermark w2 k"
    using goc(1) by (simp add: w' watermark_def fin(1) s4 ms(1) failed_fields_def started_fields_def)
  moreover have "watermark w k = watermark w2 k"
    using goc(2) s1 by (simp add: watermark_def)
  ultimately show ?thesis by simp
qed

lemma sync_invoices_watermark:
  assumes run: "sync_invoices fuel acct client w = Some (res, client1, w')"
    and cb: "sdk_on_token_refresh client = Some (on_token_refresh acct0)"
  shows "watermark w k \<le> watermark w' k"
  using run
proof (cases rule: sync_invoices_cases)
  case (token e)
  from ensure_token_valid_sync_states [OF token(1) cb] show ?thesis
    by (simp add: watermark_def)
next
  case (success w1 row w2 row1 w3 acc w4)
  let ?key = "(pk acct, INVOICE)"
  have s1: "sync_states w1 = sync_states w"
    by (rule ensure_token_valid_sync_states [OF success(1) cb])
  note goc = get_or_create_row [OF success(2)]
  note ms = call_mark_started_row [OF success(3) goc(1)]
  have s4: "sync_states w4 = sync_states w3"
    by (rule invoice_batches_sync_states [OF success(4)])
  have le: "checkpoint row \<le> snd acc"
    using invoice_batches_acc [OF success(4)] by simp
  obtain obj5 w5 where c5: "call_mark_success ?key (snd acc) row1 w4 = (obj5, w5)"
    by (cases "call_mark_success ?key (snd acc) row1 w4")
  have r4: "sync_states w4 ?key = Some (started_fields row1 row)"
    by (simp add: s4 ms(1))
  note fin = call_mark_success_row [OF c5 r4]
  have w': "w' = w5" using success(6) c5 by simp
  have base: "watermark w k = watermark w2 k"
    using goc(2) s1 by (simp add: watermark_def)
  show ?thesis
  proof (cases "k = ?key")
    case True
    have "watermark w' k = checkpoint obj5"
      by (simp add: w' watermark_def fin(1) True success_fields_def)
    also have "\<dots> = (if truthy (snd acc) then snd acc else checkpoint row)"
      by (simp add: fin(2) ms(2) mark_success_def mark_started_def Let_def)
    finally have "watermark w' k = (if truthy (snd acc) then snd acc else checkpoint row)" .
    moreover have "watermark w k = checkpoint row"
      using goc(3) s1 True by (simp add: watermark_def)
    ultimately show ?thesis using le by simp
  next
    case False
    then have "watermark w' k = watermark w2 k"
      by (simp add: w' watermark_def fin(1) s4 ms(1))
    with base show ?thesis by simp
  qed
next
  case (failed w1 row w2 row1 w3 e w4)
  let ?key = "(pk acct, INVOICE)"
  have s1: "sync_states w1 = sync_states w"
    by (rule ensure_token_valid_sync_states [OF failed(1) cb])
  note goc = get_or_create_row [OF failed(2)]
  note ms = call_mark_started_row [OF failed(3) goc(1)]
  have s4: "sync_states w4 = sync_states w3"
    by (rule invoice_batches_sync_states [OF failed(4)])
  obtain obj5 w5 where c5: "call_mark_failed ?key (str e) row1 w4 = (obj5, w5)"
    by (cases "call_mark_failed ?key (str e) row1 w4")
  have r4: "sync_states w4 ?key = Some (started_fields row1 row)"
    by (simp add: s4 ms(1))
  note fin = call_mark_failed_row [OF c5 r4]
  have w': "w' = w5" using failed(6) c5 by simp
  have "watermark w' k = watermark w2 k"
    using goc(1) by (simp add: w' watermark_def fin(1) s4 ms(1) failed_fields_def started_fields_def)
  moreover have "watermark w k = watermark w2 k"
    using goc(2) s1 by (simp add: watermark_def)
  ultimately show ?thesis by simp
qed

subsection \<open>The watermark over an account's sync and over a cycle\<close>

lemma sync_customers_callback:
  assumes "sync_customers fuel acct client w = Some (res, client1, w')"
    and "sdk_on_token_refresh client = Some (on_token_refresh acct0)"
  shows "sdk_on_token_refresh client1 = Some (on_token_refresh acct0)"
  using assms(1)
  by (cases rule: sync_customers_cases)
    (use ensure_token_valid_frame [OF _ assms(2)] assms(2) in auto)

lemma sync_invoices_callback:
  assumes "sync_invoices fuel acct client w = Some (res, client1, w')"
    and "sdk_on_token_refresh client = Some (on_token_refresh acct0)"
  shows "sdk_on_token_refresh client1 = Some (on_token_refresh acct0)"
  using assms(1)
  by (cases rule: sync_invoices_cases)
    (use ensure_token_valid_frame [OF _ assms(2)] assms(2) in auto)

lemma getattr_method_watermark:
  assumes "getattr_method name fuel acct client w = Some (res, client1, w')"
    and "sdk_on_token_refresh client = Some (on_token_refresh acct0)"
  shows "watermark w k \<le> watermark w' k"
    and "sdk_on_token_refresh client1 = Some (on_token_refresh acct0)"
  using assms sync_customers_watermark sync_invoices_watermark
    sync_customers_callback sync_invoices_callback
  by (auto simp: getattr_method_def split: if_splits)

lemma watermark_save_is_token_expired [simp]:
  "watermark (save_is_token_expired acct w) = watermark w"
  by (simp add: watermark_def save_is_token_expired_def fun_eq_iff)

lemma sync_object_type_watermark:
  assumes "sync_object_type fuel acct client cfg w = Some (res, client1, w')"
    and "sdk_on_token_refresh client = Some (on_token_refresh acct0)"
  shows "watermark w k \<le> watermark w' k"
    and "sdk_on_token_refresh client1 = Some (on_token_refresh acct0)"
proof -
  from assms(1) obtain r0 w0 where
    m: "getattr_method (cfg_method cfg) fuel acct client w = Some (r0, client1, w0)"
    and w': "w' = w0 \<or> w' = save_is_token_expired acct w0"
    by (auto simp: sync_object_type_def split: option.splits sum.splits exn.splits)
  from getattr_method_watermark(1) [OF m assms(2), where k=k]
    getattr_method_watermark(2) [OF m assms(2)] w'
  show "watermark w k \<le> watermark w' k"
    and "sdk_on_token_refresh client1 = Some (on_token_refresh acct0)"
    by auto
qed

lemma sync_configs_watermark:
  assumes "sync_configs fuel acct client cfgs results w = Some (res, w')"
    and "sdk_on_token_refresh client = Some (on_token_refresh acct0)"
  shows "watermark w k \<le> watermark w' k"
  using assms
proof (induction cfgs arbitrary: client results w)
  case Nil
  then show ?case by simp
next
  case (Cons cfg rest)
  from Cons.prems(1) obtain r0 client0 w0 where
    s: "sync_object_type fuel acct client cfg w = Some (r0, client0, w0)"
    by (auto split: option.splits)
  note st = sync_object_type_watermark(1) [OF s Cons.prems(2), where k=k]
    sync_object_type_watermark(2) [OF s Cons.prems(2)]
  show ?case
  proof (cases r0)
    case (Inl e)
    with Cons.prems(1) s st show ?thesis by simp
  next
    case (Inr r)
    with Cons.prems(1) s have
      "sync_configs fuel acct client0 rest (AList.update (cfg_name cfg) r results) w0
         = Some (res, w')"
      by simp
    from st(1) Cons.IH [OF this st(2)] show ?thesis by (rule order_trans)
  qed
qed

lemma create_client_callback:
  "sdk_on_token_refresh (create_client_for_account acct w) = Some (on_token_refresh acct)"
  by (simp add: create_client_for_account_def QuickBooksOnlineSDK_init_def Let_def
      update_api_tokens_def)

lemma sync_account_watermark:
  assumes "sync_account fuel realm w = Some (res, w')"
  shows "watermark w k \<le> watermark w' k"
proof (cases "find (\<lambda>a. realm_id a = realm) (accounts w)")
  case None
  with assms show ?thesis by (simp add: sync_account_def)
next
  case (Some acct)
  show ?thesis
  proof (cases "is_token_expired acct")
    case True
    with assms Some show ?thesis by (simp add: sync_account_def)
  next
    case False
    with assms Some obtain r0 where
      "sync_configs fuel acct (create_client_for_account acct w) SYNC_CONFIG
         (map (\<lambda>cfg. (cfg_name cfg, pending_result)) SYNC_CONFIG) w = Some (r0, w')"
      by (auto simp: sync_account_def Let_def split: option.splits sum.splits)
    from sync_configs_watermark [OF this create_client_callback] show ?thesis .
  qed
qed

lemma sync_each_watermark:
  "sync_each fuel accts results w = Some (rs, w') \<Longrightarrow> watermark w k \<le> watermark w' k"
proof (induction accts arbitrary: results w)
  case Nil
  then show ?case by simp
next
  case (Cons acct rest)
  from Cons.prems obtain r0 w0 results0 where
    a: "sync_account fuel (realm_id acct) w = Some (r0, w0)"
    and r: "sync_each fuel rest results0 w0 = Some (rs, w')"
    by (auto split: option.splits sum.splits exn.splits)
  from sync_account_watermark [OF a] Cons.IH [OF r] show ?case by (rule order_trans)
qed

lemma sync_all_accounts_watermark:
  "sync_all_accounts fuel w = Some (res, w') \<Longrightarrow> watermark w k \<le> watermark w' k"
  by (auto simp: sync_all_accounts_def split: option.splits dest: sync_each_watermark)

lemma cycle_watermark:
  "cycle fuel t w = Some w' \<Longrightarrow> watermark w k \<le> watermark w' k"
  by (cases t)
    (auto simp: cycle_def dest: sync_account_watermark sync_all_accounts_watermark)

lemma cycles_watermark:
  "cycles fuel ts w = Some w' \<Longrightarrow> watermark w k \<le> watermark w' k"
proof (induction ts arbitrary: w)
  case Nil
  then show ?case by simp
next
  case (Cons t ts)
  from Cons.prems obtain w0 where c: "cycle fuel t w = Some w0" and r: "cycles fuel ts w0 = Some w'"
    by (auto split: option.splits)
  from cycle_watermark [OF c] Cons.IH [OF r] show ?case by (rule order_trans)
qed

section \<open>The claims\<close>

subsection \<open>C1: the watermark never moves backwards\<close>

lemma sync_customers_checkpoint:
  assumes run: "sync_customers fuel acct client w = Some (Inr (n, ckpt), client1, w')"
    and cb: "sdk_on_token_refresh client = Some (on_token_refresh acct0)"
  shows "watermark w (pk acct, CUSTOMER) \<le> ckpt"
    and "watermark w' (pk acct, CUSTOMER)
           = (if truthy ckpt then ckpt else watermark w (pk acct, CUSTOMER))"
proof -
  let ?key = "(pk acct, CUSTOMER)"
  have "watermark w ?key \<le> ckpt
        \<and> watermark w' ?key = (if truthy ckpt then ckpt else watermark w ?key)"
    using run
  proof (cases rule: sync_customers_cases)
    case (token e)
    then show ?thesis by simp
  next
    case (failed w1 row w2 row1 w3 e w4)
    then show ?thesis by simp
  next
    case (success w1 row w2 row1 w3 acc w4)
    from success(5) have acc: "snd acc = ckpt" by auto
    have s1: "sync_states w1 = sync_states w"
      by (rule ensure_token_valid_sync_states [OF success(1) cb])
    note goc = get_or_create_row [OF success(2)]
    note ms = call_mark_started_row [OF success(3) goc(1)]
    have s4: "sync_states w4 = sync_states w3"
      by (rule customer_batches_sync_states [OF success(4)])
    have le: "checkpoint row \<le> ckpt"
      using customer_batches_acc [OF success(4)] acc by simp
    obtain obj5 w5 where c5: "call_mark_success ?key ckpt row1 w4 = (obj5, w5)"
      by (cases "call_mark_success ?key ckpt row1 w4")
    have r4: "sync_states w4 ?key = Some (started_fields row1 row)"
      by (simp add: s4 ms(1))
    note fin = call_mark_success_row [OF c5 r4]
    have w': "w' = w5" using success(6) c5 acc by simp
    have old: "watermark w ?key = checkpoint row"
      using goc(3) s1 by (simp add: watermark_def)
    have "watermark w' ?key = checkpoint obj5"
      by (simp add: w' watermark_def fin(1) success_fields_def)
    also have "\<dots> = (if truthy ckpt then ckpt else checkpoint row)"
      by (simp add: fin(2) ms(2) mark_success_def mark_started_def Let_def)
    finally show ?thesis using le old by simp
  qed
  then show "watermark w ?key \<le> ckpt"
    and "watermark w' ?key = (if truthy ckpt then ckpt else watermark w ?key)"
    by simp_all
qed

lemma sync_invoices_checkpoint:
  assumes run: "sync_invoices fuel acct client w = Some (Inr (n, ckpt), client1, w')"
    and cb: "sdk_on_token_refresh client = Some (on_token_refresh acct0)"
  shows "watermark w (pk acct, INVOICE) \<le> ckpt"
    and "watermark w' (pk acct, INVOICE)
           = (if truthy ckpt then ckpt else watermark w (pk acct, INVOICE))"
proof -
  let ?key = "(pk acct, INVOICE)"
  have "watermark w ?key \<le> ckpt
        \<and> watermark w' ?key = (if truthy ckpt then ckpt else watermark w ?key)"
    using run
  proof (cases rule: sync_invoices_cases)
    case (token e)
    then show ?thesis by simp
  next
    case (failed w1 row w2 row1 w3 e w4)
    then show ?thesis by simp
  next
    case (success w1 row w2 row1 w3 acc w4)
    from success(5) have acc: "snd acc = ckpt" by auto
    have s1: "sync_states w1 = sync_states w"
      by (rule ensure_token_valid_sync_states [OF success(1) cb])
    note goc = get_or_create_row [OF success(2)]
    note ms = call_mark_started_row [OF success(3) goc(1)]
    have s4: "sync_states w4 = sync_states w3"
      by (rule invoice_batches_sync_states [OF success(4)])
    have le: "checkpoint row \<le> ckpt"
      using invoice_batches_acc [OF success(4)] acc by simp
    obtain obj5 w5 where c5: "call_mark_success ?key ckpt row1 w4 = (obj5, w5)"
      by (cases "call_mark_success ?key ckpt row1 w4")
    have r4: "sync_states w4 ?key = Some (started_fields row1 row)"
      by (simp add: s4 ms(1))
    note fin = call_mark_success_row [OF c5 r4]
    have w': "w' = w5" using success(6) c5 acc by simp
    have old: "watermark w ?key = checkpoint row"
      using goc(3) s1 by (simp add: watermark_def)
    have "watermark w' ?key = checkpoint obj5"
      by (simp add: w' watermark_def fin(1) success_fields_def)
    also have "\<dots> = (if truthy ckpt then ckpt else checkpoint row)"
      by (simp add: fin(2) ms(2) mark_success_def mark_started_def Let_def)
    finally show ?thesis using le old by simp
  qed
  then show "watermark w ?key \<le> ckpt"
    and "watermark w' ?key = (if truthy ckpt then ckpt else watermark w ?key)"
    by simp_all
qed

text \<open>
  C1, as the claim states it, fails for \<open>mark_success\<close>. The method tests only whether
  the checkpoint it is given is non-empty and makes no comparison with the stored one:
  called with \<open>2020-01-01T00:00:00Z\<close> on a sync state whose checkpoint is
  \<open>2023-12-31T00:00:00Z\<close>, it stores the smaller value.
\<close>

theorem mark_success_smaller_checkpoint_counterexample:
  "checkpoint synced_row = Some ''2023-12-31T00:00:00Z''
   \<and> checkpoint (mark_success 1704200000000000 (Some ''2020-01-01T00:00:00Z'') synced_row)
       = Some ''2020-01-01T00:00:00Z''
   \<and> checkpoint (mark_success 1704200000000000 (Some ''2020-01-01T00:00:00Z'') synced_row)
       < checkpoint synced_row"
  by code_simp

text \<open>
  C1, amended. The checkpoint watermark is non-decreasing in the lexicographic order of
  strings (with no watermark below every string). \<open>_update_checkpoint\<close> returns a value
  that is at least the current one, and it returns the new timestamp only when that is
  non-empty and strictly greater than the current one. \<open>mark_success\<close> makes no
  comparison: it keeps the stored checkpoint when the one it is given is missing or
  empty, and stores any non-empty one, so it keeps the order exactly when it is given a
  value that is at least the stored one. \<open>sync_customers\<close> and \<open>sync_invoices\<close> give it
  the running maximum, which starts at the stored checkpoint: the checkpoint they return
  is at least the stored watermark, and it is what is stored afterwards unless it is
  empty. Over any sequence of sync cycles that return, successful or failed, whether
  started for one account or for all, the stored watermark of every (account, object
  type) pair at the end is at least what it was at the start.
\<close>

theorem watermark_non_decreasing:
  "current \<le> update_checkpoint current new_value
   \<and> (update_checkpoint current new_value = current
        \<or> update_checkpoint current new_value = new_value \<and> truthy new_value
            \<and> current < new_value)
   \<and> checkpoint (mark_success t ckpt s) = (if truthy ckpt then ckpt else checkpoint s)
   \<and> (checkpoint s \<le> ckpt \<longrightarrow> checkpoint s \<le> checkpoint (mark_success t ckpt s))
   \<and> (sync_customers fuel acct client w = Some (Inr (n, ckpt), client1, w1)
      \<longrightarrow> sdk_on_token_refresh client = Some (on_token_refresh acct0)
      \<longrightarrow> watermark w (pk acct, CUSTOMER) \<le> ckpt
          \<and> watermark w1 (pk acct, CUSTOMER)
              = (if truthy ckpt then ckpt else watermark w (pk acct, CUSTOMER)))
   \<and> (sync_invoices fuel acct client w = Some (Inr (n, ckpt), client1, w1)
      \<longrightarrow> sdk_on_token_refresh client = Some (on_token_refresh acct0)
      \<longrightarrow> watermark w (pk acct, INVOICE) \<le> ckpt
          \<and> watermark w1 (pk acct, INVOICE)
              = (if truthy ckpt then ckpt else watermark w (pk acct, INVOICE)))
   \<and> (cycles fuel ts w = Some w' \<longrightarrow> watermark w key \<le> watermark w' key)"
proof (intro conjI impI)
  show "current \<le> update_checkpoint current new_value"
    by (rule update_checkpoint_ge)
  show "update_checkpoint current new_value = current
        \<or> update_checkpoint current new_value = new_value \<and> truthy new_value
            \<and> current < new_value"
    by (rule update_checkpoint_cases)
  show "checkpoint (mark_success t ckpt s) = (if truthy ckpt then ckpt else checkpoint s)"
    by (simp add: mark_success_def Let_def)
  show "checkpoint s \<le> checkpoint (mark_success t ckpt s)" if "checkpoint s \<le> ckpt"
    using that by (simp add: mark_success_def Let_def)
  show "watermark w (pk acct, CUSTOMER) \<le> ckpt"
    if "sync_customers fuel acct client w = Some (Inr (n, ckpt), client1, w1)"
      and "sdk_on_token_refresh client = Some (on_token_refresh acct0)"
    using that by (rule sync_customers_checkpoint(1))
  show "watermark w1 (pk acct, CUSTOMER)
          = (if truthy ckpt then ckpt else watermark w (pk acct, CUSTOMER))"
    if "sync_customers fuel acct client w = Some (Inr (n, ckpt), client1, w1)"
      and "sdk_on_token_refresh client = Some (on_token_refresh acct0)"
    using that by (rule sync_customers_checkpoint(2))
  show "watermark w (pk acct, INVOICE) \<le> ckpt"
    if "sync_invoices fuel acct client w = Some (Inr (n, ckpt), client1, w1)"
      and "sdk_on_token_refresh client = Some (on_token_refresh acct0)"
    using that by (rule sync_invoices_checkpoint(1))
  show "watermark w1 (pk acct, INVOICE)
          = (if truthy ckpt then ckpt else watermark w (pk acct, INVOICE))"
    if "sync_invoices fuel acct client w = Some (Inr (n, ckpt), client1, w1)"
      and "sdk_on_token_refresh client = Some (on_token_refresh acct0)"
    using that by (rule sync_invoices_checkpoint(2))
  show "watermark w key \<le> watermark w' key" if "cycles fuel ts w = Some w'"
    using that by (rule cycles_watermark)
qed

theorem watermark_non_decreasing_witness:
  "map_option (\<lambda>w'. (watermark w' (1, CUSTOMER), watermark w' (4, INVOICE),
                     map_option status (sync_states w' (4, INVOICE))))
     (cycles 3 [SyncAll, SyncAccount ''r1''] resumed_world)
     = Some (Some ''2024-01-05T10:30:00Z'', Some ''2023-12-31T00:00:00Z'', Some FAILED)
   \<and> watermark resumed_world (1, CUSTOMER) = Some ''2024-01-03T00:00:00Z''
   \<and> watermark resumed_world (4, INVOICE) = Some ''2023-12-31T00:00:00Z''
   \<and> watermark resumed_world (1, CUSTOMER) \<le> Some ''2024-01-05T10:30:00Z''
   \<and> watermark resumed_world (4, INVOICE) \<le> Some ''2023-12-31T00:00:00Z''
   \<and> map_option fst (sync_customers 3 (demo_accounts ! 0)
         (create_client_for_account (demo_accounts ! 0) resumed_world) resumed_world)
       = Some (Inr (2, Some ''2024-01-05T10:30:00Z''))
   \<and> Some ''2023-12-31T00:00:00Z''
       \<le> checkpoint (mark_success 0 (Some ''2024-01-05T10:30:00Z'') synced_row)"
proof -
  let ?ts = "[SyncAll, SyncAccount ''r1'']"
  let ?a1 = "demo_accounts ! 0"
  let ?c1 = "create_client_for_account ?a1 resumed_world"
  have run: "map_option (\<lambda>w'. (watermark w' (1, CUSTOMER), watermark w' (4, INVOICE),
                     map_option status (sync_states w' (4, INVOICE))))
     (cycles 3 ?ts resumed_world)
     = Some (Some ''2024-01-05T10:30:00Z'', Some ''2023-12-31T00:00:00Z'', Some FAILED)"
    by code_simp
  then obtain w' where w': "cycles 3 ?ts resumed_world = Some w'"
    and wm1: "watermark w' (1, CUSTOMER) = Some ''2024-01-05T10:30:00Z''"
    and wm4: "watermark w' (4, INVOICE) = Some ''2023-12-31T00:00:00Z''"
    by auto
  have old1: "watermark resumed_world (1, CUSTOMER) = Some ''2024-01-03T00:00:00Z''"
    by code_simp
  have old4: "watermark resumed_world (4, INVOICE) = Some ''2023-12-31T00:00:00Z''"
    by code_simp
  have sc: "map_option fst (sync_customers 3 ?a1 ?c1 resumed_world)
              = Some (Inr (2, Some ''2024-01-05T10:30:00Z''))"
    by code_simp
  then obtain client1 w1 where sc1: "sync_customers 3 ?a1 ?c1 resumed_world
        = Some (Inr (2, Some ''2024-01-05T10:30:00Z''), client1, w1)"
    by auto
  have cb: "sdk_on_token_refresh ?c1 = Some (on_token_refresh ?a1)"
    by (rule create_client_callback)
  have pk1: "pk ?a1 = 1"
    by (simp add: demo_accounts_def)
  have cs: "checkpoint synced_row = Some ''2023-12-31T00:00:00Z''"
    by (simp add: synced_row_def)
  have le0: "checkpoint synced_row \<le> Some ''2024-01-05T10:30:00Z''"
    by code_simp
  from watermark_non_decreasing [where fuel=3 and ts="?ts" and w=resumed_world and w'=w'
      and key="(1, CUSTOMER)"] w'
  have m1: "watermark resumed_world (1, CUSTOMER) \<le> watermark w' (1, CUSTOMER)"
    by blast
  from watermark_non_decreasing [where fuel=3 and ts="?ts" and w=resumed_world and w'=w'
      and key="(4, INVOICE)"] w'
  have m4: "watermark resumed_world (4, INVOICE) \<le> watermark w' (4, INVOICE)"
    by blast
  from watermark_non_decreasing [where fuel=3 and acct="?a1" and client="?c1"
      and w=resumed_world and n=2 and ckpt="Some ''2024-01-05T10:30:00Z''"
      and ?client1.0=client1 and ?w1.0=w1 and ?acct0.0="?a1" and s=synced_row and t=0] sc1 cb le0
  have m2: "watermark resumed_world (pk ?a1, CUSTOMER) \<le> Some ''2024-01-05T10:30:00Z''"
    and m3: "checkpoint synced_row
               \<le> checkpoint (mark_success 0 (Some ''2024-01-05T10:30:00Z'') synced_row)"
    by blast+
  from m1 m4 wm1 wm4 have
    "watermark resumed_world (1, CUSTOMER) \<le> Some ''2024-01-05T10:30:00Z''"
    "watermark resumed_world (4, INVOICE) \<le> Some ''2023-12-31T00:00:00Z''"
    by simp_all
  with run old1 old4 sc m3 cs show ?thesis
    by simp
qed

subsection \<open>C9: what mark\_failed and mark\_success change\<close>

text \<open>
  C9. \<open>mark_failed\<close> sets the status to failed, records the error message and adds one to
  the consecutive-failure counter; every other field of the sync state, the checkpoint
  and the last-successful-sync instant among them, is as before, on the object and in
  the stored row, and nothing else in the store changes. \<open>mark_success\<close> sets the status to
  success, the consecutive-failure counter to zero and the error message to none, on
  the object and in the stored row.
\<close>

theorem mark_failed_mark_success_effects:
  "status (mark_failed msg s) = FAILED
   \<and> error_message (mark_failed msg s) = Some msg
   \<and> consecutive_failures (mark_failed msg s) = consecutive_failures s + 1
   \<and> checkpoint (mark_failed msg s) = checkpoint s
   \<and> last_successful_sync_time (mark_failed msg s) = last_successful_sync_time s
   \<and> (mark_failed msg s)\<lparr>status := a, error_message := b, consecutive_failures := c\<rparr>
       = s\<lparr>status := a, error_message := b, consecutive_failures := c\<rparr>
   \<and> map_option (\<lambda>row. row\<lparr>status := a, error_message := b, consecutive_failures := c\<rparr>)
         (sync_states (snd (call_mark_failed key msg s w)) k)
       = map_option (\<lambda>row. row\<lparr>status := a, error_message := b, consecutive_failures := c\<rparr>)
           (sync_states w k)
   \<and> map_option (\<lambda>row. (status row, error_message row, consecutive_failures row))
         (sync_states (snd (call_mark_failed key msg s w)) key)
       = map_option (\<lambda>row. (FAILED, Some msg, consecutive_failures s + 1))
           (sync_states w key)
   \<and> (snd (call_mark_failed key msg s w))\<lparr>sync_states := sync_states w\<rparr> = w
   \<and> status (mark_success t ckpt s) = SUCCESS
   \<and> consecutive_failures (mark_success t ckpt s) = 0
   \<and> error_message (mark_success t ckpt s) = None
   \<and> map_option (\<lambda>row. (status row, consecutive_failures row, error_message row))
         (sync_states (snd (call_mark_success key ckpt s w)) key)
       = map_option (\<lambda>row. (SUCCESS, 0, None)) (sync_states w key)"
  by (simp add: mark_failed_def mark_success_def call_mark_failed_def call_mark_success_def
      save_fields_def failed_fields_def success_fields_def now_def Let_def
      split: option.splits)

subsection \<open>C8: upsert is idempotent on the key\<close>

lemma filter_map_same:
  "(\<And>x. P (f x) = P x) \<Longrightarrow> filter P (map f xs) = map f (filter P xs)"
  by (induction xs) auto

lemma Customer_upsert_result:
  assumes "Customer_upsert acct qbo_id d s t rows = Inr rows1"
  shows "\<exists>i. qbo_id = Some i
           \<and> filter (customer_matches (pk acct) qbo_id) rows1
               = [\<lparr>customer_account = pk acct, customer_qbo_id = i, customer_raw_data = d,
                   customer_sync_token = s, customer_last_updated_time = t\<rparr>]
           \<and> filter (\<lambda>row. \<not> customer_matches (pk acct) qbo_id row) rows1
               = filter (\<lambda>row. \<not> customer_matches (pk acct) qbo_id row) rows
           \<and> length rows1
               = length rows + (if filter (customer_matches (pk acct) qbo_id) rows = [] then 1 else 0)"
proof (cases "filter (customer_matches (pk acct) qbo_id) rows")
  case Nil
  with assms obtain i where i: "qbo_id = Some i"
    and r: "rows1 = rows @ [\<lparr>customer_account = pk acct, customer_qbo_id = i,
                customer_raw_data = d, customer_sync_token = s,
                customer_last_updated_time = t\<rparr>]"
    by (auto simp: Customer_upsert_def split: option.splits)
  show ?thesis using Nil by (simp add: i r customer_matches_def)
next
  case (Cons found more)
  let ?f = "\<lambda>row. if customer_matches (pk acct) qbo_id row
                  then row\<lparr>customer_raw_data := d, customer_sync_token := s,
                           customer_last_updated_time := t\<rparr>
                  else row"
  from assms Cons have more: "more = []" and r: "rows1 = map ?f rows"
    by (auto simp: Customer_upsert_def split: list.splits)
  have "found \<in> set (filter (customer_matches (pk acct) qbo_id) rows)"
    by (simp add: Cons)
  then have m: "customer_matches (pk acct) qbo_id found" by simp
  then obtain i where i: "qbo_id = Some i" "customer_qbo_id found = i"
    "customer_account found = pk acct"
    by (auto simp: customer_matches_def)
  have same: "\<And>x. customer_matches (pk acct) qbo_id (?f x) = customer_matches (pk acct) qbo_id x"
    by (simp add: customer_matches_def)
  have "filter (customer_matches (pk acct) qbo_id) rows1 = map ?f [found]"
    unfolding r using filter_map_same [of "customer_matches (pk acct) qbo_id" ?f rows, OF same]
    by (simp add: Cons more)
  moreover have "?f found = \<lparr>customer_account = pk acct, customer_qbo_id = i,
      customer_raw_data = d, customer_sync_token = s, customer_last_updated_time = t\<rparr>"
    using m i by (cases found) simp
  moreover have "filter (\<lambda>row. \<not> customer_matches (pk acct) qbo_id row) rows1
      = filter (\<lambda>row. \<not> customer_matches (pk acct) qbo_id row) rows"
    unfolding r by (induction rows) (auto simp: customer_matches_def)
  ultimately show ?thesis using i(1) Cons by (simp add: r)
qed

lemma Customer_upsert_again:
  assumes "filter (customer_matches (pk acct) qbo_id) rows1 = [found]"
  shows "\<exists>rows2. Customer_upsert acct qbo_id d s t rows1 = Inr rows2"
  using assms by (simp add: Customer_upsert_def)

lemma Invoice_upsert_result:
  assumes "Invoice_upsert acct qbo_id d cr s t rows = Inr rows1"
  shows "\<exists>i. qbo_id = Some i
           \<and> filter (invoice_matches (pk acct) qbo_id) rows1
               = [\<lparr>invoice_account = pk acct, invoice_qbo_id = i,
                   invoice_customer_ref = resolve_customer_ref cr d, invoice_raw_data = d,
                   invoice_sync_token = s, invoice_last_updated_time = t\<rparr>]
           \<and> filter (\<lambda>row. \<not> invoice_matches (pk acct) qbo_id row) rows1
               = filter (\<lambda>row. \<not> invoice_matches (pk acct) qbo_id row) rows
           \<and> length rows1
               = length rows + (if filter (invoice_matches (pk acct) qbo_id) rows = [] then 1 else 0)"
proof (cases "filter (invoice_matches (pk acct) qbo_id) rows")
  case Nil
  with assms obtain i where i: "qbo_id = Some i"
    and r: "rows1 = rows @ [\<lparr>invoice_account = pk acct, invoice_qbo_id = i,
                invoice_customer_ref = resolve_customer_ref cr d, invoice_raw_data = d,
                invoice_sync_token = s, invoice_last_updated_time = t\<rparr>]"
    by (auto simp: Invoice_upsert_def Let_def split: option.splits)
  show ?thesis using Nil by (simp add: i r invoice_matches_def)
next
  case (Cons found more)
  let ?f = "\<lambda>row. if invoice_matches (pk acct) qbo_id row
                  then row\<lparr>invoice_raw_data := d,
                           invoice_customer_ref := resolve_customer_ref cr d,
                           invoice_sync_token := s, invoice_last_updated_time := t\<rparr>
                  else row"
  from assms Cons have more: "more = []" and r: "rows1 = map ?f rows"
    by (auto simp: Invoice_upsert_def Let_def split: list.splits)
  have "found \<in> set (filter (invoice_matches (pk acct) qbo_id) rows)"
    by (simp add: Cons)
  then have m: "invoice_matches (pk acct) qbo_id found" by simp
  then obtain i where i: "qbo_id = Some i" "invoice_qbo_id found = i"
    "invoice_account found = pk acct"
    by (auto simp: invoice_matches_def)
  have same: "\<And>x. invoice_matches (pk acct) qbo_id (?f x) = invoice_matches (pk acct) qbo_id x"
    by (simp add: invoice_matches_def)
  have "filter (invoice_matches (pk acct) qbo_id) rows1 = map ?f [found]"
    unfolding r using filter_map_same [of "invoice_matches (pk acct) qbo_id" ?f rows, OF same]
    by (simp add: Cons more)
  moreover have "?f found = \<lparr>invoice_account = pk acct, invoice_qbo_id = i,
      invoice_customer_ref = resolve_customer_ref cr d, invoice_raw_data = d,
      invoice_sync_token = s, invoice_last_updated_time = t\<rparr>"
    using m i by (cases found) simp
  moreover have "filter (\<lambda>row. \<not> invoice_matches (pk acct) qbo_id row) rows1
      = filter (\<lambda>row. \<not> invoice_matches (pk acct) qbo_id row) rows"
    unfolding r by (induction rows) (auto simp: invoice_matches_def)
  ultimately show ?thesis using i(1) Cons by (simp add: r)
qed

lemma Invoice_upsert_again:
  assumes "filter (invoice_matches (pk acct) qbo_id) rows1 = [found]"
  shows "\<exists>rows2. Invoice_upsert acct qbo_id d cr s t rows1 = Inr rows2"
  using assms by (simp add: Invoice_upsert_def Let_def)


text \<open>
  C8. Upserting one external id twice for one account, with the same or with a new
  payload, leaves exactly one stored row for that (account, external id) key: when the
  first upsert has succeeded the second one succeeds too, adds no row, leaves every row
  of another key as it was, and the one row of the key holds the payload, the sync
  token and the last-updated instant of the second call (and, for an invoice, the
  customer reference that the second call resolves). This holds of \<open>Customer.upsert\<close> and
  of \<open>Invoice.upsert\<close>.
\<close>

theorem upsert_twice_one_row:
  "(Customer_upsert acct qbo_id d1 s1 t1 rows = Inr rows1 \<longrightarrow>
      (\<exists>rows2. Customer_upsert acct qbo_id d2 s2 t2 rows1 = Inr rows2
         \<and> filter (customer_matches (pk acct) qbo_id) rows2
             = [\<lparr>customer_account = pk acct, customer_qbo_id = the qbo_id,
                 customer_raw_data = d2, customer_sync_token = s2,
                 customer_last_updated_time = t2\<rparr>]
         \<and> length rows2 = length rows1
         \<and> filter (\<lambda>row. \<not> customer_matches (pk acct) qbo_id row) rows2
             = filter (\<lambda>row. \<not> customer_matches (pk acct) qbo_id row) rows1))
   \<and> (Invoice_upsert acct qbo_id e1 c1 u1 v1 irows = Inr irows1 \<longrightarrow>
      (\<exists>irows2. Invoice_upsert acct qbo_id e2 c2 u2 v2 irows1 = Inr irows2
         \<and> filter (invoice_matches (pk acct) qbo_id) irows2
             = [\<lparr>invoice_account = pk acct, invoice_qbo_id = the qbo_id,
                 invoice_customer_ref = resolve_customer_ref c2 e2, invoice_raw_data = e2,
                 invoice_sync_token = u2, invoice_last_updated_time = v2\<rparr>]
         \<and> length irows2 = length irows1
         \<and> filter (\<lambda>row. \<not> invoice_matches (pk acct) qbo_id row) irows2
             = filter (\<lambda>row. \<not> invoice_matches (pk acct) qbo_id row) irows1))"
proof (intro conjI impI)
  assume first: "Customer_upsert acct qbo_id d1 s1 t1 rows = Inr rows1"
  from Customer_upsert_result [OF first] obtain found where
    one: "filter (customer_matches (pk acct) qbo_id) rows1 = [found]"
    by auto
  from Customer_upsert_again [OF one, where d=d2 and s=s2 and t=t2] obtain rows2 where
    second: "Customer_upsert acct qbo_id d2 s2 t2 rows1 = Inr rows2"
    by auto
  from Customer_upsert_result [OF second] one second
  show "\<exists>rows2. Customer_upsert acct qbo_id d2 s2 t2 rows1 = Inr rows2
         \<and> filter (customer_matches (pk acct) qbo_id) rows2
             = [\<lparr>customer_account = pk acct, customer_qbo_id = the qbo_id,
                 customer_raw_data = d2, customer_sync_token = s2,
                 customer_last_updated_time = t2\<rparr>]
         \<and> length rows2 = length rows1
         \<and> filter (\<lambda>row. \<not> customer_matches (pk acct) qbo_id row) rows2
             = filter (\<lambda>row. \<not> customer_matches (pk acct) qbo_id row) rows1"
    by auto
next
  assume first: "Invoice_upsert acct qbo_id e1 c1 u1 v1 irows = Inr irows1"
  from Invoice_upsert_result [OF first] obtain found where
    one: "filter (invoice_matches (pk acct) qbo_id) irows1 = [found]"
    by auto
  from Invoice_upsert_again [OF one, where d=e2 and cr=c2 and s=u2 and t=v2] obtain irows2 where
    second: "Invoice_upsert acct qbo_id e2 c2 u2 v2 irows1 = Inr irows2"
    by auto
  from Invoice_upsert_result [OF second] one second
  show "\<exists>irows2. Invoice_upsert acct qbo_id e2 c2 u2 v2 irows1 = Inr irows2
         \<and> filter (invoice_matches (pk acct) qbo_id) irows2
             = [\<lparr>invoice_account = pk acct, invoice_qbo_id = the qbo_id,
                 invoice_customer_ref = resolve_customer_ref c2 e2, invoice_raw_data = e2,
                 invoice_sync_token = u2, invoice_last_updated_time = v2\<rparr>]
         \<and> length irows2 = length irows1
         \<and> filter (\<lambda>row. \<not> invoice_matches (pk acct) qbo_id row) irows2
             = filter (\<lambda>row. \<not> invoice_matches (pk acct) qbo_id row) irows1"
    by auto
qed

theorem upsert_twice_one_row_witness:
  "Customer_upsert (hd demo_accounts) (Some ''1'') customer_1 (Some ''0'') None []
     = Inr [\<lparr>customer_account = 1, customer_qbo_id = ''1'', customer_raw_data = customer_1,
             customer_sync_token = Some ''0'', customer_last_updated_time = None\<rparr>]
   \<and> Invoice_upsert (hd demo_accounts) (Some ''1'') invoice_1 None (Some ''1'') None []
     = Inr [\<lparr>invoice_account = 1, invoice_qbo_id = ''1'', invoice_customer_ref = Some ''1'',
             invoice_raw_data = invoice_1, invoice_sync_token = Some ''1'',
             invoice_last_updated_time = None\<rparr>]
   \<and> (\<exists>rows2. Customer_upsert (hd demo_accounts) (Some ''1'') customer_2 (Some ''3'') (Some 7)
          [\<lparr>customer_account = 1, customer_qbo_id = ''1'', customer_raw_data = customer_1,
            customer_sync_token = Some ''0'', customer_last_updated_time = None\<rparr>] = Inr rows2
        \<and> length rows2 = 1)
   \<and> (\<exists>irows2. Invoice_upsert (hd demo_accounts) (Some ''1'') invoice_1 (Some ''2'') None (Some 7)
          [\<lparr>invoice_account = 1, invoice_qbo_id = ''1'', invoice_customer_ref = Some ''1'',
            invoice_raw_data = invoice_1, invoice_sync_token = Some ''1'',
            invoice_last_updated_time = None\<rparr>] = Inr irows2
        \<and> length irows2 = 1)"
proof -
  have c: "Customer_upsert (hd demo_accounts) (Some ''1'') customer_1 (Some ''0'') None []
     = Inr [\<lparr>customer_account = 1, customer_qbo_id = ''1'', customer_raw_data = customer_1,
             customer_sync_token = Some ''0'', customer_last_updated_time = None\<rparr>]"
    by (simp add: Customer_upsert_def demo_accounts_def)
  have i: "Invoice_upsert (hd demo_accounts) (Some ''1'') invoice_1 None (Some ''1'') None []
     = Inr [\<lparr>invoice_account = 1, invoice_qbo_id = ''1'', invoice_customer_ref = Some ''1'',
             invoice_raw_data = invoice_1, invoice_sync_token = Some ''1'',
             invoice_last_updated_time = None\<rparr>]"
    by (simp add: Invoice_upsert_def demo_accounts_def resolve_customer_ref_def invoice_1_def)
  let ?row = "\<lparr>customer_account = 1, customer_qbo_id = ''1'', customer_raw_data = customer_1,
             customer_sync_token = Some ''0'', customer_last_updated_time = None\<rparr>"
  let ?irow = "\<lparr>invoice_account = 1, invoice_qbo_id = ''1'', invoice_customer_ref = Some ''1'',
             invoice_raw_data = invoice_1, invoice_sync_token = Some ''1'',
             invoice_last_updated_time = None\<rparr>"
  note inst = upsert_twice_one_row [where acct="hd demo_accounts" and qbo_id="Some ''1''"
      and ?d1.0=customer_1 and ?s1.0="Some ''0''" and ?t1.0=None and rows="[]"
      and ?rows1.0="[?row]" and ?d2.0=customer_2 and ?s2.0="Some ''3''" and ?t2.0="Some 7"
      and ?e1.0=invoice_1 and ?c1.0=None and ?u1.0="Some ''1''" and ?v1.0=None and irows="[]"
      and ?irows1.0="[?irow]" and ?e2.0=invoice_1 and ?c2.0="Some ''2''" and ?u2.0=None
      and ?v2.0="Some 7"]
  from inst c obtain rows2 where
    "Customer_upsert (hd demo_accounts) (Some ''1'') customer_2 (Some ''3'') (Some 7) [?row]
       = Inr rows2" "length rows2 = 1"
    by auto
  moreover from inst i obtain irows2 where
    "Invoice_upsert (hd demo_accounts) (Some ''1'') invoice_1 (Some ''2'') None (Some 7) [?irow]
       = Inr irows2" "length irows2 = 1"
    by auto
  ultimately have
    "(\<exists>rows2. Customer_upsert (hd demo_accounts) (Some ''1'') customer_2 (Some ''3'') (Some 7)
          [?row] = Inr rows2 \<and> length rows2 = 1)
     \<and> (\<exists>irows2. Invoice_upsert (hd demo_accounts) (Some ''1'') invoice_1 (Some ''2'') None
          (Some 7) [?irow] = Inr irows2 \<and> length irows2 = 1)"
    by blast
  with c i show ?thesis by simp
qed

subsection \<open>C10: records without a usable timestamp\<close>

lemma parse_falsy: "\<not> truthy s \<Longrightarrow> parse_last_updated_time from_iso s = None"
  by (simp add: parse_last_updated_time_def)

lemma update_checkpoint_falsy: "\<not> truthy s \<Longrightarrow> update_checkpoint c s = c"
  by (simp add: update_checkpoint_def)

lemma update_checkpoint_truthy:
  "truthy s \<Longrightarrow> update_checkpoint c s = (if truthy c \<and> \<not> the c < the s then c else s)"
  by (auto simp: update_checkpoint_def)

text \<open>
  C10, as the claim states it, fails: a customer whose \<open>LastUpdatedTime\<close> is the
  string \<open>not-a-date\<close>, which the ISO parser rejects, is stored with no last-updated
  instant and counted, and moves the running checkpoint from
  \<open>2024-01-01T00:00:00Z\<close> to \<open>not-a-date\<close>.
\<close>

theorem unparseable_timestamp_counterexample:
  "parse_last_updated_time (fromisoformat demo_world) (last_updated_str customer_3) = None
   \<and> customer_records (hd demo_accounts) (fromisoformat demo_world) [customer_3]
         (0, Some ''2024-01-01T00:00:00Z'') []
       = Inr ((1, Some ''not-a-date''),
              [\<lparr>customer_account = 1, customer_qbo_id = ''9'', customer_raw_data = customer_3,
                customer_sync_token = Some ''0'', customer_last_updated_time = None\<rparr>])
   \<and> Some ''not-a-date'' \<noteq> Some ''2024-01-01T00:00:00Z''"
  by (simp add: parse_last_updated_time_def last_updated_str_def customer_3_def demo_world_def
      update_checkpoint_def Customer_upsert_def customer_matches_def demo_accounts_def)

text \<open>
  C10, amended. A record whose \<open>LastUpdatedTime\<close> is missing, empty or rejected by the
  ISO parser is still upserted, with no last-updated instant, and counted in the
  processed total, by \<open>sync_customers\<close> and by \<open>sync_invoices\<close>. When the string is missing
  or empty the running checkpoint stays as it is. When it is a non-empty string that
  the parser rejects, the running checkpoint is compared with the raw string like any
  other: it becomes that string when there is no checkpoint yet or the string is
  greater, and stays otherwise. In every case the checkpoint changes only to a
  non-empty string that is strictly greater than the current value.
\<close>

theorem record_without_parsed_timestamp:
  "(\<not> truthy (last_updated_str x)
      \<longrightarrow> parse_last_updated_time from_iso (last_updated_str x) = None
          \<and> update_checkpoint c (last_updated_str x) = c)
   \<and> (parse_last_updated_time from_iso (last_updated_str x) = None
      \<longrightarrow> Customer_upsert acct (ent_Id x) x (ent_SyncToken x) None rows = Inr rows1
      \<longrightarrow> customer_records acct from_iso (x # rest) (n, c) rows
          = customer_records acct from_iso rest
              (n + 1, update_checkpoint c (last_updated_str x)) rows1)
   \<and> (parse_last_updated_time from_iso (last_updated_str x) = None
      \<longrightarrow> Invoice_upsert acct (ent_Id x) x
            (case ent_CustomerRef x of None \<Rightarrow> None | Some ref \<Rightarrow> ref)
            (ent_SyncToken x) None irows = Inr irows1
      \<longrightarrow> invoice_records acct from_iso (x # rest) (n, c) irows
          = invoice_records acct from_iso rest
              (n + 1, update_checkpoint c (last_updated_str x)) irows1)
   \<and> (truthy (last_updated_str x)
      \<longrightarrow> update_checkpoint c (last_updated_str x)
          = (if truthy c \<and> \<not> the c < the (last_updated_str x) then c
             else last_updated_str x))
   \<and> (update_checkpoint c (last_updated_str x) \<noteq> c
      \<longrightarrow> truthy (last_updated_str x) \<and> c < last_updated_str x
          \<and> update_checkpoint c (last_updated_str x) = last_updated_str x)"
  using update_checkpoint_cases [of c "last_updated_str x"]
  by (auto simp: parse_falsy update_checkpoint_falsy update_checkpoint_truthy Let_def)

theorem record_without_parsed_timestamp_witness:
  "\<not> truthy (last_updated_str customer_4)
   \<and> truthy (last_updated_str customer_3)
   \<and> parse_last_updated_time (fromisoformat demo_world) (last_updated_str customer_3) = None
   \<and> update_checkpoint (Some ''2024-01-01T00:00:00Z'') (last_updated_str customer_3)
       \<noteq> Some ''2024-01-01T00:00:00Z''
   \<and> update_checkpoint (Some ''2024-01-01T00:00:00Z'') (last_updated_str customer_4)
       = Some ''2024-01-01T00:00:00Z''
   \<and> customer_records (hd demo_accounts) (fromisoformat demo_world) [customer_3, customer_4]
         (0, Some ''2024-01-01T00:00:00Z'') []
       = customer_records (hd demo_accounts) (fromisoformat demo_world) [customer_4]
           (1, Some ''not-a-date'')
           [\<lparr>customer_account = 1, customer_qbo_id = ''9'', customer_raw_data = customer_3,
             customer_sync_token = Some ''0'', customer_last_updated_time = None\<rparr>]
   \<and> invoice_records (hd demo_accounts) (fromisoformat demo_world) [customer_3, customer_4]
         (0, Some ''2024-01-01T00:00:00Z'') []
       = invoice_records (hd demo_accounts) (fromisoformat demo_world) [customer_4]
           (1, Some ''not-a-date'')
           [\<lparr>invoice_account = 1, invoice_qbo_id = ''9'', invoice_customer_ref = None,
             invoice_raw_data = customer_3, invoice_sync_token = Some ''0'',
             invoice_last_updated_time = None\<rparr>]"
proof -
  let ?c = "Some ''2024-01-01T00:00:00Z''"
  let ?row = "\<lparr>customer_account = 1, customer_qbo_id = ''9'', customer_raw_data = customer_3,
             customer_sync_token = Some ''0'', customer_last_updated_time = None\<rparr>"
  let ?irow = "\<lparr>invoice_account = 1, invoice_qbo_id = ''9'', invoice_customer_ref = None,
             invoice_raw_data = customer_3, invoice_sync_token = Some ''0'',
             invoice_last_updated_time = None\<rparr>"
  have f4: "\<not> truthy (last_updated_str customer_4)"
    by (simp add: last_updated_str_def customer_4_def)
  have t3: "truthy (last_updated_str customer_3)"
    by (simp add: last_updated_str_def customer_3_def)
  have s3: "last_updated_str customer_3 = Some ''not-a-date''"
    by (simp add: last_updated_str_def customer_3_def)
  have p3: "parse_last_updated_time (fromisoformat demo_world) (last_updated_str customer_3) = None"
    by (simp add: parse_last_updated_time_def s3 demo_world_def)
  have u3: "Customer_upsert (hd demo_accounts) (ent_Id customer_3) customer_3
              (ent_SyncToken customer_3) None [] = Inr [?row]"
    by (simp add: Customer_upsert_def demo_accounts_def customer_3_def)
  have i3: "Invoice_upsert (hd demo_accounts) (ent_Id customer_3) customer_3
              (case ent_CustomerRef customer_3 of None \<Rightarrow> None | Some ref \<Rightarrow> ref)
              (ent_SyncToken customer_3) None [] = Inr [?irow]"
    by (simp add: Invoice_upsert_def demo_accounts_def customer_3_def resolve_customer_ref_def)
  note a = record_without_parsed_timestamp [where x=customer_3 and c="?c"
      and from_iso="fromisoformat demo_world" and acct="hd demo_accounts" and rows="[]"
      and ?rows1.0="[?row]" and irows="[]" and ?irows1.0="[?irow]" and rest="[customer_4]"
      and n=0]
  note b = record_without_parsed_timestamp [where x=customer_4 and c="?c"]
  have c3: "update_checkpoint ?c (last_updated_str customer_3) = Some ''not-a-date''"
    using a t3 by (simp add: s3)
  from a b f4 t3 p3 u3 i3 c3 show ?thesis by (simp add: s3)
qed

subsection \<open>C6: when and how the token manager refreshes\<close>

lemma refresh_tokens_rejected:
  assumes "token_endpoint w (length (token_requests w)) (sdk_refresh_token sdk)
             = TokenResponse response"
    and "tr_status_code response \<noteq> 200"
  shows "\<exists>m. refresh_tokens sdk w
           = (Inl (if invalid_grant response then InvalidGrantError m
                   else AuthenticationError m),
              sdk, w\<lparr>token_requests := token_requests w @ [sdk_refresh_token sdk]\<rparr>)"
  using assms
  by (auto simp: refresh_tokens_def requests_post_def invalid_grant_def Let_def
      split: option.splits)

lemma refresh_tokens_transport:
  assumes "token_endpoint w (length (token_requests w)) (sdk_refresh_token sdk)
             = TokenTransportError m"
  shows "refresh_tokens sdk w
           = (Inl (RequestException m), sdk,
              w\<lparr>token_requests := token_requests w @ [sdk_refresh_token sdk]\<rparr>)"
  using assms by (simp add: refresh_tokens_def requests_post_def)

lemma sdk_on_token_refresh_update_api_tokens [simp]:
  "sdk_on_token_refresh (update_api_tokens sdk) = sdk_on_token_refresh sdk"
  by (simp add: update_api_tokens_def)

lemma refresh_tokens_success:
  assumes "refresh_tokens sdk w = (Inr u, sdk1, w1)"
  shows "\<exists>response token_data access_tok refresh_tok.
           token_endpoint w (length (token_requests w)) (sdk_refresh_token sdk)
             = TokenResponse response
           \<and> tr_status_code response = 200
           \<and> tr_json response = Some token_data
           \<and> tj_access_token token_data = Some access_tok
           \<and> tj_refresh_token token_data = Some refresh_tok
           \<and> (let expires_at = clock w (clock_reads w)
                     + timedelta_seconds (case tj_expires_in token_data of
                                            None \<Rightarrow> 3600 | Some n \<Rightarrow> n);
                   w0 = w\<lparr>token_requests := token_requests w @ [sdk_refresh_token sdk],
                          clock_reads := Suc (clock_reads w)\<rparr>
               in sdk1 = update_api_tokens
                           (sdk\<lparr>sdk_access_token := Some access_tok,
                                sdk_refresh_token := refresh_tok,
                                sdk_token_expires_at := Some expires_at\<rparr>)
                  \<and> (case sdk_on_token_refresh sdk of
                        None \<Rightarrow> w1 = w0
                      | Some callback \<Rightarrow>
                          callback access_tok refresh_tok expires_at w0 = Inr w1))"
proof -
  obtain reply where reply: "token_endpoint w (length (token_requests w)) (sdk_refresh_token sdk) = reply"
    by simp
  let ?w0 = "w\<lparr>token_requests := token_requests w @ [sdk_refresh_token sdk]\<rparr>"
  from assms reply obtain response where resp: "reply = TokenResponse response"
    and ok: "tr_status_code response = 200"
    and st: "store_tokens response sdk ?w0 = (Inr u, sdk1, w1)"
    by (cases reply)
      (auto simp: refresh_tokens_def requests_post_def Let_def split: if_splits option.splits)
  from st obtain token_data where j: "tr_json response = Some token_data"
    by (auto simp: store_tokens_def split: option.splits)
  from st j obtain access_tok where a: "tj_access_token token_data = Some access_tok"
    by (auto simp: store_tokens_def split: option.splits)
  from st j a obtain refresh_tok where r: "tj_refresh_token token_data = Some refresh_tok"
    by (auto simp: store_tokens_def Let_def split: option.splits)
  let ?exp = "clock w (clock_reads w)
                + timedelta_seconds (case tj_expires_in token_data of None \<Rightarrow> 3600 | Some n \<Rightarrow> n)"
  let ?w1 = "w\<lparr>token_requests := token_requests w @ [sdk_refresh_token sdk],
                clock_reads := Suc (clock_reads w)\<rparr>"
  have sdk1: "sdk1 = update_api_tokens
                       (sdk\<lparr>sdk_access_token := Some access_tok,
                            sdk_refresh_token := refresh_tok,
                            sdk_token_expires_at := Some ?exp\<rparr>)"
    using st j a r
    by (auto simp: store_tokens_def Let_def now_def split: option.splits sum.splits)
  have cbk: "case sdk_on_token_refresh sdk of
               None \<Rightarrow> w1 = ?w1
             | Some callback \<Rightarrow> callback access_tok refresh_tok ?exp ?w1 = Inr w1"
    using st j a r
    by (auto simp: store_tokens_def Let_def now_def split: option.splits sum.splits)
  show ?thesis
    unfolding reply resp Let_def
    using ok j a r sdk1 cbk by blast
qed


lemma on_token_refresh_rows:
  assumes "on_token_refresh acct access_tok refresh_tok expires_at w = Inr w1"
  shows "\<forall>a \<in> set (accounts w1). pk a = pk acct \<longrightarrow>
           access_token a = Some access_tok \<and> refresh_token a = refresh_tok
           \<and> access_token_expires_at a = Some expires_at \<and> \<not> is_token_expired a"
    and "token_requests w1 = token_requests w"
    and "map pk (accounts w1) = map pk (accounts w)"
  using assms by (auto simp: on_token_refresh_def split: list.splits)

lemma store_tokens_log:
  assumes "sdk_on_token_refresh sdk = None \<or> sdk_on_token_refresh sdk = Some (on_token_refresh acct)"
    and "store_tokens response sdk w = (r, sdk1, w1)"
  shows "token_requests w1 = token_requests w"
  using assms
  by (auto simp: store_tokens_def Let_def now_def
      split: option.splits sum.splits dest: on_token_refresh_rows(2))

lemma refresh_tokens_log:
  assumes "sdk_on_token_refresh sdk = None \<or> sdk_on_token_refresh sdk = Some (on_token_refresh acct)"
    and "refresh_tokens sdk w = (r, sdk1, w1)"
  shows "token_requests w1 = token_requests w @ [sdk_refresh_token sdk]"
proof (cases "token_endpoint w (length (token_requests w)) (sdk_refresh_token sdk)")
  case (TokenTransportError m)
  from refresh_tokens_transport [OF this] assms(2) show ?thesis by auto
next
  case (TokenResponse response)
  show ?thesis
  proof (cases "tr_status_code response = 200")
    case False
    from refresh_tokens_rejected [OF TokenResponse False] assms(2) show ?thesis by auto
  next
    case True
    with assms(2) TokenResponse have
      "store_tokens response sdk (w\<lparr>token_requests := token_requests w @ [sdk_refresh_token sdk]\<rparr>)
         = (r, sdk1, w1)"
      by (simp add: refresh_tokens_def requests_post_def)
    from store_tokens_log [OF assms(1) this] show ?thesis by simp
  qed
qed

lemma ensure_token_valid_eq:
  "ensure_token_valid sdk w =
     (let w0 = (if sdk_access_token sdk = None \<or> sdk_token_expires_at sdk = None then w
                else w\<lparr>clock_reads := Suc (clock_reads w)\<rparr>)
      in if refresh_due (sdk_access_token sdk) (sdk_token_expires_at sdk)
              (clock w (clock_reads w))
         then refresh_tokens sdk w0 else (Inr (), sdk, w0))"
  by (auto simp: ensure_token_valid_def refresh_due_def now_def Let_def split: option.splits)


text \<open>
  C6. \<open>ensure_token_valid\<close> performs a refresh exchange exactly when no access token is
  held or the known expiry instant is within five minutes of now or already passed,
  and then it performs one exchange and no more, whatever the answer (there is no retry
  in the token manager). A successful exchange replaces the access token, the refresh
  token and the expiry together, hands the new access token to the API resources, and
  calls the persistence callback with the new (access token, refresh token, expiry)
  triple; with the callback of the client factory the account's row then holds the
  triple. An answer other than 200 whose body names \<open>invalid_grant\<close> raises
  \<open>InvalidGrantError\<close>, every other answer other than 200 raises \<open>AuthenticationError\<close>, and
  in both cases the held tokens stay as they were.
\<close>

theorem ensure_token_valid_refresh:
  assumes cb: "sdk_on_token_refresh sdk = None
               \<or> sdk_on_token_refresh sdk = Some (on_token_refresh acct)"
    and run: "ensure_token_valid sdk w = (r, sdk1, w1)"
  shows
    "(let due = refresh_due (sdk_access_token sdk) (sdk_token_expires_at sdk)
                  (clock w (clock_reads w));
          reply = token_endpoint w (length (token_requests w)) (sdk_refresh_token sdk);
          w0 = (if sdk_access_token sdk = None \<or> sdk_token_expires_at sdk = None then w
                else w\<lparr>clock_reads := Suc (clock_reads w)\<rparr>)
      in token_requests w1
           = (if due then token_requests w @ [sdk_refresh_token sdk] else token_requests w)
         \<and> (\<not> due \<longrightarrow> r = Inr () \<and> sdk1 = sdk \<and> w1 = w0)
         \<and> (due \<longrightarrow>
              (\<forall>response. reply = TokenResponse response \<longrightarrow> tr_status_code response \<noteq> 200
                 \<longrightarrow> sdk1 = sdk
                     \<and> (\<exists>m. r = Inl (if invalid_grant response then InvalidGrantError m
                                      else AuthenticationError m))))
         \<and> (due \<longrightarrow> r = Inr () \<longrightarrow>
              (\<exists>response token_data access_tok refresh_tok expires_at.
                  reply = TokenResponse response
                  \<and> tr_status_code response = 200
                  \<and> tr_json response = Some token_data
                  \<and> tj_access_token token_data = Some access_tok
                  \<and> tj_refresh_token token_data = Some refresh_tok
                  \<and> expires_at = clock w (clock_reads w0)
                        + timedelta_seconds (case tj_expires_in token_data of
                                               None \<Rightarrow> 3600 | Some n \<Rightarrow> n)
                  \<and> sdk1 = update_api_tokens
                              (sdk\<lparr>sdk_access_token := Some access_tok,
                                   sdk_refresh_token := refresh_tok,
                                   sdk_token_expires_at := Some expires_at\<rparr>)
                  \<and> (case sdk_on_token_refresh sdk of
                        None \<Rightarrow>
                          w1 = w0\<lparr>token_requests := token_requests w @ [sdk_refresh_token sdk],
                                  clock_reads := Suc (clock_reads w0)\<rparr>
                      | Some callback \<Rightarrow>
                          callback access_tok refresh_tok expires_at
                            (w0\<lparr>token_requests := token_requests w @ [sdk_refresh_token sdk],
                                 clock_reads := Suc (clock_reads w0)\<rparr>) = Inr w1)
                  \<and> (sdk_on_token_refresh sdk = Some (on_token_refresh acct) \<longrightarrow>
                       (\<forall>a \<in> set (accounts w1). pk a = pk acct \<longrightarrow>
                          access_token a = Some access_tok \<and> refresh_token a = refresh_tok
                          \<and> access_token_expires_at a = Some expires_at
                          \<and> \<not> is_token_expired a)))))"
proof -
  let ?due = "refresh_due (sdk_access_token sdk) (sdk_token_expires_at sdk)
                (clock w (clock_reads w))"
  let ?reply = "token_endpoint w (length (token_requests w)) (sdk_refresh_token sdk)"
  let ?w0 = "if sdk_access_token sdk = None \<or> sdk_token_expires_at sdk = None then w
             else w\<lparr>clock_reads := Suc (clock_reads w)\<rparr>"
  have e: "ensure_token_valid sdk w
             = (if ?due then refresh_tokens sdk ?w0 else (Inr (), sdk, ?w0))"
    using ensure_token_valid_eq [of sdk w] by (simp add: Let_def)
  have tr0: "token_requests ?w0 = token_requests w" and te0: "token_endpoint ?w0 = token_endpoint w"
    and ck0: "clock ?w0 = clock w"
    by simp_all
  show ?thesis
  proof (cases ?due)
    case False
    with e run show ?thesis by (auto simp: Let_def)
  next
    case True
    with e run have rt: "refresh_tokens sdk ?w0 = (r, sdk1, w1)" by simp
    have log: "token_requests w1 = token_requests w @ [sdk_refresh_token sdk]"
      using refresh_tokens_log [OF cb rt] tr0 by simp
    have rej: "\<forall>response. ?reply = TokenResponse response \<longrightarrow> tr_status_code response \<noteq> 200
                 \<longrightarrow> sdk1 = sdk
                     \<and> (\<exists>m. r = Inl (if invalid_grant response then InvalidGrantError m
                                      else AuthenticationError m))"
    proof (intro allI impI)
      fix response
      assume a: "?reply = TokenResponse response" "tr_status_code response \<noteq> 200"
      have "token_endpoint ?w0 (length (token_requests ?w0)) (sdk_refresh_token sdk)
              = TokenResponse response"
        using a(1) by (simp only: tr0 te0)
      from refresh_tokens_rejected [OF this a(2)] rt
      show "sdk1 = sdk \<and> (\<exists>m. r = Inl (if invalid_grant response then InvalidGrantError m
                                        else AuthenticationError m))"
        by auto
    qed
    have suc: "r = Inr () \<longrightarrow>
              (\<exists>response token_data access_tok refresh_tok expires_at.
                  ?reply = TokenResponse response
                  \<and> tr_status_code response = 200
                  \<and> tr_json response = Some token_data
                  \<and> tj_access_token token_data = Some access_tok
                  \<and> tj_refresh_token token_data = Some refresh_tok
                  \<and> expires_at = clock w (clock_reads ?w0)
                        + timedelta_seconds (case tj_expires_in token_data of
                                               None \<Rightarrow> 3600 | Some n \<Rightarrow> n)
                  \<and> sdk1 = update_api_tokens
                              (sdk\<lparr>sdk_access_token := Some access_tok,
                                   sdk_refresh_token := refresh_tok,
                                   sdk_token_expires_at := Some expires_at\<rparr>)
                  \<and> (case sdk_on_token_refresh sdk of
                        None \<Rightarrow>
                          w1 = ?w0\<lparr>token_requests := token_requests w @ [sdk_refresh_token sdk],
                                  clock_reads := Suc (clock_reads ?w0)\<rparr>
                      | Some callback \<Rightarrow>
                          callback access_tok refresh_tok expires_at
                            (?w0\<lparr>token_requests := token_requests w @ [sdk_refresh_token sdk],
                                 clock_reads := Suc (clock_reads ?w0)\<rparr>) = Inr w1)
                  \<and> (sdk_on_token_refresh sdk = Some (on_token_refresh acct) \<longrightarrow>
                       (\<forall>a \<in> set (accounts w1). pk a = pk acct \<longrightarrow>
                          access_token a = Some access_tok \<and> refresh_token a = refresh_tok
                          \<and> access_token_expires_at a = Some expires_at
                          \<and> \<not> is_token_expired a)))"
    proof
      assume "r = Inr ()"
      with rt have "refresh_tokens sdk ?w0 = (Inr (), sdk1, w1)" by simp
      from refresh_tokens_success [OF this]
      obtain response token_data access_tok refresh_tok where
        f: "token_endpoint ?w0 (length (token_requests ?w0)) (sdk_refresh_token sdk)
              = TokenResponse response"
           "tr_status_code response = 200" "tr_json response = Some token_data"
           "tj_access_token token_data = Some access_tok"
           "tj_refresh_token token_data = Some refresh_tok"
        and s1: "sdk1 = update_api_tokens
                   (sdk\<lparr>sdk_access_token := Some access_tok, sdk_refresh_token := refresh_tok,
                        sdk_token_expires_at := Some (clock ?w0 (clock_reads ?w0)
                          + timedelta_seconds (case tj_expires_in token_data of
                                                 None \<Rightarrow> 3600 | Some n \<Rightarrow> n))\<rparr>)"
        and c1: "case sdk_on_token_refresh sdk of
                   None \<Rightarrow> w1 = ?w0\<lparr>token_requests := token_requests ?w0 @ [sdk_refresh_token sdk],
                                     clock_reads := Suc (clock_reads ?w0)\<rparr>
                 | Some callback \<Rightarrow>
                     callback access_tok refresh_tok
                       (clock ?w0 (clock_reads ?w0)
                          + timedelta_seconds (case tj_expires_in token_data of
                                                 None \<Rightarrow> 3600 | Some n \<Rightarrow> n))
                       (?w0\<lparr>token_requests := token_requests ?w0 @ [sdk_refresh_token sdk],
                            clock_reads := Suc (clock_reads ?w0)\<rparr>) = Inr w1"
        unfolding Let_def by blast
      let ?exp = "clock w (clock_reads ?w0)
                    + timedelta_seconds (case tj_expires_in token_data of
                                           None \<Rightarrow> 3600 | Some n \<Rightarrow> n)"
      have f1: "?reply = TokenResponse response" using f(1) by (simp only: tr0 te0)
      have s1': "sdk1 = update_api_tokens
                   (sdk\<lparr>sdk_access_token := Some access_tok, sdk_refresh_token := refresh_tok,
                        sdk_token_expires_at := Some ?exp\<rparr>)"
        using s1 by (simp only: ck0)
      have c1': "case sdk_on_token_refresh sdk of
                   None \<Rightarrow> w1 = ?w0\<lparr>token_requests := token_requests w @ [sdk_refresh_token sdk],
                                     clock_reads := Suc (clock_reads ?w0)\<rparr>
                 | Some callback \<Rightarrow>
                     callback access_tok refresh_tok ?exp
                       (?w0\<lparr>token_requests := token_requests w @ [sdk_refresh_token sdk],
                            clock_reads := Suc (clock_reads ?w0)\<rparr>) = Inr w1"
        using c1 by (simp only: ck0 tr0)
      have rows: "sdk_on_token_refresh sdk = Some (on_token_refresh acct) \<longrightarrow>
                    (\<forall>a \<in> set (accounts w1). pk a = pk acct \<longrightarrow>
                       access_token a = Some access_tok \<and> refresh_token a = refresh_tok
                       \<and> access_token_expires_at a = Some ?exp \<and> \<not> is_token_expired a)"
      proof
        assume "sdk_on_token_refresh sdk = Some (on_token_refresh acct)"
        with c1' have "on_token_refresh acct access_tok refresh_tok ?exp
                         (?w0\<lparr>token_requests := token_requests w @ [sdk_refresh_token sdk],
                              clock_reads := Suc (clock_reads ?w0)\<rparr>) = Inr w1"
          by simp
        from on_token_refresh_rows(1) [OF this]
        show "\<forall>a \<in> set (accounts w1). pk a = pk acct \<longrightarrow>
                access_token a = Some access_tok \<and> refresh_token a = refresh_tok
                \<and> access_token_expires_at a = Some ?exp \<and> \<not> is_token_expired a" .
      qed
      from f1 f(2-5) s1' c1' rows
      show "\<exists>response token_data access_tok refresh_tok expires_at.
                  ?reply = TokenResponse response
                  \<and> tr_status_code response = 200
                  \<and> tr_json response = Some token_data
                  \<and> tj_access_token token_data = Some access_tok
                  \<and> tj_refresh_token token_data = Some refresh_tok
                  \<and> expires_at = clock w (clock_reads ?w0)
                        + timedelta_seconds (case tj_expires_in token_data of
                                               None \<Rightarrow> 3600 | Some n \<Rightarrow> n)
                  \<and> sdk1 = update_api_tokens
                              (sdk\<lparr>sdk_access_token := Some access_tok,
                                   sdk_refresh_token := refresh_tok,
                                   sdk_token_expires_at := Some expires_at\<rparr>)
                  \<and> (case sdk_on_token_refresh sdk of
                        None \<Rightarrow>
                          w1 = ?w0\<lparr>token_requests := token_requests w @ [sdk_refresh_token sdk],
                                  clock_reads := Suc (clock_reads ?w0)\<rparr>
                      | Some callback \<Rightarrow>
                          callback access_tok refresh_tok expires_at
                            (?w0\<lparr>token_requests := token_requests w @ [sdk_refresh_token sdk],
                                 clock_reads := Suc (clock_reads ?w0)\<rparr>) = Inr w1)
                  \<and> (sdk_on_token_refresh sdk = Some (on_token_refresh acct) \<longrightarrow>
                       (\<forall>a \<in> set (accounts w1). pk a = pk acct \<longrightarrow>
                          access_token a = Some access_tok \<and> refresh_token a = refresh_tok
                          \<and> access_token_expires_at a = Some expires_at
                          \<and> \<not> is_token_expired a))"
        by blast
    qed
    from True log rej suc show ?thesis
      unfolding Let_def by (simp only: if_True simp_thms)
  qed
qed


theorem ensure_token_valid_refresh_witness:
  "fst (ensure_token_valid (create_client_for_account (demo_accounts ! 0) demo_world) demo_world)
     = Inr ()
   \<and> token_requests (snd (snd (ensure_token_valid
         (create_client_for_account (demo_accounts ! 0) demo_world) demo_world))) = []
   \<and> fst (ensure_token_valid (create_client_for_account (demo_accounts ! 1) demo_world) demo_world)
     = Inl (InvalidGrantError ''Refresh token invalid: Token revoked'')
   \<and> token_requests (snd (snd (ensure_token_valid
         (create_client_for_account (demo_accounts ! 1) demo_world) demo_world))) = [''bad'']
   \<and> fst (ensure_token_valid (create_client_for_account
         ((demo_accounts ! 0)\<lparr>access_token_expires_at := Some 1704200100000000\<rparr>) demo_world)
         demo_world) = Inr ()
   \<and> token_requests (snd (snd (ensure_token_valid (create_client_for_account
         ((demo_accounts ! 0)\<lparr>access_token_expires_at := Some 1704200100000000\<rparr>) demo_world)
         demo_world))) = [''rt1'']
   \<and> sdk_access_token (fst (snd (ensure_token_valid (create_client_for_account
         ((demo_accounts ! 0)\<lparr>access_token_expires_at := Some 1704200100000000\<rparr>) demo_world)
         demo_world))) = Some ''tok-new''"
proof -
  let ?a1 = "demo_accounts ! 0"
  let ?a2 = "demo_accounts ! 1"
  let ?a3 = "(demo_accounts ! 0)\<lparr>access_token_expires_at := Some 1704200100000000\<rparr>"
  let ?c1 = "create_client_for_account ?a1 demo_world"
  let ?c2 = "create_client_for_account ?a2 demo_world"
  let ?c3 = "create_client_for_account ?a3 demo_world"
  have cb: "\<And>a. sdk_on_token_refresh (create_client_for_account a demo_world) = None
                \<or> sdk_on_token_refresh (create_client_for_account a demo_world)
                    = Some (on_token_refresh a)"
    by (simp add: create_client_callback)
  have run: "\<And>c. ensure_token_valid c demo_world
                 = (fst (ensure_token_valid c demo_world),
                    fst (snd (ensure_token_valid c demo_world)),
                    snd (snd (ensure_token_valid c demo_world)))"
    by simp
  have d1: "\<not> refresh_due (sdk_access_token ?c1) (sdk_token_expires_at ?c1)
                (clock demo_world (clock_reads demo_world))"
    by code_simp
  have d2: "refresh_due (sdk_access_token ?c2) (sdk_token_expires_at ?c2)
              (clock demo_world (clock_reads demo_world))"
    by code_simp
  have d3: "refresh_due (sdk_access_token ?c3) (sdk_token_expires_at ?c3)
              (clock demo_world (clock_reads demo_world))"
    by code_simp
  have t0: "token_requests demo_world = []"
    by (simp add: demo_world_def)
  have r2: "sdk_refresh_token ?c2 = ''bad''" and r3: "sdk_refresh_token ?c3 = ''rt1''"
    by code_simp+
  have e2: "fst (ensure_token_valid ?c2 demo_world)
              = Inl (InvalidGrantError ''Refresh token invalid: Token revoked'')"
    by code_simp
  have e3: "fst (ensure_token_valid ?c3 demo_world) = Inr ()"
    by code_simp
  have s3: "sdk_access_token (fst (snd (ensure_token_valid ?c3 demo_world))) = Some ''tok-new''"
    by code_simp
  from ensure_token_valid_refresh [OF cb run, of ?a1] d1 t0
  have p1: "fst (ensure_token_valid ?c1 demo_world) = Inr ()
            \<and> token_requests (snd (snd (ensure_token_valid ?c1 demo_world))) = []"
    by (simp add: Let_def)
  from ensure_token_valid_refresh [OF cb run, of ?a2] d2 t0 r2
  have p2: "token_requests (snd (snd (ensure_token_valid ?c2 demo_world))) = [''bad'']"
    by (simp add: Let_def)
  from ensure_token_valid_refresh [OF cb run, of ?a3] d3 t0 r3
  have p3: "token_requests (snd (snd (ensure_token_valid ?c3 demo_world))) = [''rt1'']"
    by (simp add: Let_def)
  from p1 p2 p3 e2 e3 s3 show ?thesis by simp
qed

subsection \<open>C5: the retry policy of one HTTP call\<close>

lemma attempt_retryable:
  assumes "get_headers api = Inr headers"
    and "retryable (outcome_of (api_endpoint w (length (api_requests w)) (url, headers)))"
  shows "request_attempts api url (a # rest) le w
           = request_attempts api url rest
               (Some (last_seen (api_endpoint w (length (api_requests w)) (url, headers))))
               (w\<lparr>api_requests := api_requests w @ [(url, headers)],
                  sleeps := sleeps w
                    @ backoff (api_retry_delay api) (api_max_retries api) a
                        (outcome_of (api_endpoint w (length (api_requests w)) (url, headers)))\<rparr>)"
proof (cases "api_endpoint w (length (api_requests w)) (url, headers)")
  case (TransportError m)
  with assms(1) show ?thesis
    by (cases w)
      (auto simp: requests_request_def outcome_of_def backoff_def last_seen_def sleep_def)
next
  case (HttpResponse response)
  from assms(2) HttpResponse have
    k: "status_code response = 429 \<or> (500 \<le> status_code response \<and> status_code response \<noteq> 429)"
    by (auto simp: retryable_def outcome_of_def Let_def split: if_splits)
  then show ?thesis
  proof
    assume "status_code response = 429"
    with assms(1) HttpResponse show ?thesis
      by (cases w)
        (auto simp: requests_request_def outcome_of_def backoff_def last_seen_def sleep_def
          handle_response_def)
  next
    assume "500 \<le> status_code response \<and> status_code response \<noteq> 429"
    with assms(1) HttpResponse show ?thesis
      by (cases w)
        (auto simp: requests_request_def outcome_of_def backoff_def last_seen_def sleep_def
          handle_response_def)
  qed
qed

lemma attempt_final:
  assumes "get_headers api = Inr headers"
    and "\<not> retryable (outcome_of (api_endpoint w (length (api_requests w)) (url, headers)))"
  shows "request_attempts api url (a # rest) le w
           = (final_result (api_endpoint w (length (api_requests w)) (url, headers)),
              w\<lparr>api_requests := api_requests w @ [(url, headers)]\<rparr>)"
proof (cases "api_endpoint w (length (api_requests w)) (url, headers)")
  case (TransportError m)
  with assms(2) show ?thesis by (simp add: retryable_def outcome_of_def)
next
  case (HttpResponse response)
  from assms(2) HttpResponse have
    "status_code response \<noteq> 429" "\<not> 500 \<le> status_code response"
    by (auto simp: retryable_def outcome_of_def Let_def split: if_splits)
  with assms(1) HttpResponse show ?thesis
    by (auto simp: requests_request_def final_result_def handle_response_def)
qed


lemma request_attempts_prefix:
  assumes hdr: "get_headers api = Inr headers"
  shows "i + k \<le> api_max_retries api
     \<Longrightarrow> (\<forall>j<k. retryable (outcome_of
                  (api_endpoint w (length (api_requests w) + j) (url, headers))))
     \<Longrightarrow> request_attempts api url [i..<api_max_retries api] le w
         = request_attempts api url [i + k..<api_max_retries api]
             (if k = 0 then le
              else Some (last_seen
                     (api_endpoint w (length (api_requests w) + (k - 1)) (url, headers))))
             (w\<lparr>api_requests := api_requests w @ replicate k (url, headers),
                sleeps := sleeps w
                  @ concat (map (\<lambda>j. backoff (api_retry_delay api) (api_max_retries api) (i + j)
                                      (outcome_of (api_endpoint w (length (api_requests w) + j)
                                                     (url, headers))))
                             [0..<k])\<rparr>)"
proof (induction k)
  case 0
  show ?case by (cases w) simp
next
  case (Suc k)
  let ?n = "api_max_retries api"
  let ?reply = "\<lambda>j. api_endpoint w (length (api_requests w) + j) (url, headers)"
  let ?wk = "w\<lparr>api_requests := api_requests w @ replicate k (url, headers),
               sleeps := sleeps w
                 @ concat (map (\<lambda>j. backoff (api_retry_delay api) ?n (i + j)
                                     (outcome_of (?reply j))) [0..<k])\<rparr>"
  let ?lek = "if k = 0 then le else Some (last_seen (?reply (k - 1)))"
  from Suc.prems have ik: "i + k < ?n" and pre: "\<forall>j<k. retryable (outcome_of (?reply j))"
    and rk: "retryable (outcome_of (?reply k))"
    by auto
  from ik have ik': "i + k \<le> ?n" by simp
  have step0: "request_attempts api url [i..<?n] le w
                 = request_attempts api url [i + k..<?n] ?lek ?wk"
    by (rule Suc.IH [OF ik' pre])
  have split: "[i + k..<?n] = (i + k) # [i + Suc k..<?n]"
    using ik by (simp add: upt_conv_Cons)
  have ep: "api_endpoint ?wk (length (api_requests ?wk)) (url, headers) = ?reply k"
    by simp
  have rk': "retryable (outcome_of (api_endpoint ?wk (length (api_requests ?wk)) (url, headers)))"
    using rk by (simp only: ep)
  have step1: "request_attempts api url ((i + k) # [i + Suc k..<?n]) ?lek ?wk
                 = request_attempts api url [i + Suc k..<?n]
                     (Some (last_seen (?reply k)))
                     (?wk\<lparr>api_requests := api_requests ?wk @ [(url, headers)],
                          sleeps := sleeps ?wk
                            @ backoff (api_retry_delay api) ?n (i + k)
                                (outcome_of (?reply k))\<rparr>)"
    using attempt_retryable [OF hdr rk', of "i + k" "[i + Suc k..<?n]" ?lek]
    by (simp only: ep)
  have wk1: "?wk\<lparr>api_requests := api_requests ?wk @ [(url, headers)],
                 sleeps := sleeps ?wk
                   @ backoff (api_retry_delay api) ?n (i + k) (outcome_of (?reply k))\<rparr>
             = w\<lparr>api_requests := api_requests w @ replicate (Suc k) (url, headers),
                 sleeps := sleeps w
                   @ concat (map (\<lambda>j. backoff (api_retry_delay api) ?n (i + j)
                                       (outcome_of (?reply j))) [0..<Suc k])\<rparr>"
    by (cases w) (simp add: replicate_append_same)
  show ?case
    unfolding step0 split step1 wk1 by simp
qed


lemma request_with_retry_stops:
  assumes hdr: "get_headers api = Inr headers"
    and k: "k < api_max_retries api"
    and pre: "\<forall>j<k. retryable (outcome_of
                (api_endpoint w (length (api_requests w) + j) (url, headers)))"
    and fin: "\<not> retryable (outcome_of
                (api_endpoint w (length (api_requests w) + k) (url, headers)))"
  shows "request_with_retry api url w
           = (final_result (api_endpoint w (length (api_requests w) + k) (url, headers)),
              w\<lparr>api_requests := api_requests w @ replicate (Suc k) (url, headers),
                 sleeps := sleeps w
                   @ concat (map (\<lambda>j. backoff (api_retry_delay api) (api_max_retries api) j
                                       (outcome_of (api_endpoint w (length (api_requests w) + j)
                                                      (url, headers))))
                              [0..<k])\<rparr>)"
proof -
  let ?n = "api_max_retries api"
  let ?reply = "\<lambda>j. api_endpoint w (length (api_requests w) + j) (url, headers)"
  let ?wk = "w\<lparr>api_requests := api_requests w @ replicate k (url, headers),
               sleeps := sleeps w
                 @ concat (map (\<lambda>j. backoff (api_retry_delay api) ?n (0 + j)
                                     (outcome_of (?reply j))) [0..<k])\<rparr>"
  let ?lek = "if k = 0 then None else Some (last_seen (?reply (k - 1)))"
  from k have k': "0 + k \<le> ?n" by simp
  have step0: "request_attempts api url [0..<?n] None w
                 = request_attempts api url [0 + k..<?n] ?lek ?wk"
    by (rule request_attempts_prefix [OF hdr k' pre])
  have split: "[0 + k..<?n] = k # [Suc k..<?n]"
    using k by (simp add: upt_conv_Cons)
  have ep: "api_endpoint ?wk (length (api_requests ?wk)) (url, headers) = ?reply k"
    by simp
  have fin': "\<not> retryable (outcome_of (api_endpoint ?wk (length (api_requests ?wk)) (url, headers)))"
    unfolding ep by (rule fin)
  have step1: "request_attempts api url (k # [Suc k..<?n]) ?lek ?wk
                 = (final_result (?reply k),
                    ?wk\<lparr>api_requests := api_requests ?wk @ [(url, headers)]\<rparr>)"
    using attempt_final [OF hdr fin', of k "[Suc k..<?n]" ?lek] by (simp only: ep)
  have wk1: "?wk\<lparr>api_requests := api_requests ?wk @ [(url, headers)]\<rparr>
             = w\<lparr>api_requests := api_requests w @ replicate (Suc k) (url, headers),
                 sleeps := sleeps w
                   @ concat (map (\<lambda>j. backoff (api_retry_delay api) ?n j
                                       (outcome_of (?reply j))) [0..<k])\<rparr>"
    by (cases w) (simp add: replicate_append_same)
  show ?thesis
    unfolding request_with_retry_def step0 split step1 wk1 by simp
qed

lemma request_with_retry_exhausted:
  assumes hdr: "get_headers api = Inr headers"
    and n: "0 < api_max_retries api"
    and pre: "\<forall>j<api_max_retries api. retryable (outcome_of
                (api_endpoint w (length (api_requests w) + j) (url, headers)))"
  shows "request_with_retry api url w
           = (Inl (last_seen (api_endpoint w (length (api_requests w) + (api_max_retries api - 1))
                                (url, headers))),
              w\<lparr>api_requests := api_requests w @ replicate (api_max_retries api) (url, headers),
                 sleeps := sleeps w
                   @ concat (map (\<lambda>j. backoff (api_retry_delay api) (api_max_retries api) j
                                       (outcome_of (api_endpoint w (length (api_requests w) + j)
                                                      (url, headers))))
                              [0..<api_max_retries api])\<rparr>)"
proof -
  have le: "0 + api_max_retries api \<le> api_max_retries api" by simp
  show ?thesis
    unfolding request_with_retry_def request_attempts_prefix [OF hdr le pre]
    using n by simp
qed

lemma final_result_kinds:
  "(outcome_of reply = AuthenticationFailure \<longrightarrow> (\<exists>m. final_result reply = Inl (AuthenticationError m)))
   \<and> (outcome_of reply = NotFound \<longrightarrow> (\<exists>m. final_result reply = Inl (NotFoundError m)))
   \<and> (outcome_of reply = Validation \<longrightarrow> (\<exists>m. final_result reply = Inl (ValidationError m)))"
  by (cases reply)
    (auto simp: outcome_of_def final_result_def handle_response_def Let_def split: if_splits)

lemma last_seen_kinds:
  "(outcome_of reply = RateLimited
      \<longrightarrow> last_seen reply = RateLimitError ''Rate limit exceeded after retries'')
   \<and> (outcome_of reply = ServerFailure \<longrightarrow> (\<exists>m. last_seen reply = ServerError m))
   \<and> (outcome_of reply = NetworkError \<longrightarrow> (\<exists>m. last_seen reply = QBOSDKError m))"
  by (cases reply)
    (auto simp: outcome_of_def last_seen_def handle_response_def Let_def split: if_splits)

lemma factory_api_defaults:
  "api_max_retries (sdk_customers (create_client_for_account acct w)) = 3
   \<and> api_retry_delay (sdk_customers (create_client_for_account acct w)) = 1
   \<and> api_max_retries (sdk_invoices (create_client_for_account acct w)) = 3
   \<and> api_retry_delay (sdk_invoices (create_client_for_account acct w)) = 1"
  by (simp add: create_client_for_account_def QuickBooksOnlineSDK_init_def Let_def
      update_api_tokens_def configure_api_def set_minor_version_def set_server_url_def
      set_access_token_def ApiBase_init_def)


text \<open>
  C5. For one call of \<open>_request_with_retry\<close>, with \<open>n\<close> the retry ceiling (3 for every
  client the factory builds, with base delay 1) and the replies taken in the order of
  the attempts: as long as the replies are rate limits, server errors or network
  failures the call sleeps and tries again, sleeping base times two to the attempt
  after a rate limit and base times the attempt number after a server error or a
  network failure that is not the last attempt; when all \<open>n\<close> attempts end so, it has made
  \<open>n\<close> requests and raises the error kept for the last reply (a \<open>RateLimitError\<close> after a
  rate limit, the \<open>ServerError\<close> after a server error, a \<open>QBOSDKError\<close> after a network
  failure). The first reply of another kind ends the call at once, with no further
  request and no sleep after it: a result on 200, and on 401 or 403, 404 and 400 the
  \<open>AuthenticationError\<close>, \<open>NotFoundError\<close> and \<open>ValidationError\<close>.
\<close>

theorem request_with_retry_policy:
  assumes "get_headers api = Inr headers"
  shows
    "(let n = api_max_retries api;
          reply = (\<lambda>j. api_endpoint w (length (api_requests w) + j) (url, headers));
          slept = (\<lambda>k. concat (map (\<lambda>j. backoff (api_retry_delay api) n j (outcome_of (reply j)))
                                  [0..<k]))
      in (\<forall>k<n. (\<forall>j<k. retryable (outcome_of (reply j)))
                 \<longrightarrow> \<not> retryable (outcome_of (reply k))
                 \<longrightarrow> request_with_retry api url w
                       = (final_result (reply k),
                          w\<lparr>api_requests := api_requests w @ replicate (Suc k) (url, headers),
                             sleeps := sleeps w @ slept k\<rparr>))
         \<and> (0 < n \<longrightarrow> (\<forall>j<n. retryable (outcome_of (reply j)))
                 \<longrightarrow> request_with_retry api url w
                       = (Inl (last_seen (reply (n - 1))),
                          w\<lparr>api_requests := api_requests w @ replicate n (url, headers),
                             sleeps := sleeps w @ slept n\<rparr>)))
     \<and> (\<forall>r. (outcome_of r = AuthenticationFailure
                 \<longrightarrow> (\<exists>m. final_result r = Inl (AuthenticationError m)))
            \<and> (outcome_of r = NotFound \<longrightarrow> (\<exists>m. final_result r = Inl (NotFoundError m)))
            \<and> (outcome_of r = Validation \<longrightarrow> (\<exists>m. final_result r = Inl (ValidationError m)))
            \<and> (outcome_of r = RateLimited
                 \<longrightarrow> last_seen r = RateLimitError ''Rate limit exceeded after retries'')
            \<and> (outcome_of r = ServerFailure \<longrightarrow> (\<exists>m. last_seen r = ServerError m))
            \<and> (outcome_of r = NetworkError \<longrightarrow> (\<exists>m. last_seen r = QBOSDKError m)))
     \<and> api_max_retries (sdk_customers (create_client_for_account acct w0)) = 3
     \<and> api_retry_delay (sdk_customers (create_client_for_account acct w0)) = 1
     \<and> api_max_retries (sdk_invoices (create_client_for_account acct w0)) = 3
     \<and> api_retry_delay (sdk_invoices (create_client_for_account acct w0)) = 1"
  unfolding Let_def
  using request_with_retry_stops [OF assms, of _ w url]
    request_with_retry_exhausted [OF assms, of w url]
    final_result_kinds last_seen_kinds factory_api_defaults [of acct w0]
  by (intro conjI allI impI) blast+


theorem request_with_retry_policy_witness:
  "fst (request_with_retry (sdk_customers (create_client_for_account (demo_accounts ! 0) demo_world))
          ''u'' (answering (\<lambda>n. status_reply 429)))
     = Inl (RateLimitError ''Rate limit exceeded after retries'')
   \<and> sleeps (snd (request_with_retry
          (sdk_customers (create_client_for_account (demo_accounts ! 0) demo_world))
          ''u'' (answering (\<lambda>n. status_reply 429)))) = [1, 2, 4]
   \<and> fst (request_with_retry (sdk_customers (create_client_for_account (demo_accounts ! 0) demo_world))
          ''u'' (answering (\<lambda>n. if n < 2 then status_reply 503 else TransportError ''timeout'')))
     = Inl (QBOSDKError ''Network error: timeout'')
   \<and> sleeps (snd (request_with_retry
          (sdk_customers (create_client_for_account (demo_accounts ! 0) demo_world))
          ''u'' (answering (\<lambda>n. if n < 2 then status_reply 503 else TransportError ''timeout''))))
     = [1, 2]
   \<and> fst (request_with_retry (sdk_customers (create_client_for_account (demo_accounts ! 0) demo_world))
          ''u'' (answering (\<lambda>n. if n < 1 then status_reply 429 else status_reply 404)))
     = Inl (NotFoundError ''Resource not found: detail'')
   \<and> sleeps (snd (request_with_retry
          (sdk_customers (create_client_for_account (demo_accounts ! 0) demo_world))
          ''u'' (answering (\<lambda>n. if n < 1 then status_reply 429 else status_reply 404)))) = [1]
   \<and> length (api_requests (snd (request_with_retry
          (sdk_customers (create_client_for_account (demo_accounts ! 0) demo_world))
          ''u'' (answering (\<lambda>n. if n < 1 then status_reply 429 else status_reply 404))))) = 2"
proof -
  let ?api = "sdk_customers (create_client_for_account (demo_accounts ! 0) demo_world)"
  let ?h = "[(''Authorization'', ''Bearer tok1''), (''Accept'', ''application/json''),
             (''Content-Type'', ''application/json'')]"
  have hdr: "get_headers ?api = Inr ?h"
    by code_simp
  have n: "api_max_retries ?api = 3" and d: "api_retry_delay ?api = 1"
    using factory_api_defaults by simp_all
  have ep: "\<And>f k req. api_endpoint (answering f) k req = f k"
    and rq: "\<And>f. api_requests (answering f) = []" and sl: "\<And>f. sleeps (answering f) = []"
    by (simp_all add: answering_def demo_world_def)
  have k429: "outcome_of (status_reply 429) = RateLimited"
    and k503: "outcome_of (status_reply 503) = ServerFailure"
    and k404: "outcome_of (status_reply 404) = NotFound"
    and knet: "outcome_of (TransportError ''timeout'') = NetworkError"
    by (simp_all add: outcome_of_def status_reply_def)
  have l429: "last_seen (status_reply 429) = RateLimitError ''Rate limit exceeded after retries''"
    and lnet: "last_seen (TransportError ''timeout'') = QBOSDKError ''Network error: timeout''"
    and f404: "final_result (status_reply 404) = Inl (NotFoundError ''Resource not found: detail'')"
    by (simp_all add: last_seen_def final_result_def status_reply_def handle_response_def)
  have upt3: "[0..<3] = [0, 1, 2]" and upt1: "[0..<1] = [0::nat]"
    by (simp_all add: upt_rec)
  note pol = request_with_retry_policy [OF hdr, unfolded Let_def n d, THEN conjunct1]
  have a: "request_with_retry ?api ''u'' (answering (\<lambda>n. status_reply 429))
             = (Inl (RateLimitError ''Rate limit exceeded after retries''),
                (answering (\<lambda>n. status_reply 429))
                  \<lparr>api_requests := replicate 3 (''u'', ?h), sleeps := [1, 2, 4]\<rparr>)"
    using pol [of "answering (\<lambda>n. status_reply 429)" "''u''", THEN conjunct2]
    by (simp add: ep rq sl k429 l429 retryable_def backoff_def upt3)
  have b: "request_with_retry ?api ''u''
               (answering (\<lambda>n. if n < 2 then status_reply 503 else TransportError ''timeout''))
             = (Inl (QBOSDKError ''Network error: timeout''),
                (answering (\<lambda>n. if n < 2 then status_reply 503 else TransportError ''timeout''))
                  \<lparr>api_requests := replicate 3 (''u'', ?h), sleeps := [1, 2]\<rparr>)"
    using pol [of "answering (\<lambda>n. if n < 2 then status_reply 503 else TransportError ''timeout'')"
        "''u''", THEN conjunct2]
    by (simp add: ep rq sl k503 knet lnet retryable_def backoff_def upt3)
  have c: "request_with_retry ?api ''u''
               (answering (\<lambda>n. if n < 1 then status_reply 429 else status_reply 404))
             = (Inl (NotFoundError ''Resource not found: detail''),
                (answering (\<lambda>n. if n < 1 then status_reply 429 else status_reply 404))
                  \<lparr>api_requests := [(''u'', ?h), (''u'', ?h)], sleeps := [1]\<rparr>)"
    using pol [of "answering (\<lambda>n. if n < 1 then status_reply 429 else status_reply 404)"
        "''u''", THEN conjunct1, rule_format, of 1]
    by (simp add: ep rq sl k429 k404 f404 retryable_def backoff_def upt1)
  show ?thesis
    unfolding a b c by simp
qed

subsection \<open>C2: which failures mark the sync state failed\<close>

lemma get_or_create_failures:
  "get_or_create a ty w = (row, w2)
   \<Longrightarrow> consecutive_failures row
       = (case sync_states w (a, ty) of None \<Rightarrow> 0 | Some r \<Rightarrow> consecutive_failures r)"
  by (auto simp: get_or_create_def Let_def split: option.splits)

lemma sync_customers_failed_row:
  assumes run: "sync_customers fuel acct client w = Some (Inl e, client1, w')"
    and tok: "ensure_token_valid client w = (Inr u, client0, w1)"
  shows "\<exists>row. sync_states w' (pk acct, CUSTOMER) = Some row
           \<and> status row = FAILED \<and> error_message row = Some (str e)
           \<and> consecutive_failures row
               = (case sync_states w1 (pk acct, CUSTOMER) of
                    None \<Rightarrow> 0 | Some r \<Rightarrow> consecutive_failures r) + 1
           \<and> checkpoint row = watermark w1 (pk acct, CUSTOMER)"
  using run
proof (cases rule: sync_customers_cases)
  case (token e')
  with tok show ?thesis by simp
next
  case (success w1' row w2 row1 w3 acc w4)
  then show ?thesis by simp
next
  case (failed w1' row w2 row1 w3 e' w4)
  let ?key = "(pk acct, CUSTOMER)"
  from failed(1) tok have w1: "w1' = w1" by simp
  from failed(5) have e: "e' = e" by simp
  note goc = get_or_create_row [OF failed(2) [unfolded w1]]
  note gf = get_or_create_failures [OF failed(2) [unfolded w1]]
  note ms = call_mark_started_row [OF failed(3) goc(1)]
  have s4: "sync_states w4 = sync_states w3"
    by (rule customer_batches_sync_states [OF failed(4)])
  obtain obj5 w5 where c5: "call_mark_failed ?key (str e) row1 w4 = (obj5, w5)"
    by (cases "call_mark_failed ?key (str e) row1 w4")
  have r4: "sync_states w4 ?key = Some (started_fields row1 row)"
    by (simp add: s4 ms(1))
  note fin = call_mark_failed_row [OF c5 r4]
  have w': "w' = w5" using failed(6) c5 e by simp
  have "sync_states w' ?key = Some (failed_fields obj5 (started_fields row1 row))"
    by (simp add: w' fin(1))
  moreover have "status (failed_fields obj5 (started_fields row1 row)) = FAILED"
    and "error_message (failed_fields obj5 (started_fields row1 row)) = Some (str e)"
    and "consecutive_failures (failed_fields obj5 (started_fields row1 row))
           = consecutive_failures row + 1"
    and "checkpoint (failed_fields obj5 (started_fields row1 row)) = checkpoint row"
    by (simp_all add: failed_fields_def started_fields_def fin(2) ms(2) mark_failed_def
        mark_started_def)
  ultimately show ?thesis
    using gf goc(3) by simp
qed

lemma sync_invoices_failed_row:
  assumes run: "sync_invoices fuel acct client w = Some (Inl e, client1, w')"
    and tok: "ensure_token_valid client w = (Inr u, client0, w1)"
  shows "\<exists>row. sync_states w' (pk acct, INVOICE) = Some row
           \<and> status row = FAILED \<and> error_message row = Some (str e)
           \<and> consecutive_failures row
               = (case sync_states w1 (pk acct, INVOICE) of
                    None \<Rightarrow> 0 | Some r \<Rightarrow> consecutive_failures r) + 1
           \<and> checkpoint row = watermark w1 (pk acct, INVOICE)"
  using run
proof (cases rule: sync_invoices_cases)
  case (token e')
  with tok show ?thesis by simp
next
  case (success w1' row w2 row1 w3 acc w4)
  then show ?thesis by simp
next
  case (failed w1' row w2 row1 w3 e' w4)
  let ?key = "(pk acct, INVOICE)"
  from failed(1) tok have w1: "w1' = w1" by simp
  from failed(5) have e: "e' = e" by simp
  note goc = get_or_create_row [OF failed(2) [unfolded w1]]
  note gf = get_or_create_failures [OF failed(2) [unfolded w1]]
  note ms = call_mark_started_row [OF failed(3) goc(1)]
  have s4: "sync_states w4 = sync_states w3"
    by (rule invoice_batches_sync_states [OF failed(4)])
  obtain obj5 w5 where c5: "call_mark_failed ?key (str e) row1 w4 = (obj5, w5)"
    by (cases "call_mark_failed ?key (str e) row1 w4")
  have r4: "sync_states w4 ?key = Some (started_fields row1 row)"
    by (simp add: s4 ms(1))
  note fin = call_mark_failed_row [OF c5 r4]
  have w': "w' = w5" using failed(6) c5 e by simp
  have "sync_states w' ?key = Some (failed_fields obj5 (started_fields row1 row))"
    by (simp add: w' fin(1))
  moreover have "status (failed_fields obj5 (started_fields row1 row)) = FAILED"
    and "error_message (failed_fields obj5 (started_fields row1 row)) = Some (str e)"
    and "consecutive_failures (failed_fields obj5 (started_fields row1 row))
           = consecutive_failures row + 1"
    and "checkpoint (failed_fields obj5 (started_fields row1 row)) = checkpoint row"
    by (simp_all add: failed_fields_def started_fields_def fin(2) ms(2) mark_failed_def
        mark_started_def)
  ultimately show ?thesis
    using gf goc(3) by simp
qed

lemma sync_customers_token_failure:
  assumes "ensure_token_valid client w = (Inl e, client1, w1)"
  shows "sync_customers fuel acct client w = Some (Inl e, client1, w1)"
  using assms by (simp add: sync_customers_def)

lemma sync_invoices_token_failure:
  assumes "ensure_token_valid client w = (Inl e, client1, w1)"
  shows "sync_invoices fuel acct client w = Some (Inl e, client1, w1)"
  using assms by (simp add: sync_invoices_def)


text \<open>
  C2, as the claim states it, fails for step 3. The second account of the scenario holds
  no access token and a refresh token that the identity provider rejects: the
  \<open>InvalidGrantError\<close> of \<open>ensure_token_valid\<close> leaves \<open>sync_customers\<close> and \<open>sync_invoices\<close>
  while the stored sync state, which was \<open>success\<close> with no failures, is exactly as
  before: \<open>mark_failed\<close> has not been called.
\<close>

theorem token_failure_not_marked_counterexample:
  "map_option (\<lambda>(r, c, w'). (r, sync_states w' (2, CUSTOMER)))
     (sync_customers 3 (demo_accounts ! 1)
        (create_client_for_account (demo_accounts ! 1) demo_world)
        (demo_world\<lparr>sync_states := [(2, CUSTOMER) \<mapsto> synced_row]\<rparr>))
     = Some (Inl (InvalidGrantError ''Refresh token invalid: Token revoked''), Some synced_row)
   \<and> map_option (\<lambda>(r, c, w'). (r, sync_states w' (2, INVOICE)))
     (sync_invoices 3 (demo_accounts ! 1)
        (create_client_for_account (demo_accounts ! 1) demo_world)
        (demo_world\<lparr>sync_states := [(2, INVOICE) \<mapsto> synced_row]\<rparr>))
     = Some (Inl (InvalidGrantError ''Refresh token invalid: Token revoked''), Some synced_row)
   \<and> status synced_row = SUCCESS \<and> consecutive_failures synced_row = 0"
  by code_simp

text \<open>
  C2, amended. In \<open>sync_customers\<close> and \<open>sync_invoices\<close>, every exception that leaves the
  batch iteration (step 4) or the upserts of a batch (step 5) is raised again to the
  caller after \<open>mark_failed\<close> has been called with its message: the stored sync state is
  then \<open>failed\<close>, holds the message, counts one more consecutive failure and has the
  watermark it had. An exception of \<open>ensure_token_valid\<close> (step 3) is raised to the
  caller as it is; the token check runs before the sync state is loaded and outside
  the \<open>try\<close>, so \<open>mark_failed\<close> is not called and the sync states stay as they were.
\<close>

theorem failure_marks_sync_state:
  "(ensure_token_valid client w = (Inr u, client0, w1)
      \<longrightarrow> sync_customers fuel acct client w = Some (Inl e, client1, w')
      \<longrightarrow> (\<exists>row. sync_states w' (pk acct, CUSTOMER) = Some row
             \<and> status row = FAILED \<and> error_message row = Some (str e)
             \<and> consecutive_failures row
                 = (case sync_states w1 (pk acct, CUSTOMER) of
                      None \<Rightarrow> 0 | Some r \<Rightarrow> consecutive_failures r) + 1
             \<and> checkpoint row = watermark w1 (pk acct, CUSTOMER)))
   \<and> (ensure_token_valid client w = (Inr u, client0, w1)
      \<longrightarrow> sync_invoices fuel acct client w = Some (Inl e, client1, w')
      \<longrightarrow> (\<exists>row. sync_states w' (pk acct, INVOICE) = Some row
             \<and> status row = FAILED \<and> error_message row = Some (str e)
             \<and> consecutive_failures row
                 = (case sync_states w1 (pk acct, INVOICE) of
                      None \<Rightarrow> 0 | Some r \<Rightarrow> consecutive_failures r) + 1
             \<and> checkpoint row = watermark w1 (pk acct, INVOICE)))
   \<and> (ensure_token_valid client w = (Inl e, client0, w1)
      \<longrightarrow> sync_customers fuel acct client w = Some (Inl e, client0, w1)
          \<and> sync_invoices fuel acct client w = Some (Inl e, client0, w1)
          \<and> (sdk_on_token_refresh client = Some (on_token_refresh acct0)
               \<longrightarrow> sync_states w1 = sync_states w))"
  using sync_customers_failed_row [of fuel acct client w e client1 w' u client0 w1]
    sync_invoices_failed_row [of fuel acct client w e client1 w' u client0 w1]
    sync_customers_token_failure [of client w e client0 w1 fuel acct]
    sync_invoices_token_failure [of client w e client0 w1 fuel acct]
    ensure_token_valid_sync_states [of client w "Inl e" client0 w1 acct0]
  by blast

theorem failure_marks_sync_state_witness:
  "map_option fst (sync_customers 3 (demo_accounts ! 3)
       (create_client_for_account (demo_accounts ! 3) demo_world) demo_world)
     = Some (Inl (NotFoundError ''Resource not found: no such company''))
   \<and> (\<exists>client1 w' row.
         sync_customers 3 (demo_accounts ! 3)
           (create_client_for_account (demo_accounts ! 3) demo_world) demo_world
           = Some (Inl (NotFoundError ''Resource not found: no such company''), client1, w')
         \<and> sync_states w' (4, CUSTOMER) = Some row \<and> status row = FAILED
         \<and> error_message row = Some ''Resource not found: no such company''
         \<and> consecutive_failures row = 1)
   \<and> fst (ensure_token_valid (create_client_for_account (demo_accounts ! 1) demo_world)
            demo_world)
     = Inl (InvalidGrantError ''Refresh token invalid: Token revoked'')
   \<and> map_option fst (sync_invoices 3 (demo_accounts ! 1)
       (create_client_for_account (demo_accounts ! 1) demo_world) demo_world)
     = Some (Inl (InvalidGrantError ''Refresh token invalid: Token revoked''))"
proof -
  let ?a4 = "demo_accounts ! 3"
  let ?c4 = "create_client_for_account ?a4 demo_world"
  let ?a2 = "demo_accounts ! 1"
  let ?c2 = "create_client_for_account ?a2 demo_world"
  let ?e = "NotFoundError ''Resource not found: no such company''"
  let ?g = "InvalidGrantError ''Refresh token invalid: Token revoked''"
  have r4: "map_option fst (sync_customers 3 ?a4 ?c4 demo_world) = Some (Inl ?e)"
    by code_simp
  then obtain client1 w' where
    run: "sync_customers 3 ?a4 ?c4 demo_world = Some (Inl ?e, client1, w')"
    by auto
  have "fst (ensure_token_valid ?c4 demo_world) = Inr ()"
    by code_simp
  then obtain client0 w1 where tok: "ensure_token_valid ?c4 demo_world = (Inr (), client0, w1)"
    by (metis prod.collapse)
  have none: "sync_states (snd (snd (ensure_token_valid ?c4 demo_world))) (4, CUSTOMER) = None"
    by code_simp
  have pk4: "pk ?a4 = 4"
    by (simp add: demo_accounts_def)
  from failure_marks_sync_state [where client="?c4" and w=demo_world and u="()"
      and ?client0.0=client0 and ?w1.0=w1 and fuel=3 and acct="?a4" and e="?e"
      and ?client1.0=client1 and w'=w', THEN conjunct1] tok run
  obtain row where "sync_states w' (pk ?a4, CUSTOMER) = Some row"
    "status row = FAILED" "error_message row = Some (str ?e)"
    "consecutive_failures row
       = (case sync_states w1 (pk ?a4, CUSTOMER) of None \<Rightarrow> 0 | Some r \<Rightarrow> consecutive_failures r) + 1"
    by blast
  with none tok have row: "sync_states w' (4, CUSTOMER) = Some row \<and> status row = FAILED
      \<and> error_message row = Some ''Resource not found: no such company''
      \<and> consecutive_failures row = 1"
    by (simp add: pk4)
  have g2: "fst (ensure_token_valid ?c2 demo_world) = Inl ?g"
    by code_simp
  then obtain client2 w2 where tok2: "ensure_token_valid ?c2 demo_world = (Inl ?g, client2, w2)"
    by (metis prod.collapse)
  from failure_marks_sync_state [where client="?c2" and w=demo_world and e="?g"
      and ?client0.0=client2 and ?w1.0=w2 and fuel=3 and acct="?a2",
      THEN conjunct2, THEN conjunct2] tok2
  have "sync_invoices 3 ?a2 ?c2 demo_world = Some (Inl ?g, client2, w2)"
    by blast
  then have i2: "map_option fst (sync_invoices 3 ?a2 ?c2 demo_world) = Some (Inl ?g)"
    by simp
  from r4 run row g2 i2 show ?thesis by blast
qed

subsection \<open>C3: a revoked account is not used\<close>



lemma sync_object_type_raises:
  assumes "sync_object_type fuel acct client cfg w = Some (Inl e, client1, w')"
  shows "e = RevokedRefreshTokenError ''Refresh token is invalid or revoked''
         \<and> (\<exists>m w0. getattr_method (cfg_method cfg) fuel acct client w
                       = Some (Inl (InvalidGrantError m), client1, w0)
                     \<and> w' = save_is_token_expired acct w0)"
  using assms
  by (auto simp: sync_object_type_def split: option.splits sum.splits exn.splits prod.splits)

lemma save_is_token_expired_flag:
  "\<forall>a \<in> set (accounts (save_is_token_expired acct w)). pk a = pk acct \<longrightarrow> is_token_expired a"
  by (auto simp: save_is_token_expired_def)

lemma sync_configs_raises:
  assumes "sync_configs fuel acct client cfgs results w = Some (Inl e, w')"
  shows "e = RevokedRefreshTokenError ''Refresh token is invalid or revoked''
         \<and> (\<exists>w0. w' = save_is_token_expired acct w0)"
  using assms
proof (induction cfgs arbitrary: client results w)
  case Nil
  then show ?case by simp
next
  case (Cons cfg rest)
  from Cons.prems obtain r0 client0 w0 where
    s: "sync_object_type fuel acct client cfg w = Some (r0, client0, w0)"
    by (auto split: option.splits)
  show ?case
  proof (cases r0)
    case (Inl e0)
    with Cons.prems s have "e0 = e" "w0 = w'" by simp_all
    with sync_object_type_raises [OF s [unfolded Inl]] show ?thesis by auto
  next
    case (Inr r)
    with Cons.prems s have
      "sync_configs fuel acct client0 rest (AList.update (cfg_name cfg) r results) w0
         = Some (Inl e, w')"
      by simp
    from Cons.IH [OF this] show ?thesis .
  qed
qed


lemma sync_account_revokes:
  assumes run: "sync_account fuel realm w = Some (Inl (RevokedRefreshTokenError m), w')"
    and found: "find (\<lambda>a. realm_id a = realm) (accounts w) = Some acct"
    and live: "\<not> is_token_expired acct"
  shows "m = ''Refresh token is invalid or revoked''
         \<and> (\<forall>a \<in> set (accounts w'). pk a = pk acct \<longrightarrow> is_token_expired a)"
proof -
  from run found live obtain e0 where
    c: "sync_configs fuel acct (create_client_for_account acct w) SYNC_CONFIG
          (map (\<lambda>cfg. (cfg_name cfg, pending_result)) SYNC_CONFIG) w = Some (Inl e0, w')"
    and e0: "reraise e0 = RevokedRefreshTokenError m"
    by (auto simp: sync_account_def Let_def split: option.splits sum.splits)
  from sync_configs_raises [OF c] e0 save_is_token_expired_flag show ?thesis
    by auto
qed













lemma account_keys_upd [simp]:
  "account_keys (w\<lparr>clock_reads := n\<rparr>) = account_keys w"
  "account_keys (w\<lparr>token_requests := t\<rparr>) = account_keys w"
  by (simp_all add: account_keys_def)







lemma account_keys_save_is_token_expired [simp]:
  "account_keys (save_is_token_expired acct w) = account_keys w"
  by (simp add: account_keys_def save_is_token_expired_def)












subsection \<open>The pagination loops end\<close>

lemma request_attempts_served:
  "request_attempts api url atts le w = (Inr body, w1)
   \<Longrightarrow> \<exists>k req response. length (api_requests w) \<le> k \<and> k < length (api_requests w1)
         \<and> api_endpoint w k req = HttpResponse response
         \<and> status_code response = 200 \<and> QueryResponse response = body"
proof (induction atts arbitrary: le w)
  case Nil
  then show ?case by (auto split: option.splits)
next
  case (Cons attempt rest)
  let ?G = "\<exists>k req response. length (api_requests w) \<le> k \<and> k < length (api_requests w1)
         \<and> api_endpoint w k req = HttpResponse response
         \<and> status_code response = 200 \<and> QueryResponse response = body"
  show ?case
  proof (cases "get_headers api")
    case (Inl e)
    with Cons.prems show ?thesis by auto
  next
    case (Inr headers)
    let ?w0 = "w\<lparr>api_requests := api_requests w @ [(url, headers)]\<rparr>"
    let ?reply = "api_endpoint w (length (api_requests w)) (url, headers)"
    have rr: "requests_request (url, headers) w = (?reply, ?w0)"
      by (simp add: requests_request_def)
    have later: "\<And>le' ws. request_attempts api url rest le' ws = (Inr body, w1)
        \<Longrightarrow> api_endpoint ws = api_endpoint w
        \<Longrightarrow> length (api_requests ws) = Suc (length (api_requests w))
        \<Longrightarrow> ?G"
    proof -
      fix le' ws
      assume a: "request_attempts api url rest le' ws = (Inr body, w1)"
        and ep: "api_endpoint ws = api_endpoint w"
        and len: "length (api_requests ws) = Suc (length (api_requests w))"
      from Cons.IH [OF a] obtain k req response where
        "length (api_requests ws) \<le> k" "k < length (api_requests w1)"
        "api_endpoint ws k req = HttpResponse response"
        "status_code response = 200" "QueryResponse response = body"
        by blast
      then show ?G
        unfolding ep len by (intro exI [of _ k] exI [of _ req] exI [of _ response]) simp
    qed
    show ?thesis
    proof (cases ?reply)
      case (TransportError m)
      with Cons.prems Inr rr have
        "request_attempts api url rest (Some (QBOSDKError (''Network error: '' @ m)))
           (if int attempt < int (api_max_retries api) - 1
            then sleep (api_retry_delay api * (of_nat attempt + 1)) ?w0 else ?w0) = (Inr body, w1)"
        by simp
      then show ?thesis
        by (rule later) (simp_all add: sleep_def)
    next
      case (HttpResponse response)
      show ?thesis
      proof (cases "handle_response response")
        case (Inr body0)
        with Cons.prems \<open>get_headers api = Inr headers\<close> rr HttpResponse
        have b: "body0 = body" and w1: "w1 = ?w0" by simp_all
        from Inr have "status_code response = 200" "QueryResponse response = body0"
          by (auto simp: handle_response_def split: if_splits)
        with HttpResponse b show ?thesis
          unfolding w1
          by (intro exI [of _ "length (api_requests w)"] exI [of _ "(url, headers)"]
              exI [of _ response]) simp
      next
        case (Inl e)
        show ?thesis
        proof (cases e)
          case (RateLimitError m)
          with Cons.prems \<open>get_headers api = Inr headers\<close> rr HttpResponse Inl have
            "request_attempts api url rest (Some (RateLimitError ''Rate limit exceeded after retries''))
               (sleep (api_retry_delay api * 2 ^ attempt) ?w0) = (Inr body, w1)"
            by simp
          then show ?thesis
            by (rule later) (simp_all add: sleep_def)
        next
          case (ServerError m)
          with Cons.prems \<open>get_headers api = Inr headers\<close> rr HttpResponse Inl have
            "request_attempts api url rest (Some (ServerError m))
               (if int attempt < int (api_max_retries api) - 1
                then sleep (api_retry_delay api * (of_nat attempt + 1)) ?w0 else ?w0)
               = (Inr body, w1)"
            by simp
          then show ?thesis
            by (rule later) (simp_all add: sleep_def)
        qed (use Cons.prems \<open>get_headers api = Inr headers\<close> rr HttpResponse Inl in auto)
      qed
    qed
  qed
qed

lemma query_served:
  "query api q w = (Inr body, w1)
   \<Longrightarrow> \<exists>k req response. length (api_requests w) \<le> k \<and> k < length (api_requests w1)
         \<and> api_endpoint w k req = HttpResponse response
         \<and> status_code response = 200 \<and> QueryResponse response = body"
proof -
  assume "query api q w = (Inr body, w1)"
  then obtain url where
    "request_attempts api url [0..<api_max_retries api] None w = (Inr body, w1)"
    by (auto simp: query_def request_with_retry_def split: sum.splits)
  then show ?thesis by (rule request_attempts_served)
qed

lemma loop_turn_yield:
  assumes "loop_turn g sp w = (Yield batch, g1, w1)"
  shows "g1 = g\<lparr>gen_state := Yielded sp (length batch)\<rparr> \<and> batch \<noteq> []
         \<and> (\<exists>k req response. length (api_requests w) \<le> k \<and> k < length (api_requests w1)
               \<and> api_endpoint w k req = HttpResponse response
               \<and> status_code response = 200
               \<and> batch = response_entities (gen_entity_name g) (QueryResponse response))"
proof -
  from assms obtain body where q: "query (gen_api g) (paginated_query g sp) w = (Inr body, w1)"
    and b: "batch = response_entities (gen_entity_name g) body" "batch \<noteq> []"
    and g1: "g1 = g\<lparr>gen_state := Yielded sp (length batch)\<rparr>"
    by (auto simp: loop_turn_def Let_def split: prod.splits sum.splits if_splits)
  from query_served [OF q] b g1 show ?thesis by blast
qed

lemma next_batch_yield:
  assumes "next_batch g w = (Yield batch, g1, w1)"
  shows "(\<exists>sp. g1 = g\<lparr>gen_state := Yielded sp (length batch)\<rparr>) \<and> batch \<noteq> []
         \<and> (\<forall>sp n. gen_state g = Yielded sp n \<longrightarrow> gen_page_size g \<le> n)
         \<and> (\<exists>k req response. length (api_requests w) \<le> k \<and> k < length (api_requests w1)
               \<and> api_endpoint w k req = HttpResponse response
               \<and> status_code response = 200
               \<and> batch = response_entities (gen_entity_name g) (QueryResponse response))"
proof (cases "gen_state g")
  case (LoopHead sp)
  with assms have "loop_turn g sp w = (Yield batch, g1, w1)" by (simp add: next_batch_def)
  from loop_turn_yield [OF this] LoopHead show ?thesis by auto
next
  case (Yielded sp n)
  with assms have n: "\<not> n < gen_page_size g"
    and "loop_turn g (sp + gen_page_size g) w = (Yield batch, g1, w1)"
    by (auto simp: next_batch_def split: if_splits)
  from loop_turn_yield [OF this(2)] Yielded n show ?thesis by auto
next
  case Exhausted
  with assms show ?thesis by (simp add: next_batch_def)
qed

lemma next_batch_short:
  "gen_state g = Yielded sp n \<Longrightarrow> n < gen_page_size g
   \<Longrightarrow> next_batch g w = (StopIteration, g\<lparr>gen_state := Exhausted\<rparr>, w)"
  by (simp add: next_batch_def)


lemma pages_end_by_cong:
  "api_endpoint w1 = api_endpoint w \<Longrightarrow> pages_end_by n w1 = pages_end_by n w"
  by (simp add: pages_end_by_def)

lemma next_batch_api_endpoint:
  assumes "next_batch g w = (ev, g1, w1)"
  shows "api_endpoint w1 = api_endpoint w"
  using next_batch_frame [OF assms, where a="[]" and s="[]"] by (cases w; cases w1) simp

lemma yield_progress:
  assumes nb: "next_batch g w = (Yield batch, g1, w1)"
    and pe: "pages_end_by n w"
    and nm: "gen_entity_name g = ''Customer'' \<or> gen_entity_name g = ''Invoice''"
    and ps: "gen_page_size g = DEFAULT_PAGE_SIZE"
    and fu: "fuel_suffices n (Suc f) g w"
  shows "fuel_suffices n f g1 w1"
    and "gen_entity_name g1 = gen_entity_name g"
    and "gen_page_size g1 = gen_page_size g"
proof -
  from next_batch_yield [OF nb] obtain sp k req response where
    g1: "g1 = g\<lparr>gen_state := Yielded sp (length batch)\<rparr>"
    and full: "\<forall>sp n. gen_state g = Yielded sp n \<longrightarrow> gen_page_size g \<le> n"
    and k: "length (api_requests w) \<le> k" "k < length (api_requests w1)"
    and r: "api_endpoint w k req = HttpResponse response" "status_code response = 200"
      "batch = response_entities (gen_entity_name g) (QueryResponse response)"
    by blast
  from g1 show "gen_entity_name g1 = gen_entity_name g" "gen_page_size g1 = gen_page_size g"
    by simp_all
  from fu full have f: "n - length (api_requests w) + 1 < Suc f"
    by (auto simp: fuel_suffices_def split: gen_state.splits)
  show "fuel_suffices n f g1 w1"
  proof (cases "length batch < gen_page_size g")
    case True
    with f g1 show ?thesis by (simp add: fuel_suffices_def)
  next
    case False
    with r nm ps have "full_page (api_endpoint w k req)"
      by (auto simp: full_page_def)
    with pe have "k < n"
      unfolding pages_end_by_def by (metis not_le)
    with k f have "n - length (api_requests w1) + 1 < f" by arith
    then show ?thesis by (simp add: fuel_suffices_def)
  qed
qed



lemma fuel_suffices_cong:
  "api_requests w1 = api_requests w \<Longrightarrow> fuel_suffices n f g w1 = fuel_suffices n f g w"
  by (simp add: fuel_suffices_def)



lemma drain_returns:
  assumes "pages_end_by n w"
    and "gen_entity_name g = ''Customer'' \<or> gen_entity_name g = ''Invoice''"
    and "gen_page_size g = DEFAULT_PAGE_SIZE"
    and "fuel_suffices n fuel g w"
  shows "drain fuel g w \<noteq> None"
  using assms
proof (induction fuel arbitrary: g w)
  case 0
  then show ?case by (simp add: fuel_suffices_def)
next
  case (Suc fuel)
  obtain ev g0 w0 where nb: "next_batch g w = (ev, g0, w0)"
    by (cases "next_batch g w")
  show ?case
  proof (cases ev)
    case (Yield batch)
    note yp = yield_progress [OF nb [unfolded Yield] Suc.prems]
    have "pages_end_by n w0"
      using Suc.prems(1) next_batch_api_endpoint [OF nb] by (simp add: pages_end_by_def)
    then have "drain fuel g0 w0 \<noteq> None"
      using Suc.IH Suc.prems(2,3) yp by simp
    with nb Yield show ?thesis by (auto split: option.splits)
  qed (use nb in auto)
qed





















subsection \<open>C7: the fleet loop\<close>




end
